(* ===== verification/Svs_Prelude.thy ===== *)
theory Svs_Prelude
  imports Main "HOL-Library.Word" "HOL-Library.Multiset"
begin

text \<open>
  Shared vocabulary of the development: the machine types of the C sources, C's truncating
  division and its narrowing casts, the first-match scan that every fixed-size shared-memory
  table of the extension uses, sums over tables, and the contract of \<open>qsort\<close>.
\<close>

named_theorems unat_simps
  \<open>how unat moves over the word operations of the model when nothing wraps\<close>

section \<open>Machine types\<close>

text \<open>
  \<open>Oid\<close>, \<open>uint32\<close> and \<open>uint64\<close> keep their width. \<open>pid_t\<close> and \<open>TimestampTz\<close> are only
  compared, so they are integers.
\<close>

type_synonym u32 = "32 word"
type_synonym u64 = "64 word"
type_synonym oid = "32 word"
type_synonym pid = int
type_synonym timestamp = int

abbreviation InvalidOid :: oid where
  "InvalidOid \<equiv> 0"

abbreviation OidIsValid :: "oid \<Rightarrow> bool" where
  "OidIsValid r \<equiv> r \<noteq> 0"

text \<open>A heap TID of PostgreSQL: the halves of the block number, and the line pointer.\<close>

record ItemPointerData =
  ip_blkid_hi :: "16 word"
  ip_blkid_lo :: "16 word"
  ip_posid :: "16 word"

text \<open>The SQLSTATE symbols the extension raises or inspects.\<close>

datatype errcode =
    ERRCODE_OUT_OF_MEMORY
  | ERRCODE_OBJECT_NOT_IN_PREREQUISITE_STATE
  | ERRCODE_PROGRAM_LIMIT_EXCEEDED
  | ERRCODE_INVALID_PARAMETER_VALUE
  | ERRCODE_INSUFFICIENT_RESOURCES
  | ERRCODE_FEATURE_NOT_SUPPORTED
  | ERRCODE_QUERY_CANCELED
  | ERRCODE_INTERNAL_ERROR
  | ERRCODE_UNDEFINED_DATABASE
  | ERRCODE_CONFIGURATION_LIMIT_EXCEEDED
  | ERRCODE_DEPENDENT_OBJECTS_STILL_EXIST
  | ERRCODE_NUMERIC_VALUE_OUT_OF_RANGE
  | ERRCODE_WRONG_OBJECT_TYPE
  | ERRCODE_DATA_EXCEPTION

text \<open>A C cast of a wider integer to \<open>int32\<close>: two's complement truncation.\<close>

definition cast_i32 :: "int \<Rightarrow> int" where
  "cast_i32 x = (x + 2 ^ 31) mod 2 ^ 32 - 2 ^ 31"

text \<open>C's \<open>/\<close> and \<open>%\<close> truncate towards zero.\<close>

definition c_div :: "int \<Rightarrow> int \<Rightarrow> int" where
  "c_div a b = sgn a * sgn b * (\<bar>a\<bar> div \<bar>b\<bar>)"

definition c_mod :: "int \<Rightarrow> int \<Rightarrow> int" where
  "c_mod a b = a - c_div a b * b"

text \<open>The first position of a table whose entry satisfies a test: the scan loops of the sources.\<close>

fun find_index :: "('a \<Rightarrow> bool) \<Rightarrow> 'a list \<Rightarrow> nat option" where
  "find_index P [] = None"
| "find_index P (x # xs) = (if P x then Some 0 else map_option Suc (find_index P xs))"

section \<open>qsort\<close>

text \<open>
  \<open>qsort\<close> is not part of the sources and leaves the order of elements that compare equal open.
  It is a parameter of the model: a function that, given the comparison of two positions and the
  number of elements, returns the positions in their final order.
\<close>

type_synonym qperm = "(nat \<Rightarrow> nat \<Rightarrow> int) \<Rightarrow> nat \<Rightarrow> nat list"

definition qsort :: "qperm \<Rightarrow> ('a \<Rightarrow> 'a \<Rightarrow> int) \<Rightarrow> 'a list \<Rightarrow> 'a list" where
  "qsort qp cmp xs = map (\<lambda>i. xs ! i) (qp (\<lambda>i j. cmp (xs ! i) (xs ! j)) (length xs))"

text \<open>A comparison function that is consistent on the first \<open>n\<close> positions.\<close>

definition consistent_cmp :: "(nat \<Rightarrow> nat \<Rightarrow> int) \<Rightarrow> nat \<Rightarrow> bool" where
  "consistent_cmp cmp n \<longleftrightarrow>
     (\<forall>i < n. \<forall>j < n. cmp i j \<le> 0 \<or> cmp j i \<le> 0) \<and>
     (\<forall>i < n. \<forall>j < n. \<forall>k < n. cmp i j \<le> 0 \<longrightarrow> cmp j k \<le> 0 \<longrightarrow> cmp i k \<le> 0)"

text \<open>A comparison function that is a total preorder.\<close>

definition total_cmp :: "('a \<Rightarrow> 'a \<Rightarrow> int) \<Rightarrow> bool" where
  "total_cmp cmp \<longleftrightarrow> (\<forall>x y. cmp x y \<le> 0 \<or> cmp y x \<le> 0) \<and>
     (\<forall>x y z. cmp x y \<le> 0 \<longrightarrow> cmp y z \<le> 0 \<longrightarrow> cmp x z \<le> 0)"

text \<open>An executable sort with that interface: insertion sort on positions.\<close>

fun insert_pos :: "(nat \<Rightarrow> nat \<Rightarrow> int) \<Rightarrow> nat \<Rightarrow> nat list \<Rightarrow> nat list" where
  "insert_pos cmp i [] = [i]"
| "insert_pos cmp i (j # js) = (if cmp i j \<le> 0 then i # j # js else j # insert_pos cmp i js)"

definition insertion_qp :: qperm where
  "insertion_qp cmp n = foldr (insert_pos cmp) [0..<n] []"

section \<open>Arithmetic\<close>

lemma cast_i32_id [simp]: "- (2 ^ 31) \<le> x \<Longrightarrow> x < 2 ^ 31 \<Longrightarrow> cast_i32 x = x"
  by (simp add: cast_i32_def)

lemma c_div_nonneg [simp]: "0 \<le> a \<Longrightarrow> 0 < b \<Longrightarrow> c_div a b = a div b"
  by (cases "a = 0") (auto simp: c_div_def)

lemma c_mod_nonneg [simp]: "0 \<le> a \<Longrightarrow> 0 < b \<Longrightarrow> c_mod a b = a mod b"
  by (simp add: c_mod_def minus_div_mult_eq_mod)

lemma unat_add_no_wrap [unat_simps]:
  fixes a b :: u64
  assumes "unat a + unat b < 2 ^ 64"
  shows "unat (a + b) = unat a + unat b"
  using assms by (simp add: unat_word_ariths)

lemma unat_sub_le [unat_simps]:
  fixes a b :: "'a::len word"
  assumes "b \<le> a"
  shows "unat (a - b) = unat a - unat b"
  using assms by (rule unat_sub)

lemma unat_u64_less: "unat (a :: u64) < 2 ^ 64"
  using unsigned_less [of a] by simp

section \<open>Table scans\<close>

lemma find_index_SomeD:
  assumes "find_index P xs = Some i"
  shows "i < length xs" and "P (xs ! i)" and "\<forall>j < i. \<not> P (xs ! j)"
proof -
  have "i < length xs \<and> P (xs ! i) \<and> (\<forall>j < i. \<not> P (xs ! j))"
    using assms
  proof (induction xs arbitrary: i)
    case (Cons x xs)
    then show ?case
      by (force simp: nth_Cons' split: if_splits)
  qed simp
  then show "i < length xs" and "P (xs ! i)" and "\<forall>j < i. \<not> P (xs ! j)"
    by auto
qed

lemma find_index_None_iff: "find_index P xs = None \<longleftrightarrow> (\<forall>x \<in> set xs. \<not> P x)"
  by (induction xs) auto

lemma find_index_NoneD: "find_index P xs = None \<Longrightarrow> i < length xs \<Longrightarrow> \<not> P (xs ! i)"
  by (simp add: find_index_None_iff)

lemma find_index_ex: "i < length xs \<Longrightarrow> P (xs ! i) \<Longrightarrow> \<exists>j \<le> i. find_index P xs = Some j"
proof (cases "find_index P xs")
  case (Some j)
  moreover assume "i < length xs" and "P (xs ! i)"
  ultimately show ?thesis
    using find_index_SomeD(3) [OF Some] by (meson not_le)
qed (auto dest: find_index_NoneD)

section \<open>Sums over tables\<close>

lemma map_upt_nth: "map (\<lambda>i. f (xs ! i)) [0..<length xs] = map f xs"
  by (rule nth_equalityI) simp_all

lemma sum_list_map_update:
  fixes f :: "'a \<Rightarrow> 'b::comm_monoid_add"
  assumes "i < length xs"
  shows "sum_list (map f (xs[i := v])) + f (xs ! i) = sum_list (map f xs) + f v"
  using assms
proof (induction xs arbitrary: i)
  case (Cons x xs)
  show ?case
  proof (cases i)
    case 0
    then show ?thesis by (simp add: ac_simps)
  next
    case (Suc k)
    with Cons have "sum_list (map f (xs[k := v])) + f (xs ! k) = sum_list (map f xs) + f v"
      by simp
    with Suc show ?thesis by (simp add: ac_simps)
  qed
qed simp

lemma sum_list_map_update_int:
  fixes f :: "'a \<Rightarrow> int"
  assumes "i < length xs"
  shows "sum_list (map f (xs[i := v])) = sum_list (map f xs) - f (xs ! i) + f v"
  using sum_list_map_update [OF assms, of f v] by simp

lemma sum_list_map_update_nat:
  fixes f :: "'a \<Rightarrow> nat"
  assumes "i < length xs"
  shows "sum_list (map f (xs[i := v])) = sum_list (map f xs) - f (xs ! i) + f v"
    and "f (xs ! i) \<le> sum_list (map f xs)"
proof -
  show "f (xs ! i) \<le> sum_list (map f xs)"
    using assms member_le_sum_list [of "f (xs ! i)" "map f xs"] by simp
  with sum_list_map_update [OF assms, of f v]
  show "sum_list (map f (xs[i := v])) = sum_list (map f xs) - f (xs ! i) + f v"
    by simp
qed

lemma sum_list_map_mono_int:
  fixes f g :: "'a \<Rightarrow> int"
  assumes "\<And>x. x \<in> set xs \<Longrightarrow> f x \<le> g x"
  shows "sum_list (map f xs) \<le> sum_list (map g xs)"
  using assms by (induction xs) (auto intro: add_mono)

lemma sum_list_nonneg_int:
  fixes f :: "'a \<Rightarrow> int"
  assumes "\<And>x. x \<in> set xs \<Longrightarrow> 0 \<le> f x"
  shows "0 \<le> sum_list (map f xs)"
  using assms by (induction xs) auto

lemma sum_list_all_zero:
  fixes f :: "'a \<Rightarrow> 'b::comm_monoid_add"
  assumes "\<And>x. x \<in> set xs \<Longrightarrow> f x = 0"
  shows "sum_list (map f xs) = 0"
  using assms by (induction xs) auto

lemma member_le_sum_int:
  fixes f :: "'a \<Rightarrow> int"
  assumes "\<And>y. y \<in> set xs \<Longrightarrow> 0 \<le> f y" and "x \<in> set xs"
  shows "f x \<le> sum_list (map f xs)"
  using assms
proof (induction xs)
  case (Cons y ys)
  have "0 \<le> sum_list (map f ys)"
    using Cons.prems(1) by (intro sum_list_nonneg_int) auto
  with Cons show ?case by fastforce
qed simp

lemma sum_list_mset_map:
  fixes f :: "'a \<Rightarrow> 'b::comm_monoid_add"
  assumes "mset xs = mset ys"
  shows "sum_list (map f xs) = sum_list (map f ys)"
  using assms by (metis mset_map sum_mset_sum_list)

lemma sum_list_filter_split:
  fixes f :: "'a \<Rightarrow> 'b::comm_monoid_add"
  shows "sum_list (map f (filter P xs)) + sum_list (map f (filter (\<lambda>x. \<not> P x) xs)) =
    sum_list (map f xs)"
  by (induction xs) (auto simp: ac_simps)

section \<open>The contract of qsort\<close>

lemma total_cmp_consistent: "total_cmp cmp \<Longrightarrow> consistent_cmp (\<lambda>i j. cmp (f i) (f j)) n"
  unfolding total_cmp_def consistent_cmp_def by blast

locale pg_qsort =
  fixes qp :: qperm
  assumes qp_perm: "consistent_cmp cmp n \<Longrightarrow> mset (qp cmp n) = mset [0..<n]"
    and qp_sorted: "consistent_cmp cmp n \<Longrightarrow> sorted_wrt (\<lambda>i j. cmp i j \<le> 0) (qp cmp n)"
begin

lemma qp_set: "consistent_cmp cmp n \<Longrightarrow> set (qp cmp n) = {0..<n}"
  using qp_perm [of cmp n] by (metis atLeastLessThan_upt set_mset_mset)

lemma mset_qsort:
  assumes "total_cmp cmp"
  shows "mset (qsort qp cmp xs) = mset xs"
proof -
  have "mset (qsort qp cmp xs) = image_mset ((!) xs) (mset [0..<length xs])"
    using qp_perm [OF total_cmp_consistent [OF assms]] by (simp add: qsort_def)
  also have "\<dots> = mset (map ((!) xs) [0..<length xs])"
    by (simp only: mset_map)
  also have "\<dots> = mset xs"
    by (simp only: map_nth)
  finally show ?thesis .
qed

lemma set_qsort: "total_cmp cmp \<Longrightarrow> set (qsort qp cmp xs) = set xs"
  using mset_qsort by (metis set_mset_mset)

lemma length_qsort: "total_cmp cmp \<Longrightarrow> length (qsort qp cmp xs) = length xs"
  using mset_qsort by (metis size_mset)

lemma sorted_qsort:
  assumes "total_cmp cmp"
  shows "sorted_wrt (\<lambda>x y. cmp x y \<le> 0) (qsort qp cmp xs)"
  using qp_sorted [OF total_cmp_consistent [OF assms]] by (simp add: qsort_def sorted_wrt_map)

end

lemma mset_insert_pos [simp]: "mset (insert_pos cmp i js) = add_mset i (mset js)"
  by (induction js) auto

lemma set_insert_pos [simp]: "set (insert_pos cmp i js) = insert i (set js)"
  by (induction js) auto

lemma sorted_insert_pos:
  assumes "consistent_cmp cmp n" and "i < n" and "set js \<subseteq> {..<n}"
    and "sorted_wrt (\<lambda>i j. cmp i j \<le> 0) js"
  shows "sorted_wrt (\<lambda>i j. cmp i j \<le> 0) (insert_pos cmp i js)"
  using assms
proof (induction js)
  case (Cons j js)
  have tot: "cmp i j \<le> 0 \<or> cmp j i \<le> 0"
    using Cons.prems unfolding consistent_cmp_def by auto
  have trans: "cmp i j \<le> 0 \<Longrightarrow> cmp j k \<le> 0 \<Longrightarrow> cmp i k \<le> 0" if "k \<in> set js" for k
    using Cons.prems that unfolding consistent_cmp_def by (metis insert_subset lessThan_iff list.simps(15) subset_iff)
  show ?case
    using Cons tot trans by auto
qed simp

lemma mset_insertion_qp: "mset (insertion_qp cmp n) = mset [0..<n]"
proof -
  have "mset (foldr (insert_pos cmp) js []) = mset js" for js
    by (induction js) auto
  then show ?thesis by (simp add: insertion_qp_def)
qed

lemma sorted_insertion_qp:
  assumes "consistent_cmp cmp n"
  shows "sorted_wrt (\<lambda>i j. cmp i j \<le> 0) (insertion_qp cmp n)"
proof -
  have "sorted_wrt (\<lambda>i j. cmp i j \<le> 0) (foldr (insert_pos cmp) js []) \<and>
      set (foldr (insert_pos cmp) js []) = set js" if "set js \<subseteq> {..<n}" for js
    using that by (induction js) (auto intro!: sorted_insert_pos [OF assms])
  then show ?thesis by (simp add: insertion_qp_def subset_iff)
qed

interpretation insertion_sort: pg_qsort insertion_qp
  by unfold_locales (simp_all add: mset_insertion_qp sorted_insertion_qp)

end
