(* ===== verification/Shmem_Types.thy ===== *)
theory Shmem_Types
  imports Svs_Prelude
begin

text \<open>
  The shared-memory structures of \<open>vamanaworker.h\<close> and \<open>svs_memory.h\<close>: one control block per
  database in a fixed array, each with its reservation tables, request slots and queues.  Locks
  and latches are not represented: every operation of the library is one critical section of the
  code, so it is a function from states to states.  A pointer to an entry of a fixed array is
  its position in the array.
\<close>

section \<open>Constants\<close>

definition VAMANA_MAX_RELOAD_QUEUE :: nat where "VAMANA_MAX_RELOAD_QUEUE = 16"
definition VAMANA_MAX_SLOT_DROP_QUEUE :: nat where "VAMANA_MAX_SLOT_DROP_QUEUE = 16"
definition VAMANA_MAX_INDEXES :: nat where "VAMANA_MAX_INDEXES = 64"
definition SVS_MAX_PENDING_BUILDS :: nat where "SVS_MAX_PENDING_BUILDS = 8"
definition SVS_MAX_PENDING_INSERT_RESERVATIONS :: nat where
  "SVS_MAX_PENDING_INSERT_RESERVATIONS = 64"

datatype VamanaSlotStatus =
  VAMANA_SLOT_EMPTY | VAMANA_SLOT_PENDING | VAMANA_SLOT_PROCESSING | VAMANA_SLOT_DONE | VAMANA_SLOT_ERROR

datatype VamanaErrCategory =
  VAMANA_ERR_NONE | VAMANA_ERR_OOM | VAMANA_ERR_DATA | VAMANA_ERR_IO | VAMANA_ERR_INTERNAL
  | VAMANA_ERR_UNSUPPORTED

datatype SvsBuildRequestStatus = SVS_BUILD_REQUEST_PENDING | SVS_BUILD_REQUEST_GRANTED

section \<open>Memory reservations\<close>

datatype SvsMemReservationState =
  SVS_MEM_RESERVED | SVS_MEM_CONFIRMED | SVS_MEM_HANDOFF | SVS_MEM_RESIDENT | SVS_MEM_REBUILDING

record SvsMemReservation =
  mr_relid :: oid
  mr_state :: SvsMemReservationState
  mr_ownerPid :: pid
  mr_reservedAt :: timestamp
  mr_estimateBytes :: u64
  mr_measuredBytes :: u64
  mr_searchScratchBytesPerQuery :: u64
  mr_cachedSearchWindowSize :: int
  mr_cachedUseSearchHistory :: bool
  mr_buildPeakBytes :: u64
  mr_priorResidentBytes :: u64
  mr_capacityHeadroomVectors :: u64
  mr_reclaimableBytes :: u64
  mr_residentGeneration :: u32

text \<open>A zeroed record: state 0 is \<open>SVS_MEM_RESERVED\<close>.\<close>

definition zero_reservation :: SvsMemReservation where
  "zero_reservation =
     \<lparr>mr_relid = InvalidOid, mr_state = SVS_MEM_RESERVED, mr_ownerPid = 0, mr_reservedAt = 0,
      mr_estimateBytes = 0, mr_measuredBytes = 0, mr_searchScratchBytesPerQuery = 0,
      mr_cachedSearchWindowSize = 0, mr_cachedUseSearchHistory = False, mr_buildPeakBytes = 0,
      mr_priorResidentBytes = 0, mr_capacityHeadroomVectors = 0, mr_reclaimableBytes = 0,
      mr_residentGeneration = 0\<rparr>"

record SvsMemInsertReservation =
  ir_relid :: oid
  ir_ownerPid :: pid
  ir_reservedAt :: timestamp
  ir_deltaBytes :: u64
  ir_consumedHeadroom :: bool

definition zero_insert_reservation :: SvsMemInsertReservation where
  "zero_insert_reservation =
     \<lparr>ir_relid = InvalidOid, ir_ownerPid = 0, ir_reservedAt = 0, ir_deltaBytes = 0,
      ir_consumedHeadroom = False\<rparr>"

section \<open>Control blocks\<close>

datatype VamanaSlotKind =
  VAMANA_SLOTKIND_SEARCH | VAMANA_SLOTKIND_INSERT | VAMANA_SLOTKIND_DELETE | VAMANA_SLOTKIND_MAINTENANCE
  | VAMANA_SLOTKIND_LOAD | VAMANA_SLOTKIND_WARMUP

datatype VamanaMaintenanceOp = VAMANA_MAINTENANCE_CONSOLIDATE | VAMANA_MAINTENANCE_COMPACT

record VamanaLoadParams =
  lp_dimensions :: int
  lp_graph_degree :: int
  lp_alpha :: int
  lp_search_window_size :: int
  lp_build_window_size :: int
  lp_compression_type :: int
  lp_compression_primary :: int
  lp_compression_secondary :: int
  lp_leanvec_dims :: int
  lp_distance_type :: int
  lp_data_type :: int
  lp_numVectors :: int
  lp_tidMappingCapacity :: int
  lp_nextExternalId :: u64
  lp_numDeleted :: int
  lp_heapRelid :: oid
  lp_vectorAttNum :: int

text \<open>
  The input buffer of a slot holds the query or inserted vector (the bit patterns of its floats),
  the external ids to delete, or the parameters of a load, depending on the kind of the request.
  It and the two result buffers lie in arrays behind the slots; here they are fields of their slot.
\<close>

datatype slot_input = Vector "u32 list" | Delete_ids "u64 list" | Load_params VamanaLoadParams

record VamanaWorkerSlot =
  sl_status :: VamanaSlotStatus
  sl_indexRelid :: oid
  sl_dimensions :: int
  sl_k :: int
  sl_searchWindowSize :: int
  sl_numResults :: int
  sl_errorMessage :: string
  sl_errorCategory :: VamanaErrCategory
  sl_slotKind :: VamanaSlotKind
  sl_maintenanceOp :: VamanaMaintenanceOp
  sl_writeHeapTid :: ItemPointerData
  sl_writeExternalId :: u64
  sl_writeSlotCreated :: bool
  sl_writeGrowthBytes :: u64
  sl_writeResidentGeneration :: u32
  sl_queryVec :: slot_input
  sl_results :: "ItemPointerData list"
  sl_distances :: "u32 list"

definition zero_slot :: VamanaWorkerSlot where
  "zero_slot = \<lparr>sl_status = VAMANA_SLOT_EMPTY, sl_indexRelid = InvalidOid, sl_dimensions = 0, sl_k = 0,
     sl_searchWindowSize = 0, sl_numResults = 0, sl_errorMessage = '''', sl_errorCategory = VAMANA_ERR_NONE,
     sl_slotKind = VAMANA_SLOTKIND_SEARCH, sl_maintenanceOp = VAMANA_MAINTENANCE_CONSOLIDATE,
     sl_writeHeapTid = \<lparr>ip_blkid_hi = 0, ip_blkid_lo = 0, ip_posid = 0\<rparr>, sl_writeExternalId = 0,
     sl_writeSlotCreated = False, sl_writeGrowthBytes = 0, sl_writeResidentGeneration = 0,
     sl_queryVec = Vector [], sl_results = [], sl_distances = []\<rparr>"

record SvsBuildRequest =
  bq_pid :: u32
  bq_status :: SvsBuildRequestStatus
  bq_requested :: int
  bq_granted :: int

definition zero_build_request :: SvsBuildRequest where
  "zero_build_request = \<lparr>bq_pid = 0, bq_status = SVS_BUILD_REQUEST_PENDING, bq_requested = 0,
     bq_granted = 0\<rparr>"

record VamanaLauncherBackoff =
  last_attempt_time :: timestamp
  consecutive_failures :: u32

text \<open>
  The arrays of one-field structs (\<open>reloadRequests\<close>, \<open>pendingSlotDrops\<close>, \<open>indexLocks\<close>) are lists
  of the OIDs they hold, 0 for a free position.
\<close>

record VamanaWorkerShmem =
  ws_dbOid :: oid
  ws_generation :: u32
  ws_workerPid :: pid
  ws_accepting :: bool
  ws_reloadRequests :: "oid list"
  ws_evict_all :: bool
  ws_pendingSlotDrops :: "oid list"
  ws_heartbeat_ts :: timestamp
  ws_dbEnabled :: bool
  ws_stopRequested :: bool
  ws_servicedRestartGeneration :: int
  ws_indexCount :: u32
  ws_desiredSearchThreads :: u32
  ws_grantedSearchThreads :: u32
  ws_reservedSearchThreads :: u32
  ws_registeredSearchSlots :: u32
  ws_buildRequests :: "SvsBuildRequest list"
  ws_backoff :: VamanaLauncherBackoff
  ws_indexLocks :: "oid list"
  ws_residencyBudget :: u64
  ws_residencyBytesCommitted :: u64
  ws_buildBytesCommitted :: u64
  ws_nextResidentGeneration :: u32
  ws_searchScratchBytesInFlight :: u64
  ws_reservations :: "SvsMemReservation list"
  ws_insertReservations :: "SvsMemInsertReservation list"
  ws_residencyMemoryMbOverride :: int
  ws_searchWorkMemMbOverride :: int
  ws_slots :: "VamanaWorkerSlot list"

record VamanaWorkerShmemHeader =
  hd_numActive :: int
  hd_initialScanDone :: bool
  hd_launcherPid :: pid
  hd_totalResidencyCommittedGlobal :: u64
  hd_totalBuildCommittedGlobal :: u64
  hd_slots :: "VamanaWorkerShmem list"

text \<open>Overwriting the control block at a position of the array.\<close>

definition put_entry :: "VamanaWorkerShmemHeader \<Rightarrow> nat \<Rightarrow> VamanaWorkerShmem \<Rightarrow> VamanaWorkerShmemHeader" where
  "put_entry h e entry = h\<lparr>hd_slots := (hd_slots h)[e := entry]\<rparr>"

lemma put_entry_simps [simp]:
  "hd_slots (put_entry h e entry) = (hd_slots h)[e := entry]"
  "hd_numActive (put_entry h e entry) = hd_numActive h"
  "hd_initialScanDone (put_entry h e entry) = hd_initialScanDone h"
  "hd_launcherPid (put_entry h e entry) = hd_launcherPid h"
  "hd_totalResidencyCommittedGlobal (put_entry h e entry) = hd_totalResidencyCommittedGlobal h"
  "hd_totalBuildCommittedGlobal (put_entry h e entry) = hd_totalBuildCommittedGlobal h"
  by (simp_all add: put_entry_def)

section \<open>Lookup\<close>

definition VamanaWorkerFindSlot :: "VamanaWorkerShmemHeader \<Rightarrow> oid \<Rightarrow> nat option" where
  "VamanaWorkerFindSlot h dbOid = find_index (\<lambda>entry. ws_dbOid entry = dbOid) (hd_slots h)"

text \<open>
  The header pointer is null when the library was not preloaded; here the header exists, and what
  is left of the lookup is the search under the shared lock.
\<close>

definition VamanaWorkerLookupSlot :: "VamanaWorkerShmemHeader \<Rightarrow> oid \<Rightarrow> nat option" where
  "VamanaWorkerLookupSlot h dbOid = VamanaWorkerFindSlot h dbOid"

definition VamanaWorkerLookupSlotGeneration ::
    "VamanaWorkerShmemHeader \<Rightarrow> oid \<Rightarrow> (nat \<times> u32) option" where
  "VamanaWorkerLookupSlotGeneration h dbOid =
     map_option (\<lambda>e. (e, ws_generation (hd_slots h ! e))) (VamanaWorkerFindSlot h dbOid)"

lemma VamanaWorkerFindSlot_SomeD:
  assumes "VamanaWorkerFindSlot h dbOid = Some e"
  shows "e < length (hd_slots h)" and "ws_dbOid (hd_slots h ! e) = dbOid"
  using find_index_SomeD [OF assms [unfolded VamanaWorkerFindSlot_def]] by simp_all

end
