(* ===== verification/Svs_Memory.thy ===== *)
theory Svs_Memory
  imports Complex_Main Shmem_Types
begin

text \<open>
  \<open>svs_memory.c\<close>: the accounting authority for build peaks, index residency and insert growth.
  Each API call runs under the database's \<open>memLock\<close> (and the header lock where it touches the
  global roll-ups), so each is one function on the header.  A call that raises an error returns
  the error together with the shared memory as the error leaves it, because shared memory is not
  rolled back.  Warnings do not change the state and are left out; that no subtraction ever
  underflows, which is what the warnings report, is proved in the theory of the invariant.
\<close>

section \<open>Configuration and process table\<close>

record SvsMemGucs =
  vamana_max_build_memory_mb :: int
  vamana_max_residency_memory_mb :: int
  vamana_default_residency_memory_mb :: int
  vamana_default_search_work_mem_mb :: int
  vamana_compact_threshold_pct :: int

text \<open>
  The calling process and the process table of the server: \<open>BackendPidGetProc\<close> and
  \<open>pgstat_get_beentry_by_proc_number\<close> are PostgreSQL's, so what they answer is part of the
  environment.
\<close>

record PgEnv =
  MyProcPid :: pid
  GetCurrentTimestamp :: timestamp
  BackendPidGetProc :: "pid \<Rightarrow> nat option"
  beentry_start_timestamp :: "nat \<Rightarrow> timestamp option"

definition BuildMemoryCeilingBytes :: "SvsMemGucs \<Rightarrow> u64" where
  "BuildMemoryCeilingBytes g = word_of_int (vamana_max_build_memory_mb g) * 1024 * 1024"

definition ResidencyMemoryCeilingBytes :: "SvsMemGucs \<Rightarrow> u64" where
  "ResidencyMemoryCeilingBytes g = word_of_int (vamana_max_residency_memory_mb g) * 1024 * 1024"

section \<open>Helpers\<close>

definition LookupEntryOrError :: "VamanaWorkerShmemHeader \<Rightarrow> oid \<Rightarrow> errcode + nat" where
  "LookupEntryOrError h dbOid =
     (case VamanaWorkerLookupSlot h dbOid of
        None \<Rightarrow> Inl ERRCODE_OBJECT_NOT_IN_PREREQUISITE_STATE
      | Some e \<Rightarrow> Inr e)"

text \<open>Only the wording of the error depends on the name of the database.\<close>

definition RequireAdmitted :: "VamanaWorkerShmem \<Rightarrow> errcode option" where
  "RequireAdmitted entry =
     (if ws_residencyBudget entry \<noteq> 0 then None else Some ERRCODE_OBJECT_NOT_IN_PREREQUISITE_STATE)"

definition FindReservation :: "VamanaWorkerShmem \<Rightarrow> oid \<Rightarrow> nat option" where
  "FindReservation entry relid = find_index (\<lambda>r. mr_relid r = relid) (ws_reservations entry)"

definition put_reservation :: "VamanaWorkerShmem \<Rightarrow> nat \<Rightarrow> SvsMemReservation \<Rightarrow> VamanaWorkerShmem" where
  "put_reservation entry i r = entry\<lparr>ws_reservations := (ws_reservations entry)[i := r]\<rparr>"

definition put_insert_reservation ::
    "VamanaWorkerShmem \<Rightarrow> nat \<Rightarrow> SvsMemInsertReservation \<Rightarrow> VamanaWorkerShmem" where
  "put_insert_reservation entry i r =
     entry\<lparr>ws_insertReservations := (ws_insertReservations entry)[i := r]\<rparr>"

text \<open>The two contexts of \<open>AllocateReservation\<close> choose between messages of one error code.\<close>

definition AllocateReservation :: "VamanaWorkerShmem \<Rightarrow> oid \<Rightarrow> errcode + nat \<times> VamanaWorkerShmem" where
  "AllocateReservation entry relid =
     (case FindReservation entry InvalidOid of
        None \<Rightarrow> Inl ERRCODE_PROGRAM_LIMIT_EXCEEDED
      | Some i \<Rightarrow> Inr (i, put_reservation entry i (zero_reservation\<lparr>mr_relid := relid\<rparr>)))"

definition FreeReservation :: "VamanaWorkerShmem \<Rightarrow> nat \<Rightarrow> VamanaWorkerShmem" where
  "FreeReservation entry i =
     put_reservation entry i ((ws_reservations entry ! i)\<lparr>mr_relid := InvalidOid\<rparr>)"

definition SumReclaimableBytes :: "VamanaWorkerShmem \<Rightarrow> u64" where
  "SumReclaimableBytes entry =
     sum_list (map mr_reclaimableBytes (filter (\<lambda>r. mr_relid r \<noteq> InvalidOid) (ws_reservations entry)))"

definition RestorePriorResidency :: "SvsMemReservation \<Rightarrow> SvsMemReservation" where
  "RestorePriorResidency r =
     r\<lparr>mr_measuredBytes := mr_priorResidentBytes r, mr_priorResidentBytes := 0,
       mr_ownerPid := 0, mr_buildPeakBytes := 0, mr_state := SVS_MEM_RESIDENT\<rparr>"

definition FindFreeInsertReservation :: "VamanaWorkerShmem \<Rightarrow> nat option" where
  "FindFreeInsertReservation entry =
     find_index (\<lambda>r. ir_relid r = InvalidOid) (ws_insertReservations entry)"

text \<open>The scan of \<open>FindOldestInsertReservation\<close>, carrying the oldest position seen so far.\<close>

fun oldest_insert_scan ::
    "SvsMemInsertReservation list \<Rightarrow> oid \<Rightarrow> nat list \<Rightarrow> nat option \<Rightarrow> nat option" where
  "oldest_insert_scan tab relid [] oldest = oldest"
| "oldest_insert_scan tab relid (i # is) oldest =
     (if ir_relid (tab ! i) \<noteq> relid then oldest_insert_scan tab relid is oldest
      else case oldest of
          None \<Rightarrow> oldest_insert_scan tab relid is (Some i)
        | Some j \<Rightarrow>
            if ir_reservedAt (tab ! i) < ir_reservedAt (tab ! j)
            then oldest_insert_scan tab relid is (Some i)
            else oldest_insert_scan tab relid is oldest)"

definition FindOldestInsertReservation :: "VamanaWorkerShmem \<Rightarrow> oid \<Rightarrow> nat option" where
  "FindOldestInsertReservation entry relid =
     oldest_insert_scan (ws_insertReservations entry) relid
       [0..<length (ws_insertReservations entry)] None"

definition FreeInsertReservation :: "VamanaWorkerShmem \<Rightarrow> nat \<Rightarrow> VamanaWorkerShmem" where
  "FreeInsertReservation entry i =
     put_insert_reservation entry i ((ws_insertReservations entry ! i)\<lparr>ir_relid := InvalidOid\<rparr>)"

definition FindInsertReservationByOwner :: "VamanaWorkerShmem \<Rightarrow> oid \<Rightarrow> pid \<Rightarrow> nat option" where
  "FindInsertReservationByOwner entry relid ownerPid =
     find_index (\<lambda>r. ir_relid r = relid \<and> ir_ownerPid r = ownerPid) (ws_insertReservations entry)"

definition SubtractFloored :: "u64 \<Rightarrow> u64 \<Rightarrow> u64" where
  "SubtractFloored committed amount = (if amount > committed then 0 else committed - amount)"

definition ReleaseOldestInsertReservation :: "VamanaWorkerShmem \<Rightarrow> oid \<Rightarrow> VamanaWorkerShmem" where
  "ReleaseOldestInsertReservation entry relid =
     (case FindOldestInsertReservation entry relid of
        None \<Rightarrow> entry
      | Some i \<Rightarrow>
          FreeInsertReservation
            (entry\<lparr>ws_residencyBytesCommitted :=
               SubtractFloored (ws_residencyBytesCommitted entry)
                 (ir_deltaBytes (ws_insertReservations entry ! i))\<rparr>) i)"

definition TryAddGlobalBuildCommitted ::
    "SvsMemGucs \<Rightarrow> VamanaWorkerShmemHeader \<Rightarrow> u64 \<Rightarrow> bool \<times> VamanaWorkerShmemHeader" where
  "TryAddGlobalBuildCommitted g h amount =
     (if hd_totalBuildCommittedGlobal h + amount \<le> BuildMemoryCeilingBytes g
      then (True, h\<lparr>hd_totalBuildCommittedGlobal := hd_totalBuildCommittedGlobal h + amount\<rparr>)
      else (False, h))"

definition SubtractGlobalBuildCommitted ::
    "VamanaWorkerShmemHeader \<Rightarrow> u64 \<Rightarrow> VamanaWorkerShmemHeader" where
  "SubtractGlobalBuildCommitted h amount =
     h\<lparr>hd_totalBuildCommittedGlobal := SubtractFloored (hd_totalBuildCommittedGlobal h) amount\<rparr>"

section \<open>Admission\<close>

definition SvsMemoryResidencyBudget :: "VamanaWorkerShmemHeader \<Rightarrow> oid \<Rightarrow> errcode + u64" where
  "SvsMemoryResidencyBudget h dbOid =
     (case LookupEntryOrError h dbOid of
        Inl err \<Rightarrow> Inl err
      | Inr e \<Rightarrow> (case RequireAdmitted (hd_slots h ! e) of
                     Some err \<Rightarrow> Inl err
                   | None \<Rightarrow> Inr (ws_residencyBudget (hd_slots h ! e))))"

definition SvsMemoryAdmitDatabase ::
    "SvsMemGucs \<Rightarrow> oid \<Rightarrow> u64 \<Rightarrow> u64 \<Rightarrow> VamanaWorkerShmemHeader
     \<Rightarrow> (errcode + unit) \<times> VamanaWorkerShmemHeader" where
  "SvsMemoryAdmitDatabase g dbOid residencyBudget durableCommittedFloor h =
     (case LookupEntryOrError h dbOid of
        Inl err \<Rightarrow> (Inl err, h)
      | Inr e \<Rightarrow>
          if residencyBudget = 0 then (Inl ERRCODE_INVALID_PARAMETER_VALUE, h)
          else
            let entry = hd_slots h ! e;
                realUsage = ws_residencyBytesCommitted entry + SumReclaimableBytes entry;
                committedFloor = max realUsage durableCommittedFloor
            in if residencyBudget < committedFloor then (Inl ERRCODE_OUT_OF_MEMORY, h)
               else
                 let projectedGlobalTotal =
                       SubtractFloored (hd_totalResidencyCommittedGlobal h) (ws_residencyBudget entry)
                       + residencyBudget
                 in if projectedGlobalTotal > ResidencyMemoryCeilingBytes g
                    then (Inl ERRCODE_OUT_OF_MEMORY, h)
                    else (Inr (),
                          put_entry (h\<lparr>hd_totalResidencyCommittedGlobal := projectedGlobalTotal\<rparr>) e
                            (entry\<lparr>ws_residencyBudget := residencyBudget\<rparr>)))"

definition SvsMemoryRestoreResidencyBudget ::
    "oid \<Rightarrow> u64 \<Rightarrow> VamanaWorkerShmemHeader \<Rightarrow> VamanaWorkerShmemHeader" where
  "SvsMemoryRestoreResidencyBudget dbOid priorBudget h =
     (case VamanaWorkerLookupSlot h dbOid of
        None \<Rightarrow> h
      | Some e \<Rightarrow>
          let entry = hd_slots h ! e;
              restoredBudget = max priorBudget
                (ws_residencyBytesCommitted entry + SumReclaimableBytes entry);
              projectedGlobalTotal =
                SubtractFloored (hd_totalResidencyCommittedGlobal h) (ws_residencyBudget entry)
          in put_entry
               (h\<lparr>hd_totalResidencyCommittedGlobal := projectedGlobalTotal + restoredBudget\<rparr>) e
               (entry\<lparr>ws_residencyBudget := restoredBudget\<rparr>))"

section \<open>The build gate and the build lifecycle\<close>

definition SvsMemoryReserveBuild ::
    "SvsMemGucs \<Rightarrow> PgEnv \<Rightarrow> oid \<Rightarrow> oid \<Rightarrow> u64 \<Rightarrow> u64 \<Rightarrow> VamanaWorkerShmemHeader
     \<Rightarrow> (errcode + unit) \<times> VamanaWorkerShmemHeader" where
  "SvsMemoryReserveBuild g env dbOid relid buildPeak residencyEstimate h =
     (case LookupEntryOrError h dbOid of
        Inl err \<Rightarrow> (Inl err, h)
      | Inr e \<Rightarrow>
          let entry = hd_slots h ! e in
          case RequireAdmitted entry of
            Some err \<Rightarrow> (Inl err, h)
          | None \<Rightarrow>
            let existing = FindReservation entry relid;
                isRebuild = (case existing of
                    None \<Rightarrow> False
                  | Some i \<Rightarrow> mr_state (ws_reservations entry ! i) = SVS_MEM_RESIDENT)
            in if existing \<noteq> None \<and> \<not> isRebuild
               then (Inl ERRCODE_OBJECT_NOT_IN_PREREQUISITE_STATE, h)
               else
                 let priorResidentBytes =
                       (if isRebuild then mr_measuredBytes (ws_reservations entry ! the existing) else 0);
                     residencyBaseline =
                       (if isRebuild
                        then SubtractFloored (ws_residencyBytesCommitted entry) priorResidentBytes
                        else ws_residencyBytesCommitted entry)
                 in if \<not> residencyBaseline + residencyEstimate \<le> ws_residencyBudget entry
                    then (Inl ERRCODE_OUT_OF_MEMORY, h)
                    else
                      case (if isRebuild then Inr (the existing, entry)
                            else AllocateReservation entry relid) of
                        Inl err \<Rightarrow> (Inl err, h)
                      | Inr (i, entry) \<Rightarrow>
                          let (fits, h') = TryAddGlobalBuildCommitted g h buildPeak in
                          if \<not> fits
                          then (Inl ERRCODE_OUT_OF_MEMORY,
                                put_entry h' e (if isRebuild then entry else FreeReservation entry i))
                          else
                            let r = ws_reservations entry ! i;
                                r' = r\<lparr>mr_ownerPid := MyProcPid env,
                                       mr_reservedAt := GetCurrentTimestamp env,
                                       mr_estimateBytes := residencyEstimate,
                                       mr_measuredBytes := 0,
                                       mr_buildPeakBytes := buildPeak,
                                       mr_priorResidentBytes := priorResidentBytes,
                                       mr_state := (if isRebuild then SVS_MEM_REBUILDING
                                                    else SVS_MEM_RESERVED)\<rparr>;
                                entry = entry\<lparr>
                                  ws_buildBytesCommitted := ws_buildBytesCommitted entry + buildPeak,
                                  ws_residencyBytesCommitted :=
                                    (if isRebuild then ws_residencyBytesCommitted entry
                                     else ws_residencyBytesCommitted entry + residencyEstimate)\<rparr>
                            in (Inr (), put_entry h' e (put_reservation entry i r')))"

text \<open>\<open>reltuples\<close> is a double, a rational number here; the cast to \<open>uint64\<close> truncates it.\<close>

definition SvsMemoryCheckEstimatedBuildSize :: "SvsMemGucs \<Rightarrow> rat \<Rightarrow> int \<Rightarrow> errcode option" where
  "SvsMemoryCheckEstimatedBuildSize g reltuples dimensions =
     (if reltuples \<le> 0 then None
      else
        let estimatedBytes = word_of_int \<lfloor>reltuples\<rfloor> * word_of_int dimensions * (4 :: u64)
        in if estimatedBytes > BuildMemoryCeilingBytes g then Some ERRCODE_OUT_OF_MEMORY else None)"

definition SvsMemoryCheckGrowthSize :: "SvsMemGucs \<Rightarrow> u64 \<Rightarrow> errcode option" where
  "SvsMemoryCheckGrowthSize g requestedBytes =
     (if requestedBytes > BuildMemoryCeilingBytes g then Some ERRCODE_OUT_OF_MEMORY else None)"

definition SvsMemoryConfirmBuild ::
    "oid \<Rightarrow> oid \<Rightarrow> u64 \<Rightarrow> u64 \<Rightarrow> VamanaWorkerShmemHeader
     \<Rightarrow> (errcode + bool) \<times> VamanaWorkerShmemHeader" where
  "SvsMemoryConfirmBuild dbOid relid buildPeak measuredResidencyBytes h =
     (case LookupEntryOrError h dbOid of
        Inl err \<Rightarrow> (Inl err, h)
      | Inr e \<Rightarrow>
          let entry = hd_slots h ! e in
          case FindReservation entry relid of
            None \<Rightarrow> (Inl ERRCODE_OBJECT_NOT_IN_PREREQUISITE_STATE, h)
          | Some i \<Rightarrow>
            let r = ws_reservations entry ! i in
            if mr_state r \<noteq> SVS_MEM_RESERVED \<and> mr_state r \<noteq> SVS_MEM_REBUILDING
            then (Inl ERRCODE_OBJECT_NOT_IN_PREREQUISITE_STATE, h)
            else
              let isRebuild = (mr_state r = SVS_MEM_REBUILDING);
                  entry = entry\<lparr>ws_buildBytesCommitted :=
                            SubtractFloored (ws_buildBytesCommitted entry) buildPeak\<rparr>;
                  h' = SubtractGlobalBuildCommitted h buildPeak;
                  r = r\<lparr>mr_buildPeakBytes := 0\<rparr>;
                  priorContribution =
                    (if isRebuild then mr_priorResidentBytes r else mr_estimateBytes r);
                  residencyWithoutPrior =
                    SubtractFloored (ws_residencyBytesCommitted entry) priorContribution;
                  fits = (residencyWithoutPrior + measuredResidencyBytes \<le> ws_residencyBudget entry)
              in if fits then
                   let generation = ws_nextResidentGeneration entry + 1 in
                   (Inr True, put_entry h' e (put_reservation
                      (entry\<lparr>ws_residencyBytesCommitted := residencyWithoutPrior + measuredResidencyBytes,
                             ws_nextResidentGeneration := generation\<rparr>) i
                      (r\<lparr>mr_state := SVS_MEM_CONFIRMED, mr_measuredBytes := measuredResidencyBytes,
                         mr_priorResidentBytes := 0, mr_reclaimableBytes := 0,
                         mr_residentGeneration := generation\<rparr>)))
                 else if isRebuild then
                   (Inr False, put_entry h' e (put_reservation entry i (RestorePriorResidency r)))
                 else
                   (Inr False, put_entry h' e (FreeReservation (put_reservation
                      (entry\<lparr>ws_residencyBytesCommitted := residencyWithoutPrior\<rparr>) i r) i)))"

definition SvsMemoryHandoffBuild ::
    "oid \<Rightarrow> oid \<Rightarrow> VamanaWorkerShmemHeader \<Rightarrow> (errcode + unit) \<times> VamanaWorkerShmemHeader" where
  "SvsMemoryHandoffBuild dbOid relid h =
     (case LookupEntryOrError h dbOid of
        Inl err \<Rightarrow> (Inl err, h)
      | Inr e \<Rightarrow>
          let entry = hd_slots h ! e in
          case FindReservation entry relid of
            None \<Rightarrow> (Inl ERRCODE_OBJECT_NOT_IN_PREREQUISITE_STATE, h)
          | Some i \<Rightarrow>
            let r = ws_reservations entry ! i in
            if mr_state r \<noteq> SVS_MEM_CONFIRMED
            then (Inl ERRCODE_OBJECT_NOT_IN_PREREQUISITE_STATE, h)
            else (Inr (), put_entry h e
                    (put_reservation entry i (r\<lparr>mr_state := SVS_MEM_HANDOFF\<rparr>))))"

text \<open>
  The release of an outstanding build peak, as \<open>SvsMemoryAbortBuild\<close>, \<open>SvsMemoryReconcileLoad\<close>,
  \<open>SvsMemoryAccountUnload\<close> and the reaper write it out: nothing when the peak is zero.
\<close>

definition release_peak ::
    "SvsMemReservation \<Rightarrow> VamanaWorkerShmem \<Rightarrow> VamanaWorkerShmem" where
  "release_peak r entry =
     (if mr_buildPeakBytes r > 0
      then entry\<lparr>ws_buildBytesCommitted :=
             SubtractFloored (ws_buildBytesCommitted entry) (mr_buildPeakBytes r)\<rparr>
      else entry)"

definition release_peak_global ::
    "SvsMemReservation \<Rightarrow> VamanaWorkerShmemHeader \<Rightarrow> VamanaWorkerShmemHeader" where
  "release_peak_global r h =
     (if mr_buildPeakBytes r > 0 then SubtractGlobalBuildCommitted h (mr_buildPeakBytes r) else h)"

definition SvsMemoryAbortBuild ::
    "oid \<Rightarrow> oid \<Rightarrow> VamanaWorkerShmemHeader \<Rightarrow> (errcode + unit) \<times> VamanaWorkerShmemHeader" where
  "SvsMemoryAbortBuild dbOid relid h =
     (case LookupEntryOrError h dbOid of
        Inl err \<Rightarrow> (Inl err, h)
      | Inr e \<Rightarrow>
          let entry = hd_slots h ! e in
          case FindReservation entry relid of
            None \<Rightarrow> (Inr (), h)
          | Some i \<Rightarrow>
            let r = ws_reservations entry ! i in
            if mr_state r = SVS_MEM_RESIDENT then (Inr (), h)
            else
              let entry = release_peak r entry;
                  h' = release_peak_global r h
              in if mr_state r = SVS_MEM_REBUILDING
                 then (Inr (), put_entry h' e (put_reservation entry i (RestorePriorResidency r)))
                 else
                   let residencyHeld = (if mr_state r = SVS_MEM_RESERVED then mr_estimateBytes r
                                        else mr_measuredBytes r)
                   in (Inr (), put_entry h' e (FreeReservation
                         (entry\<lparr>ws_residencyBytesCommitted :=
                            SubtractFloored (ws_residencyBytesCommitted entry) residencyHeld\<rparr>) i)))"

section \<open>Loads and unloads\<close>

definition SvsMemoryReconcileLoad ::
    "PgEnv \<Rightarrow> oid \<Rightarrow> oid \<Rightarrow> u64 \<Rightarrow> u64 \<Rightarrow> VamanaWorkerShmemHeader
     \<Rightarrow> (errcode + bool) \<times> VamanaWorkerShmemHeader" where
  "SvsMemoryReconcileLoad env dbOid relid measuredBytes capacityHeadroomVectors h =
     (case LookupEntryOrError h dbOid of
        Inl err \<Rightarrow> (Inl err, h)
      | Inr e \<Rightarrow>
          let entry = hd_slots h ! e in
          case RequireAdmitted entry of
            Some err \<Rightarrow> (Inl err, h)
          | None \<Rightarrow>
            let generation = ws_nextResidentGeneration entry + 1 in
            case FindReservation entry relid of
              Some i \<Rightarrow>
                let r = ws_reservations entry ! i;
                    priorContribution =
                      (if mr_state r = SVS_MEM_RESERVED then mr_estimateBytes r
                       else if mr_state r = SVS_MEM_REBUILDING then mr_priorResidentBytes r
                       else mr_measuredBytes r);
                    residencyWithoutPrior =
                      SubtractFloored (ws_residencyBytesCommitted entry) priorContribution
                in if residencyWithoutPrior + measuredBytes \<le> ws_residencyBudget entry then
                     let entry' = (if mr_state r = SVS_MEM_REBUILDING
                                   then release_peak r entry else entry);
                         h' = (if mr_state r = SVS_MEM_REBUILDING
                               then release_peak_global r h else h)
                     in (Inr True, put_entry h' e (put_reservation
                           (entry'\<lparr>ws_residencyBytesCommitted := residencyWithoutPrior + measuredBytes,
                                   ws_nextResidentGeneration := generation\<rparr>) i
                           (r\<lparr>mr_state := SVS_MEM_RESIDENT, mr_ownerPid := 0,
                              mr_measuredBytes := measuredBytes,
                              mr_capacityHeadroomVectors := capacityHeadroomVectors,
                              mr_priorResidentBytes := 0, mr_buildPeakBytes := 0,
                              mr_reclaimableBytes := 0, mr_residentGeneration := generation\<rparr>)))
                   else (Inr False, h)
            | None \<Rightarrow>
                if ws_residencyBytesCommitted entry + measuredBytes \<le> ws_residencyBudget entry then
                  case AllocateReservation entry relid of
                    Inl err \<Rightarrow> (Inl err, h)
                  | Inr (i, entry) \<Rightarrow>
                      (Inr True, put_entry h e (put_reservation
                         (entry\<lparr>ws_residencyBytesCommitted := ws_residencyBytesCommitted entry + measuredBytes,
                                ws_nextResidentGeneration := generation\<rparr>) i
                         ((ws_reservations entry ! i)\<lparr>mr_state := SVS_MEM_RESIDENT, mr_ownerPid := 0,
                            mr_reservedAt := GetCurrentTimestamp env,
                            mr_estimateBytes := measuredBytes, mr_measuredBytes := measuredBytes,
                            mr_capacityHeadroomVectors := capacityHeadroomVectors,
                            mr_residentGeneration := generation\<rparr>)))
                else (Inr False, h))"

definition SvsMemoryAccountUnload ::
    "oid \<Rightarrow> oid \<Rightarrow> VamanaWorkerShmemHeader \<Rightarrow> (errcode + unit) \<times> VamanaWorkerShmemHeader" where
  "SvsMemoryAccountUnload dbOid relid h =
     (case LookupEntryOrError h dbOid of
        Inl err \<Rightarrow> (Inl err, h)
      | Inr e \<Rightarrow>
          let entry = hd_slots h ! e in
          case FindReservation entry relid of
            None \<Rightarrow> (Inr (), h)
          | Some i \<Rightarrow>
            let r = ws_reservations entry ! i;
                residencyHeld = (if mr_state r = SVS_MEM_REBUILDING then mr_priorResidentBytes r
                                 else mr_measuredBytes r);
                entry' = (if mr_state r = SVS_MEM_REBUILDING then release_peak r entry else entry);
                h' = (if mr_state r = SVS_MEM_REBUILDING then release_peak_global r h else h)
            in (Inr (), put_entry h' e (FreeReservation
                  (entry'\<lparr>ws_residencyBytesCommitted :=
                     SubtractFloored (ws_residencyBytesCommitted entry') residencyHeld\<rparr>) i)))"

section \<open>Inserts into a resident index\<close>

definition SvsMemoryReserveInsert ::
    "PgEnv \<Rightarrow> oid \<Rightarrow> oid \<Rightarrow> u64 \<Rightarrow> VamanaWorkerShmemHeader
     \<Rightarrow> (errcode + bool) \<times> VamanaWorkerShmemHeader" where
  "SvsMemoryReserveInsert env dbOid relid deltaBytes h =
     (case LookupEntryOrError h dbOid of
        Inl err \<Rightarrow> (Inl err, h)
      | Inr e \<Rightarrow>
          let entry = hd_slots h ! e in
          case RequireAdmitted entry of
            Some err \<Rightarrow> (Inl err, h)
          | None \<Rightarrow>
            let resident = FindReservation entry relid;
                consumesHeadroom = (case resident of
                    None \<Rightarrow> False
                  | Some i \<Rightarrow> mr_capacityHeadroomVectors (ws_reservations entry ! i) > 0);
                chargeBytes = (if consumesHeadroom then 0 else deltaBytes)
            in if ws_residencyBytesCommitted entry + chargeBytes \<le> ws_residencyBudget entry then
                 case FindFreeInsertReservation entry of
                   None \<Rightarrow> (Inl ERRCODE_PROGRAM_LIMIT_EXCEEDED, h)
                 | Some k \<Rightarrow>
                   let entry = (put_insert_reservation entry k
                           \<lparr>ir_relid = relid, ir_ownerPid = MyProcPid env,
                            ir_reservedAt = GetCurrentTimestamp env, ir_deltaBytes = chargeBytes,
                            ir_consumedHeadroom = consumesHeadroom\<rparr>)
                         \<lparr>ws_residencyBytesCommitted := ws_residencyBytesCommitted entry + chargeBytes\<rparr>;
                       entry = (if consumesHeadroom
                         then put_reservation entry (the resident)
                                ((ws_reservations entry ! the resident)
                                   \<lparr>mr_capacityHeadroomVectors :=
                                      mr_capacityHeadroomVectors (ws_reservations entry ! the resident) - 1\<rparr>)
                         else entry)
                   in (Inr True, put_entry h e entry)
               else (Inr False, h))"

definition FindResidentReservationOrError :: "VamanaWorkerShmem \<Rightarrow> oid \<Rightarrow> errcode + nat" where
  "FindResidentReservationOrError entry relid =
     (case FindReservation entry relid of
        None \<Rightarrow> Inl ERRCODE_OBJECT_NOT_IN_PREREQUISITE_STATE
      | Some i \<Rightarrow> Inr i)"

text \<open>The result is the pair \<open>growthBytesOut\<close>, \<open>generationOut\<close>.\<close>

definition SvsMemoryReanchorInsert ::
    "oid \<Rightarrow> oid \<Rightarrow> u64 \<Rightarrow> VamanaWorkerShmemHeader
     \<Rightarrow> (errcode + u64 \<times> u32) \<times> VamanaWorkerShmemHeader" where
  "SvsMemoryReanchorInsert dbOid relid measuredBytes h =
     (case LookupEntryOrError h dbOid of
        Inl err \<Rightarrow> (Inl err, h)
      | Inr e \<Rightarrow>
          let entry = hd_slots h ! e in
          case FindResidentReservationOrError entry relid of
            Inl err \<Rightarrow> (Inl err, h)
          | Inr i \<Rightarrow>
            let r = ws_reservations entry ! i;
                oldRaw = mr_measuredBytes r + mr_reclaimableBytes r;
                growth = (if measuredBytes > oldRaw then measuredBytes - oldRaw else 0);
                reclaimable = (if measuredBytes < mr_reclaimableBytes r then measuredBytes
                               else mr_reclaimableBytes r);
                newNet = measuredBytes - reclaimable;
                entry = entry\<lparr>ws_residencyBytesCommitted :=
                          SubtractFloored (ws_residencyBytesCommitted entry) (mr_measuredBytes r)\<rparr>;
                entry = ReleaseOldestInsertReservation entry relid;
                entry = entry\<lparr>ws_residencyBytesCommitted := ws_residencyBytesCommitted entry + newNet\<rparr>
            in (Inr (growth, mr_residentGeneration r),
                put_entry h e (put_reservation entry i
                  (r\<lparr>mr_reclaimableBytes := reclaimable, mr_measuredBytes := newNet\<rparr>))))"

definition SvsMemoryReconcileResident ::
    "oid \<Rightarrow> oid \<Rightarrow> u64 \<Rightarrow> u64 option \<Rightarrow> VamanaWorkerShmemHeader
     \<Rightarrow> (errcode + unit) \<times> VamanaWorkerShmemHeader" where
  "SvsMemoryReconcileResident dbOid relid measuredBytes capacityHeadroomVectors h =
     (case LookupEntryOrError h dbOid of
        Inl err \<Rightarrow> (Inl err, h)
      | Inr e \<Rightarrow>
          let entry = hd_slots h ! e in
          case FindResidentReservationOrError entry relid of
            Inl err \<Rightarrow> (Inl err, h)
          | Inr i \<Rightarrow>
            let r = ws_reservations entry ! i in
            if mr_state r \<noteq> SVS_MEM_RESIDENT
            then (Inl ERRCODE_OBJECT_NOT_IN_PREREQUISITE_STATE, h)
            else
              let entry = entry\<lparr>ws_residencyBytesCommitted :=
                    SubtractFloored (ws_residencyBytesCommitted entry) (mr_measuredBytes r) + measuredBytes\<rparr>
              in (Inr (), put_entry h e (put_reservation entry i
                    (r\<lparr>mr_measuredBytes := measuredBytes,
                       mr_capacityHeadroomVectors :=
                         (case capacityHeadroomVectors of None \<Rightarrow> mr_capacityHeadroomVectors r | Some v \<Rightarrow> v),
                       mr_reclaimableBytes := 0\<rparr>))))"

definition SvsMemoryCloseInsertReservation ::
    "oid \<Rightarrow> oid \<Rightarrow> VamanaWorkerShmemHeader \<Rightarrow> (errcode + unit) \<times> VamanaWorkerShmemHeader" where
  "SvsMemoryCloseInsertReservation dbOid relid h =
     (case LookupEntryOrError h dbOid of
        Inl err \<Rightarrow> (Inl err, h)
      | Inr e \<Rightarrow> (Inr (), put_entry h e (ReleaseOldestInsertReservation (hd_slots h ! e) relid)))"

definition SvsMemoryAbortInsert ::
    "PgEnv \<Rightarrow> oid \<Rightarrow> oid \<Rightarrow> VamanaWorkerShmemHeader
     \<Rightarrow> (errcode + unit) \<times> VamanaWorkerShmemHeader" where
  "SvsMemoryAbortInsert env dbOid relid h =
     (case LookupEntryOrError h dbOid of
        Inl err \<Rightarrow> (Inl err, h)
      | Inr e \<Rightarrow>
          let entry = hd_slots h ! e in
          case FindInsertReservationByOwner entry relid (MyProcPid env) of
            None \<Rightarrow> (Inr (), h)
          | Some k \<Rightarrow>
            let ins = ws_insertReservations entry ! k;
                entry = entry\<lparr>ws_residencyBytesCommitted :=
                          SubtractFloored (ws_residencyBytesCommitted entry) (ir_deltaBytes ins)\<rparr>;
                entry = (if ir_consumedHeadroom ins then
                           (case FindReservation entry relid of
                              None \<Rightarrow> entry
                            | Some i \<Rightarrow> put_reservation entry i
                                ((ws_reservations entry ! i)\<lparr>mr_capacityHeadroomVectors :=
                                   mr_capacityHeadroomVectors (ws_reservations entry ! i) + 1\<rparr>))
                         else entry)
            in (Inr (), put_entry h e (FreeInsertReservation entry k)))"

definition SvsMemoryCreditAbortedInserts ::
    "SvsMemGucs \<Rightarrow> oid \<Rightarrow> oid \<Rightarrow> u32 \<Rightarrow> u64 \<Rightarrow> VamanaWorkerShmemHeader
     \<Rightarrow> bool \<times> VamanaWorkerShmemHeader" where
  "SvsMemoryCreditAbortedInserts g dbOid relid generation growthBytes h =
     (case VamanaWorkerLookupSlot h dbOid of
        None \<Rightarrow> (False, h)
      | Some e \<Rightarrow>
          let entry = hd_slots h ! e in
          case FindReservation entry relid of
            None \<Rightarrow> (False, h)
          | Some i \<Rightarrow>
            let r = ws_reservations entry ! i in
            if mr_state r = SVS_MEM_RESIDENT \<and> mr_residentGeneration r = generation \<and>
               vamana_compact_threshold_pct g < 100
            then
              let credit = min growthBytes (mr_measuredBytes r);
                  entry = put_reservation
                    (entry\<lparr>ws_residencyBytesCommitted :=
                       SubtractFloored (ws_residencyBytesCommitted entry) credit\<rparr>) i
                    (r\<lparr>mr_measuredBytes := SubtractFloored (mr_measuredBytes r) credit,
                       mr_reclaimableBytes := mr_reclaimableBytes r + credit\<rparr>);
                  cap = ws_residencyBudget entry * word_of_int (vamana_compact_threshold_pct g) div 100
              in (SumReclaimableBytes entry > cap, put_entry h e entry)
            else (False, h))"

section \<open>Reaping and reconciliation\<close>

definition OwnerPidIsDead :: "PgEnv \<Rightarrow> pid \<Rightarrow> timestamp \<Rightarrow> bool" where
  "OwnerPidIsDead env ownerPid reservedAt =
     (if ownerPid = 0 then False
      else case BackendPidGetProc env ownerPid of
          None \<Rightarrow> True
        | Some proc \<Rightarrow> (case beentry_start_timestamp env proc of
              None \<Rightarrow> False
            | Some start \<Rightarrow> start > reservedAt))"

text \<open>One iteration of each loop of \<open>ReapEntryReservations\<close>, on the control block and the header.\<close>

definition ReapReservationAt ::
    "PgEnv \<Rightarrow> nat \<Rightarrow> VamanaWorkerShmem \<times> VamanaWorkerShmemHeader
     \<Rightarrow> VamanaWorkerShmem \<times> VamanaWorkerShmemHeader" where
  "ReapReservationAt env i = (\<lambda>(entry, h).
     let r = ws_reservations entry ! i in
     if mr_relid r = InvalidOid then (entry, h)
     else if mr_state r \<noteq> SVS_MEM_RESERVED \<and> mr_state r \<noteq> SVS_MEM_REBUILDING then (entry, h)
     else if \<not> OwnerPidIsDead env (mr_ownerPid r) (mr_reservedAt r) then (entry, h)
     else
       let entry = release_peak r entry;
           h' = release_peak_global r h
       in if mr_state r = SVS_MEM_REBUILDING
          then (put_reservation entry i (RestorePriorResidency r), h')
          else (FreeReservation (entry\<lparr>ws_residencyBytesCommitted :=
                  SubtractFloored (ws_residencyBytesCommitted entry) (mr_estimateBytes r)\<rparr>) i, h'))"

definition ReapInsertAt :: "PgEnv \<Rightarrow> nat \<Rightarrow> VamanaWorkerShmem \<Rightarrow> VamanaWorkerShmem" where
  "ReapInsertAt env i entry =
     (let ins = ws_insertReservations entry ! i in
      if ir_relid ins = InvalidOid then entry
      else if \<not> OwnerPidIsDead env (ir_ownerPid ins) (ir_reservedAt ins) then entry
      else FreeInsertReservation (entry\<lparr>ws_residencyBytesCommitted :=
             SubtractFloored (ws_residencyBytesCommitted entry) (ir_deltaBytes ins)\<rparr>) i)"

definition ReapEntryReservations :: "PgEnv \<Rightarrow> nat \<Rightarrow> VamanaWorkerShmemHeader \<Rightarrow> VamanaWorkerShmemHeader" where
  "ReapEntryReservations env e h =
     (let (entry, h') = fold (ReapReservationAt env) [0..<VAMANA_MAX_INDEXES] (hd_slots h ! e, h);
          entry = fold (ReapInsertAt env) [0..<SVS_MAX_PENDING_INSERT_RESERVATIONS] entry
      in put_entry h' e entry)"

definition OidInArray :: "oid \<Rightarrow> oid list \<Rightarrow> bool" where
  "OidInArray relid array = (relid \<in> set array)"

definition DropResidentAt ::
    "oid list \<Rightarrow> nat \<Rightarrow> oid list \<times> VamanaWorkerShmem \<Rightarrow> oid list \<times> VamanaWorkerShmem" where
  "DropResidentAt liveRelids i = (\<lambda>(dropped, entry).
     let r = ws_reservations entry ! i in
     if mr_relid r = InvalidOid then (dropped, entry)
     else if mr_state r \<noteq> SVS_MEM_RESIDENT then (dropped, entry)
     else if OidInArray (mr_relid r) liveRelids then (dropped, entry)
     else (dropped @ [mr_relid r],
           FreeReservation (entry\<lparr>ws_residencyBytesCommitted :=
             SubtractFloored (ws_residencyBytesCommitted entry) (mr_measuredBytes r)\<rparr>) i))"

definition SvsMemoryReconcileResidentReservations ::
    "oid \<Rightarrow> oid list \<Rightarrow> VamanaWorkerShmemHeader
     \<Rightarrow> (errcode + oid list) \<times> VamanaWorkerShmemHeader" where
  "SvsMemoryReconcileResidentReservations dbOid liveRelids h =
     (case LookupEntryOrError h dbOid of
        Inl err \<Rightarrow> (Inl err, h)
      | Inr e \<Rightarrow>
          let (dropped, entry) =
                fold (DropResidentAt liveRelids) [0..<VAMANA_MAX_INDEXES] ([], hd_slots h ! e)
          in (Inr dropped, put_entry h e entry))"

definition SvsMemorySeedDurableResidency ::
    "PgEnv \<Rightarrow> oid \<Rightarrow> oid \<Rightarrow> u64 \<Rightarrow> VamanaWorkerShmemHeader
     \<Rightarrow> (errcode + unit) \<times> VamanaWorkerShmemHeader" where
  "SvsMemorySeedDurableResidency env dbOid relid durableBytes h =
     (case LookupEntryOrError h dbOid of
        Inl err \<Rightarrow> (Inl err, h)
      | Inr e \<Rightarrow>
          if FindReservation (hd_slots h ! e) relid \<noteq> None then (Inr (), h)
          else
            case SvsMemoryReconcileLoad env dbOid relid durableBytes 0 h of
              (Inl err, h') \<Rightarrow> (Inl err, h')
            | (Inr fits, h') \<Rightarrow> (Inr (), h'))"

text \<open>The databases with a slot are collected first, then processed one by one.\<close>

definition SvsMemoryReapDeadReservations ::
    "PgEnv \<Rightarrow> VamanaWorkerShmemHeader \<Rightarrow> VamanaWorkerShmemHeader" where
  "SvsMemoryReapDeadReservations env h =
     fold (\<lambda>dbOid h. case VamanaWorkerLookupSlot h dbOid of
                        None \<Rightarrow> h
                      | Some e \<Rightarrow> ReapEntryReservations env e h)
       (filter OidIsValid (map ws_dbOid (hd_slots h))) h"

section \<open>Statistics and search scratch\<close>

record SvsMemoryStats =
  st_residencyBudget :: u64
  st_residencyBytesCommitted :: u64
  st_buildBytesCommitted :: u64
  st_residencyBytesReclaimable :: u64

definition SvsMemoryReadStats :: "VamanaWorkerShmemHeader \<Rightarrow> oid \<Rightarrow> SvsMemoryStats option" where
  "SvsMemoryReadStats h dbOid =
     (case VamanaWorkerLookupSlot h dbOid of
        None \<Rightarrow> None
      | Some e \<Rightarrow>
          let entry = hd_slots h ! e in
          if ws_residencyBudget entry = 0 then None
          else Some \<lparr>st_residencyBudget = ws_residencyBudget entry,
                     st_residencyBytesCommitted = ws_residencyBytesCommitted entry,
                     st_buildBytesCommitted = ws_buildBytesCommitted entry,
                     st_residencyBytesReclaimable = SumReclaimableBytes entry\<rparr>)"

definition SvsMemorySearchScratchBytesPerQuery :: "VamanaWorkerShmemHeader \<Rightarrow> oid \<Rightarrow> oid \<Rightarrow> u64" where
  "SvsMemorySearchScratchBytesPerQuery h dbOid relid =
     (case VamanaWorkerLookupSlot h dbOid of
        None \<Rightarrow> 0
      | Some e \<Rightarrow> (case FindReservation (hd_slots h ! e) relid of
            None \<Rightarrow> 0
          | Some i \<Rightarrow> mr_searchScratchBytesPerQuery (ws_reservations (hd_slots h ! e) ! i)))"

definition SvsMemoryRecheckSearchScratchOptions ::
    "oid \<Rightarrow> oid \<Rightarrow> int \<Rightarrow> bool \<Rightarrow> VamanaWorkerShmemHeader \<Rightarrow> VamanaWorkerShmemHeader" where
  "SvsMemoryRecheckSearchScratchOptions dbOid relid searchWindowSize useSearchHistory h =
     (case VamanaWorkerLookupSlot h dbOid of
        None \<Rightarrow> h
      | Some e \<Rightarrow>
          let entry = hd_slots h ! e in
          case FindReservation entry relid of
            None \<Rightarrow> h
          | Some i \<Rightarrow>
            let r = ws_reservations entry ! i
            in put_entry h e (put_reservation entry i
                 (r\<lparr>mr_searchScratchBytesPerQuery :=
                      (if mr_cachedSearchWindowSize r \<noteq> searchWindowSize \<or>
                          mr_cachedUseSearchHistory r \<noteq> useSearchHistory
                       then 0 else mr_searchScratchBytesPerQuery r),
                    mr_cachedSearchWindowSize := searchWindowSize,
                    mr_cachedUseSearchHistory := useSearchHistory\<rparr>)))"

definition SvsMemorySetSearchScratchBytesPerQuery ::
    "oid \<Rightarrow> oid \<Rightarrow> u64 \<Rightarrow> VamanaWorkerShmemHeader \<Rightarrow> VamanaWorkerShmemHeader" where
  "SvsMemorySetSearchScratchBytesPerQuery dbOid relid bytesPerQuery h =
     (case VamanaWorkerLookupSlot h dbOid of
        None \<Rightarrow> h
      | Some e \<Rightarrow>
          let entry = hd_slots h ! e in
          case FindReservation entry relid of
            None \<Rightarrow> h
          | Some i \<Rightarrow> put_entry h e (put_reservation entry i
              ((ws_reservations entry ! i)\<lparr>mr_searchScratchBytesPerQuery := bytesPerQuery\<rparr>)))"

definition SvsMemoryResolveResidencyBudget :: "SvsMemGucs \<Rightarrow> VamanaWorkerShmem \<Rightarrow> u64" where
  "SvsMemoryResolveResidencyBudget g entry =
     (let resolvedMb = (if ws_residencyMemoryMbOverride entry > 0
                        then ws_residencyMemoryMbOverride entry
                        else vamana_default_residency_memory_mb g)
      in word_of_int resolvedMb * 1024 * 1024)"

definition SvsMemoryResolveSearchWorkMem :: "SvsMemGucs \<Rightarrow> VamanaWorkerShmem \<Rightarrow> u64" where
  "SvsMemoryResolveSearchWorkMem g entry =
     (let resolvedMb = (if ws_searchWorkMemMbOverride entry > 0
                        then ws_searchWorkMemMbOverride entry
                        else vamana_default_search_work_mem_mb g)
      in word_of_int resolvedMb * 1024 * 1024)"

text \<open>
  The compare-and-swap loops.  Other processes change the counter between attempts: the list
  holds the value each attempt finds in the counter, and the loop ends with the value it writes,
  or without one when the request does not fit.  \<open>None\<close>: it is still retrying.
\<close>

fun reserve_scratch_loop :: "u64 \<Rightarrow> u64 \<Rightarrow> u64 \<Rightarrow> u64 list \<Rightarrow> u64 option option" where
  "reserve_scratch_loop budget batchBytes current [] =
     (if current + batchBytes > budget then Some None else None)"
| "reserve_scratch_loop budget batchBytes current (live # lives) =
     (if current + batchBytes > budget then Some None
      else if live = current then Some (Some (current + batchBytes))
      else reserve_scratch_loop budget batchBytes live lives)"

fun release_scratch_loop :: "u64 \<Rightarrow> u64 \<Rightarrow> u64 list \<Rightarrow> u64 option" where
  "release_scratch_loop batchBytes before [] = None"
| "release_scratch_loop batchBytes before (live # lives) =
     (if live = before then Some (if batchBytes > before then 0 else before - batchBytes)
      else release_scratch_loop batchBytes live lives)"

text \<open>Without interference the first attempt decides.\<close>

definition SvsMemoryReserveSearchScratch ::
    "SvsMemGucs \<Rightarrow> oid \<Rightarrow> u64 \<Rightarrow> VamanaWorkerShmemHeader
     \<Rightarrow> (errcode + bool) \<times> VamanaWorkerShmemHeader" where
  "SvsMemoryReserveSearchScratch g dbOid batchBytes h =
     (case LookupEntryOrError h dbOid of
        Inl err \<Rightarrow> (Inl err, h)
      | Inr e \<Rightarrow>
          let entry = hd_slots h ! e;
              current = ws_searchScratchBytesInFlight entry
          in case reserve_scratch_loop (SvsMemoryResolveSearchWorkMem g entry) batchBytes current [current] of
               Some (Some v) \<Rightarrow> (Inr True, put_entry h e (entry\<lparr>ws_searchScratchBytesInFlight := v\<rparr>))
             | _ \<Rightarrow> (Inr False, h))"

definition SvsMemoryReleaseSearchScratch ::
    "oid \<Rightarrow> u64 \<Rightarrow> VamanaWorkerShmemHeader \<Rightarrow> (errcode + unit) \<times> VamanaWorkerShmemHeader" where
  "SvsMemoryReleaseSearchScratch dbOid batchBytes h =
     (case LookupEntryOrError h dbOid of
        Inl err \<Rightarrow> (Inl err, h)
      | Inr e \<Rightarrow>
          let entry = hd_slots h ! e;
              before = ws_searchScratchBytesInFlight entry
          in case release_scratch_loop batchBytes before [before] of
               Some v \<Rightarrow> (Inr (), put_entry h e (entry\<lparr>ws_searchScratchBytesInFlight := v\<rparr>))
             | None \<Rightarrow> (Inr (), h))"

definition SvsMemoryResetDatabaseAccounting ::
    "VamanaWorkerShmem \<times> VamanaWorkerShmemHeader \<Rightarrow> VamanaWorkerShmem \<times> VamanaWorkerShmemHeader" where
  "SvsMemoryResetDatabaseAccounting = (\<lambda>(entry, h).
     (entry\<lparr>ws_residencyBudget := 0, ws_residencyBytesCommitted := 0, ws_buildBytesCommitted := 0,
            ws_searchScratchBytesInFlight := 0,
            ws_reservations := map (\<lambda>r. r\<lparr>mr_relid := InvalidOid\<rparr>) (ws_reservations entry),
            ws_insertReservations :=
              map (\<lambda>r. r\<lparr>ir_relid := InvalidOid\<rparr>) (ws_insertReservations entry)\<rparr>,
      h\<lparr>hd_totalBuildCommittedGlobal :=
          SubtractFloored (hd_totalBuildCommittedGlobal h) (ws_buildBytesCommitted entry),
        hd_totalResidencyCommittedGlobal :=
          SubtractFloored (hd_totalResidencyCommittedGlobal h) (ws_residencyBudget entry)\<rparr>))"

end
