(* ===== verification/Memory_Accounting.thy ===== *)
theory Memory_Accounting
  imports Svs_Memory
begin

text \<open>
  The accounting invariant of \<open>svs_memory.c\<close>: the counters of a database equal what its live
  reservations hold, and the roll-ups of the header equal the sums over the databases.  The
  invariant carries a slack per database and counter, zero for exact accounting; a positive
  slack is a leak, bytes a counter keeps for reservations that are gone.
\<close>

section \<open>What a reservation holds\<close>

definition contribution :: "SvsMemReservation \<Rightarrow> u64" where
  "contribution r =
     (case mr_state r of
        SVS_MEM_RESERVED \<Rightarrow> mr_estimateBytes r
      | SVS_MEM_REBUILDING \<Rightarrow> mr_priorResidentBytes r
      | _ \<Rightarrow> mr_measuredBytes r)"

definition held :: "SvsMemReservation \<Rightarrow> nat" where
  "held r = (if mr_relid r = InvalidOid then 0 else unat (contribution r))"

definition peak :: "SvsMemReservation \<Rightarrow> nat" where
  "peak r = (if mr_relid r = InvalidOid then 0 else unat (mr_buildPeakBytes r))"

definition pending :: "SvsMemInsertReservation \<Rightarrow> nat" where
  "pending r = (if ir_relid r = InvalidOid then 0 else unat (ir_deltaBytes r))"

definition residency_held :: "VamanaWorkerShmem \<Rightarrow> nat" where
  "residency_held entry = sum_list (map held (ws_reservations entry)) +
     sum_list (map pending (ws_insertReservations entry))"

definition peaks_held :: "VamanaWorkerShmem \<Rightarrow> nat" where
  "peaks_held entry = sum_list (map peak (ws_reservations entry))"

text \<open>A build peak is outstanding only while the build runs.\<close>

definition peak_settled :: "SvsMemReservation \<Rightarrow> bool" where
  "peak_settled r \<longleftrightarrow> mr_relid r = InvalidOid \<or> mr_state r = SVS_MEM_RESERVED \<or>
     mr_state r = SVS_MEM_REBUILDING \<or> mr_buildPeakBytes r = 0"

definition entry_acct :: "nat \<Rightarrow> nat \<Rightarrow> VamanaWorkerShmem \<Rightarrow> bool" where
  "entry_acct k b entry \<longleftrightarrow>
     length (ws_reservations entry) = VAMANA_MAX_INDEXES \<and>
     length (ws_insertReservations entry) = SVS_MAX_PENDING_INSERT_RESERVATIONS \<and>
     distinct (filter OidIsValid (map mr_relid (ws_reservations entry))) \<and>
     list_all peak_settled (ws_reservations entry) \<and>
     unat (ws_residencyBytesCommitted entry) = residency_held entry + k \<and>
     unat (ws_buildBytesCommitted entry) = peaks_held entry + b"

definition rollups_ok :: "VamanaWorkerShmemHeader \<Rightarrow> bool" where
  "rollups_ok h \<longleftrightarrow>
     unat (hd_totalBuildCommittedGlobal h) =
       sum_list (map (\<lambda>entry. unat (ws_buildBytesCommitted entry)) (hd_slots h)) \<and>
     unat (hd_totalResidencyCommittedGlobal h) =
       sum_list (map (\<lambda>entry. unat (ws_residencyBudget entry)) (hd_slots h))"

definition mem_acct :: "(nat \<Rightarrow> nat) \<Rightarrow> (nat \<Rightarrow> nat) \<Rightarrow> VamanaWorkerShmemHeader \<Rightarrow> bool" where
  "mem_acct K B h \<longleftrightarrow> rollups_ok h \<and>
     (\<forall>e < length (hd_slots h). entry_acct (K e) (B e) (hd_slots h ! e))"

text \<open>Exact accounting, and accounting that may leak but never understates.\<close>

definition mem_exact :: "VamanaWorkerShmemHeader \<Rightarrow> bool" where
  "mem_exact h \<longleftrightarrow> rollups_ok h \<and> list_all (entry_acct 0 0) (hd_slots h)"

definition mem_never_understates :: "VamanaWorkerShmemHeader \<Rightarrow> bool" where
  "mem_never_understates h \<longleftrightarrow> (\<exists>K B. mem_acct K B h)"

lemma mem_exact_acct: "mem_exact h \<longleftrightarrow> mem_acct (\<lambda>_. 0) (\<lambda>_. 0) h"
  by (auto simp: mem_exact_def mem_acct_def list_all_length)

section \<open>Updates of one position\<close>

lemma distinct_filter_update:
  assumes "distinct (filter P (map f xs))" and "i < length xs"
    and "\<not> P (f v) \<or> f v = f (xs ! i) \<or> (\<forall>x \<in> set xs. f x \<noteq> f v)"
  shows "distinct (filter P (map f (xs[i := v])))"
proof -
  define a b where "a = take i xs" and "b = drop (Suc i) xs"
  have xs: "xs = a @ xs ! i # b" and upd: "xs[i := v] = a @ v # b"
    using assms(2) by (simp_all add: a_def b_def id_take_nth_drop [symmetric] upd_conv_take_nth_drop)
  define A B where "A = filter P (map f a)" and "B = filter P (map f b)"
  have split: "filter P (map f (a @ y # b)) = A @ (if P (f y) then [f y] else []) @ B" for y
    by (simp add: A_def B_def)
  have d: "distinct (A @ (if P (f (xs ! i)) then [f (xs ! i)] else []) @ B)"
    using assms(1) unfolding split [symmetric] xs [symmetric] .
  then have ab: "distinct (A @ B)" by (auto split: if_split_asm)
  have sub: "set A \<subseteq> f ` set xs" "set B \<subseteq> f ` set xs"
    using set_take_subset [of i xs] set_drop_subset [of "Suc i" xs]
    by (auto simp: a_def b_def A_def B_def)
  consider "\<not> P (f v)" | "P (f v)" "f v = f (xs ! i)" | "P (f v)" "f v \<notin> f ` set xs"
    using assms(3) by fastforce
  then have "distinct (A @ (if P (f v) then [f v] else []) @ B)"
  proof cases
    case 3
    with sub have "f v \<notin> set A" "f v \<notin> set B" by (meson subsetD)+
    with 3(1) ab show ?thesis by simp
  qed (use d ab in simp_all)
  then show ?thesis unfolding upd split .
qed

lemma SubtractFloored_le: "amount \<le> committed \<Longrightarrow> SubtractFloored committed amount = committed - amount"
  by (simp add: SubtractFloored_def leD)

lemma unat_SubtractFloored:
  "amount \<le> committed \<Longrightarrow> unat (SubtractFloored committed amount) = unat committed - unat amount"
  by (simp add: SubtractFloored_le unat_sub_le)

lemma held_le_committed:
  assumes "entry_acct k b entry" and "i < length (ws_reservations entry)"
  shows "held (ws_reservations entry ! i) \<le> unat (ws_residencyBytesCommitted entry)"
    and "peak (ws_reservations entry ! i) \<le> unat (ws_buildBytesCommitted entry)"
  using assms sum_list_map_update_nat(2) [of i "ws_reservations entry" held]
    sum_list_map_update_nat(2) [of i "ws_reservations entry" peak]
  by (auto simp: entry_acct_def residency_held_def peaks_held_def)

lemma pending_le_committed:
  assumes "entry_acct k b entry" and "i < length (ws_insertReservations entry)"
  shows "pending (ws_insertReservations entry ! i) \<le> unat (ws_residencyBytesCommitted entry)"
  using assms sum_list_map_update_nat(2) [of i "ws_insertReservations entry" pending]
  by (auto simp: entry_acct_def residency_held_def)

lemma entry_acct_reservation:
  assumes "entry_acct k b entry" and i: "i < length (ws_reservations entry)"
    and "ws_reservations entry' = (ws_reservations entry)[i := r']"
    and "ws_insertReservations entry' = ws_insertReservations entry"
    and "unat (ws_residencyBytesCommitted entry') + held (ws_reservations entry ! i) + k =
      unat (ws_residencyBytesCommitted entry) + held r' + k'"
    and "unat (ws_buildBytesCommitted entry') + peak (ws_reservations entry ! i) + b =
      unat (ws_buildBytesCommitted entry) + peak r' + b'"
    and "mr_relid r' = InvalidOid \<or> mr_relid r' = mr_relid (ws_reservations entry ! i) \<or>
      (\<forall>r \<in> set (ws_reservations entry). mr_relid r \<noteq> mr_relid r')"
    and "peak_settled r'"
  shows "entry_acct k' b' entry'"
proof -
  have "list_all peak_settled ((ws_reservations entry)[i := r'])"
    using assms(1,8) i by (simp add: entry_acct_def list_all_length nth_list_update)
  moreover have "distinct (filter OidIsValid (map mr_relid ((ws_reservations entry)[i := r'])))"
    using assms(1,7) i by (intro distinct_filter_update) (auto simp: entry_acct_def)
  ultimately show ?thesis
    using assms(1,3-6) sum_list_map_update [OF i, of held r'] sum_list_map_update [OF i, of peak r']
    by (simp add: entry_acct_def residency_held_def peaks_held_def)
qed

text \<open>The same with the new record read off the new control block.\<close>

lemma entry_acct_at:
  assumes "entry_acct k b entry" and "i < length (ws_reservations entry)"
    and "ws_reservations entry' = (ws_reservations entry)[i := ws_reservations entry' ! i]"
    and "ws_insertReservations entry' = ws_insertReservations entry"
    and "unat (ws_residencyBytesCommitted entry') + held (ws_reservations entry ! i) =
      unat (ws_residencyBytesCommitted entry) + held (ws_reservations entry' ! i)"
    and "unat (ws_buildBytesCommitted entry') + peak (ws_reservations entry ! i) =
      unat (ws_buildBytesCommitted entry) + peak (ws_reservations entry' ! i)"
    and "mr_relid (ws_reservations entry' ! i) = InvalidOid \<or>
      mr_relid (ws_reservations entry' ! i) = mr_relid (ws_reservations entry ! i) \<or>
      (\<forall>r \<in> set (ws_reservations entry). mr_relid r \<noteq> mr_relid (ws_reservations entry' ! i))"
    and "peak_settled (ws_reservations entry' ! i)"
  shows "entry_acct k b entry'"
  by (rule entry_acct_reservation [OF assms(1-4)]) (use assms in simp_all)

lemma entry_acct_insert:
  assumes "entry_acct k b entry" and i: "i < length (ws_insertReservations entry)"
    and "ws_insertReservations entry' =
      (ws_insertReservations entry)[i := ws_insertReservations entry' ! i]"
    and "ws_reservations entry' = ws_reservations entry"
    and "unat (ws_residencyBytesCommitted entry') + pending (ws_insertReservations entry ! i) =
      unat (ws_residencyBytesCommitted entry) + pending (ws_insertReservations entry' ! i)"
    and "ws_buildBytesCommitted entry' = ws_buildBytesCommitted entry"
  shows "entry_acct k b entry'"
proof -
  have "length (ws_insertReservations entry') = length (ws_insertReservations entry)"
    using arg_cong [OF assms(3), of length] by simp
  with assms(1,4-6) show ?thesis
    using sum_list_map_update [OF i, of pending "ws_insertReservations entry' ! i", folded assms(3)]
    by (simp add: entry_acct_def residency_held_def peaks_held_def)
qed

text \<open>Fields the accounting does not read.\<close>

lemma entry_acct_cong:
  assumes "entry_acct k b entry" and "ws_insertReservations entry' = ws_insertReservations entry"
    and "ws_reservations entry' = ws_reservations entry"
    and "ws_residencyBytesCommitted entry' = ws_residencyBytesCommitted entry"
    and "ws_buildBytesCommitted entry' = ws_buildBytesCommitted entry"
  shows "entry_acct k b entry'"
  using assms by (simp add: entry_acct_def residency_held_def peaks_held_def)

lemma mem_acct_put:
  assumes "mem_acct K B h" and e: "e < length (hd_slots h)"
    and "hd_slots h' = (hd_slots h)[e := entry']"
    and "entry_acct (K' e) (B' e) entry'"
    and "\<And>j. j \<noteq> e \<Longrightarrow> K' j = K j \<and> B' j = B j"
    and "unat (hd_totalBuildCommittedGlobal h') + unat (ws_buildBytesCommitted (hd_slots h ! e)) =
      unat (hd_totalBuildCommittedGlobal h) + unat (ws_buildBytesCommitted entry')"
    and "unat (hd_totalResidencyCommittedGlobal h') + unat (ws_residencyBudget (hd_slots h ! e)) =
      unat (hd_totalResidencyCommittedGlobal h) + unat (ws_residencyBudget entry')"
  shows "mem_acct K' B' h'"
proof -
  have "rollups_ok h'"
    using assms(1,3,6,7) sum_list_map_update [OF e, of "\<lambda>entry. unat (ws_buildBytesCommitted entry)" entry']
      sum_list_map_update [OF e, of "\<lambda>entry. unat (ws_residencyBudget entry)" entry']
    by (simp add: mem_acct_def rollups_ok_def)
  moreover have "entry_acct (K' j) (B' j) (hd_slots h' ! j)" if "j < length (hd_slots h')" for j
    using that assms(1,3,4,5) e by (cases "j = e") (simp_all add: mem_acct_def)
  ultimately show ?thesis by (simp add: mem_acct_def)
qed

lemma mem_acct_put_entry:
  assumes "mem_acct K B h" and "e < length (hd_slots h)" and "hd_slots h' = hd_slots h"
    and "entry_acct (K e) (B e) entry'"
    and "unat (hd_totalBuildCommittedGlobal h') + unat (ws_buildBytesCommitted (hd_slots h ! e)) =
      unat (hd_totalBuildCommittedGlobal h) + unat (ws_buildBytesCommitted entry')"
    and "unat (hd_totalResidencyCommittedGlobal h') + unat (ws_residencyBudget (hd_slots h ! e)) =
      unat (hd_totalResidencyCommittedGlobal h) + unat (ws_residencyBudget entry')"
  shows "mem_acct K B (put_entry h' e entry')"
  by (rule mem_acct_put [OF assms(1,2)]) (use assms in simp_all)

lemma mem_acct_entry:
  "mem_acct K B h \<Longrightarrow> e < length (hd_slots h) \<Longrightarrow> entry_acct (K e) (B e) (hd_slots h ! e)"
  by (simp add: mem_acct_def)

lemma build_le_total:
  assumes "mem_acct K B h" and "e < length (hd_slots h)"
  shows "ws_buildBytesCommitted (hd_slots h ! e) \<le> hd_totalBuildCommittedGlobal h"
    and "ws_residencyBudget (hd_slots h ! e) \<le> hd_totalResidencyCommittedGlobal h"
  using assms sum_list_map_update_nat(2) [OF assms(2), of "\<lambda>entry. unat (ws_buildBytesCommitted entry)"]
    sum_list_map_update_nat(2) [OF assms(2), of "\<lambda>entry. unat (ws_residencyBudget entry)"]
  by (auto simp: mem_acct_def rollups_ok_def word_le_nat_alt)

lemma LookupEntryOrError_InrD:
  assumes "LookupEntryOrError h dbOid = Inr e"
  shows "e < length (hd_slots h)" and "ws_dbOid (hd_slots h ! e) = dbOid"
  using assms VamanaWorkerFindSlot_SomeD [of h dbOid e]
  by (auto simp: LookupEntryOrError_def VamanaWorkerLookupSlot_def split: option.splits)

lemma FindReservation_SomeD:
  assumes "FindReservation entry relid = Some i"
  shows "i < length (ws_reservations entry)" and "mr_relid (ws_reservations entry ! i) = relid"
  using find_index_SomeD [OF assms [unfolded FindReservation_def]] by simp_all

lemma FindReservation_NoneD:
  "FindReservation entry relid = None \<Longrightarrow> r \<in> set (ws_reservations entry) \<Longrightarrow> mr_relid r \<noteq> relid"
  by (simp add: FindReservation_def find_index_None_iff)

end
