(* ===== verification/Memory_Ops.thy ===== *)
theory Memory_Ops
  imports Memory_Accounting
begin

text \<open>
  Every operation of \<open>svs_memory.c\<close> keeps the accounting invariant.
\<close>

definition no_wrap :: "u64 \<Rightarrow> u64 \<Rightarrow> bool" where
  "no_wrap a b \<longleftrightarrow> unat a + unat b < 2 ^ 64"

definition room :: "VamanaWorkerShmemHeader \<Rightarrow> oid \<Rightarrow> u64 \<Rightarrow> bool" where
  "room h dbOid amount \<longleftrightarrow>
     (case VamanaWorkerLookupSlot h dbOid of
        None \<Rightarrow> True
      | Some e \<Rightarrow> no_wrap (ws_residencyBytesCommitted (hd_slots h ! e)) amount)"

lemma roomD: "room h dbOid amount \<Longrightarrow> LookupEntryOrError h dbOid = Inr e \<Longrightarrow>
    unat (ws_residencyBytesCommitted (hd_slots h ! e)) + unat amount < 2 ^ 64"
  by (auto simp: room_def LookupEntryOrError_def no_wrap_def split: option.splits)

lemma put_reservation_simps [simp]:
  "ws_reservations (put_reservation entry i r) = (ws_reservations entry)[i := r]"
  "ws_insertReservations (put_reservation entry i r) = ws_insertReservations entry"
  "ws_residencyBytesCommitted (put_reservation entry i r) = ws_residencyBytesCommitted entry"
  "ws_buildBytesCommitted (put_reservation entry i r) = ws_buildBytesCommitted entry"
  "ws_residencyBudget (put_reservation entry i r) = ws_residencyBudget entry"
  by (simp_all add: put_reservation_def)

lemma put_insert_reservation_simps [simp]:
  "ws_reservations (put_insert_reservation entry i r) = ws_reservations entry"
  "ws_insertReservations (put_insert_reservation entry i r) = (ws_insertReservations entry)[i := r]"
  "ws_residencyBytesCommitted (put_insert_reservation entry i r) = ws_residencyBytesCommitted entry"
  "ws_buildBytesCommitted (put_insert_reservation entry i r) = ws_buildBytesCommitted entry"
  "ws_residencyBudget (put_insert_reservation entry i r) = ws_residencyBudget entry"
  by (simp_all add: put_insert_reservation_def)

lemma FreeReservation_simps [simp]:
  "ws_reservations (FreeReservation entry i) =
    (ws_reservations entry)[i := (ws_reservations entry ! i)\<lparr>mr_relid := InvalidOid\<rparr>]"
  "ws_insertReservations (FreeReservation entry i) = ws_insertReservations entry"
  "ws_residencyBytesCommitted (FreeReservation entry i) = ws_residencyBytesCommitted entry"
  "ws_buildBytesCommitted (FreeReservation entry i) = ws_buildBytesCommitted entry"
  "ws_residencyBudget (FreeReservation entry i) = ws_residencyBudget entry"
  by (simp_all add: FreeReservation_def)

lemma FreeInsertReservation_simps [simp]:
  "ws_reservations (FreeInsertReservation entry i) = ws_reservations entry"
  "ws_insertReservations (FreeInsertReservation entry i) =
    (ws_insertReservations entry)[i := (ws_insertReservations entry ! i)\<lparr>ir_relid := InvalidOid\<rparr>]"
  "ws_residencyBytesCommitted (FreeInsertReservation entry i) = ws_residencyBytesCommitted entry"
  "ws_buildBytesCommitted (FreeInsertReservation entry i) = ws_buildBytesCommitted entry"
  "ws_residencyBudget (FreeInsertReservation entry i) = ws_residencyBudget entry"
  by (simp_all add: FreeInsertReservation_def)

lemma held_free [simp]: "mr_relid r = InvalidOid \<Longrightarrow> held r = 0" "mr_relid r = InvalidOid \<Longrightarrow> peak r = 0"
  "mr_relid r = InvalidOid \<Longrightarrow> peak_settled r"
  by (simp_all add: held_def peak_def peak_settled_def)

lemma pending_free [simp]: "ir_relid r = InvalidOid \<Longrightarrow> pending r = 0"
  by (simp add: pending_def)

lemma AllocateReservation_InrD:
  assumes "AllocateReservation entry relid = Inr (i, entry')"
  shows "i < length (ws_reservations entry)" and "mr_relid (ws_reservations entry ! i) = InvalidOid"
    and "entry' = put_reservation entry i (zero_reservation\<lparr>mr_relid := relid\<rparr>)"
  using assms FindReservation_SomeD [of entry InvalidOid i]
  by (auto simp: AllocateReservation_def split: option.splits)

lemma fresh_build_entry_acct:
  assumes "entry_acct k b entry" and "OidIsValid relid" and "FindReservation entry relid = None"
    and "i < length (ws_reservations entry)" and "mr_relid (ws_reservations entry ! i) = InvalidOid"
    and "ws_reservations entry' = (ws_reservations entry)[i := ws_reservations entry' ! i]"
    and "ws_insertReservations entry' = ws_insertReservations entry"
    and "mr_relid (ws_reservations entry' ! i) = relid"
    and "unat (ws_residencyBytesCommitted entry') =
      unat (ws_residencyBytesCommitted entry) + unat (contribution (ws_reservations entry' ! i))"
    and "unat (ws_buildBytesCommitted entry') =
      unat (ws_buildBytesCommitted entry) + unat (mr_buildPeakBytes (ws_reservations entry' ! i))"
    and "peak_settled (ws_reservations entry' ! i)"
  shows "entry_acct k b entry'"
  using assms FindReservation_NoneD [OF assms(3)]
  by (intro entry_acct_at [OF assms(1,4,6,7)]) (auto simp: held_def peak_def)

lemma ReserveBuild_acct:
  assumes acct: "mem_acct K B h" and relid: "OidIsValid relid" and room: "room h dbOid est"
    and wrap: "no_wrap (hd_totalBuildCommittedGlobal h) buildPeak"
  shows "mem_acct K B (snd (SvsMemoryReserveBuild g env dbOid relid buildPeak est h))"
proof (cases "LookupEntryOrError h dbOid")
  case (Inl err)
  then show ?thesis using acct by (simp add: SvsMemoryReserveBuild_def)
next
  case (Inr e)
  note e = LookupEntryOrError_InrD [OF Inr]
  let ?entry = "hd_slots h ! e"
  have ea: "entry_acct (K e) (B e) ?entry" by (rule mem_acct_entry [OF acct e(1)])
  note le = build_le_total [OF acct e(1)]
  have sum: "unat (ws_buildBytesCommitted ?entry + buildPeak) = unat (ws_buildBytesCommitted ?entry) + unat buildPeak"
    "unat (hd_totalBuildCommittedGlobal h + buildPeak) = unat (hd_totalBuildCommittedGlobal h) + unat buildPeak"
    "unat (ws_residencyBytesCommitted ?entry + est) = unat (ws_residencyBytesCommitted ?entry) + unat est"
    using wrap le(1) roomD [OF room Inr] by (simp_all add: unat_add_no_wrap no_wrap_def word_le_nat_alt)
  show ?thesis
  proof (cases "FindReservation ?entry relid")
    case None
    show ?thesis
    proof (cases "AllocateReservation ?entry relid")
      case (Inl err)
      with None Inr acct show ?thesis
        by (simp add: SvsMemoryReserveBuild_def Let_def split: option.split)
    next
      case (Inr p)
      obtain i entry' where p: "p = (i, entry')" by force
      note al = AllocateReservation_InrD [OF Inr [unfolded p]]
      have rej: "mem_acct K B (put_entry h e (FreeReservation entry' i))"
        by (rule mem_acct_put_entry [OF acct e(1)], simp,
            rule entry_acct_at [OF ea al(1)])
          (simp_all add: al)
      show ?thesis
        using None \<open>LookupEntryOrError h dbOid = Inr e\<close> Inr p acct rej al
        by (auto simp: SvsMemoryReserveBuild_def Let_def TryAddGlobalBuildCommitted_def sum
            contribution_def zero_reservation_def peak_settled_def
            split: option.splits if_splits
            intro!: mem_acct_put_entry [OF acct e(1)] fresh_build_entry_acct [OF ea relid None al(1,2)])
    qed
  next
    case (Some i)
    note i = FindReservation_SomeD [OF Some]
    show ?thesis
    proof (cases "mr_state (ws_reservations ?entry ! i) = SVS_MEM_RESIDENT")
      case True
      have settled: "mr_buildPeakBytes (ws_reservations ?entry ! i) = 0"
        using ea i relid True by (auto simp: entry_acct_def list_all_length peak_settled_def)
      have same: "mem_acct K B (put_entry h e ?entry)"
        by (rule mem_acct_put_entry [OF acct e(1) refl ea]) simp_all
      show ?thesis
        using Some Inr True acct i relid same settled
        by (auto simp: SvsMemoryReserveBuild_def Let_def TryAddGlobalBuildCommitted_def sum
            contribution_def held_def peak_def peak_settled_def
            split: option.splits if_splits
            intro!: mem_acct_put_entry [OF acct e(1)] entry_acct_at [OF ea i(1)])
    next
      case False
      with Some Inr acct show ?thesis
        by (simp add: SvsMemoryReserveBuild_def Let_def split: option.split)
    qed
  qed
qed

lemma unat_replace:
  fixes c :: u64
  assumes "p \<le> c" and "unat c + unat m < 2 ^ 64"
  shows "unat (c - p + m) = unat c - unat p + unat m"
  using assms unat_sub_le [OF assms(1)] by (subst unat_add_no_wrap) (auto simp: word_le_nat_alt)

lemma contribution_le:
  assumes "entry_acct k b entry" and "FindReservation entry relid = Some i" and "OidIsValid relid"
  shows "contribution (ws_reservations entry ! i) \<le> ws_residencyBytesCommitted entry"
    and "mr_buildPeakBytes (ws_reservations entry ! i) \<le> ws_buildBytesCommitted entry"
  using held_le_committed [OF assms(1), of i] FindReservation_SomeD [OF assms(2)] assms(3)
  by (simp_all add: held_def peak_def word_le_nat_alt)

lemma settled_peak:
  assumes "entry_acct k b entry" and "FindReservation entry relid = Some i" and "OidIsValid relid"
    and "mr_state (ws_reservations entry ! i) \<notin> {SVS_MEM_RESERVED, SVS_MEM_REBUILDING}"
  shows "mr_buildPeakBytes (ws_reservations entry ! i) = 0"
  using assms FindReservation_SomeD [OF assms(2)]
  by (auto simp: entry_acct_def list_all_length peak_settled_def)

text \<open>
  Releasing a peak or a contribution never floors, and replacing a contribution by a new size
  does not wrap.
\<close>

lemma peak_release:
  assumes "mem_acct K B h" and "e < length (hd_slots h)" and "entry_acct k b (hd_slots h ! e)"
    and "FindReservation (hd_slots h ! e) relid = Some i" and "OidIsValid relid"
  shows "unat (SubtractFloored (ws_buildBytesCommitted (hd_slots h ! e))
        (mr_buildPeakBytes (ws_reservations (hd_slots h ! e) ! i))) +
      unat (mr_buildPeakBytes (ws_reservations (hd_slots h ! e) ! i)) =
      unat (ws_buildBytesCommitted (hd_slots h ! e))"
    and "unat (SubtractFloored (hd_totalBuildCommittedGlobal h)
        (mr_buildPeakBytes (ws_reservations (hd_slots h ! e) ! i))) +
      unat (mr_buildPeakBytes (ws_reservations (hd_slots h ! e) ! i)) =
      unat (hd_totalBuildCommittedGlobal h)"
proof -
  note le = contribution_le(2) [OF assms(3-5)]
  have "mr_buildPeakBytes (ws_reservations (hd_slots h ! e) ! i) \<le> hd_totalBuildCommittedGlobal h"
    using le build_le_total(1) [OF assms(1,2)] by simp
  with le show "unat (SubtractFloored (ws_buildBytesCommitted (hd_slots h ! e))
        (mr_buildPeakBytes (ws_reservations (hd_slots h ! e) ! i))) +
      unat (mr_buildPeakBytes (ws_reservations (hd_slots h ! e) ! i)) =
      unat (ws_buildBytesCommitted (hd_slots h ! e))"
    "unat (SubtractFloored (hd_totalBuildCommittedGlobal h)
        (mr_buildPeakBytes (ws_reservations (hd_slots h ! e) ! i))) +
      unat (mr_buildPeakBytes (ws_reservations (hd_slots h ! e) ! i)) =
      unat (hd_totalBuildCommittedGlobal h)"
    by (simp_all add: SubtractFloored_le unat_sub_le word_le_nat_alt)
qed

lemma contribution_release:
  assumes "entry_acct k b entry" and "FindReservation entry relid = Some i" and "OidIsValid relid"
  shows "unat (SubtractFloored (ws_residencyBytesCommitted entry)
        (contribution (ws_reservations entry ! i))) + unat (contribution (ws_reservations entry ! i)) =
      unat (ws_residencyBytesCommitted entry)"
  using contribution_le(1) [OF assms] by (simp add: SubtractFloored_le unat_sub_le word_le_nat_alt)

lemma contribution_replace:
  assumes "entry_acct k b entry" and "FindReservation entry relid = Some i" and "OidIsValid relid"
    and "unat (ws_residencyBytesCommitted entry) + unat m < 2 ^ 64"
  shows "unat (SubtractFloored (ws_residencyBytesCommitted entry)
        (contribution (ws_reservations entry ! i)) + m) + unat (contribution (ws_reservations entry ! i)) =
      unat (ws_residencyBytesCommitted entry) + unat m"
  using contribution_le(1) [OF assms(1-3)] assms(4) by (simp add: SubtractFloored_le unat_replace word_le_nat_alt)

definition peak_matches :: "VamanaWorkerShmemHeader \<Rightarrow> oid \<Rightarrow> oid \<Rightarrow> u64 \<Rightarrow> bool" where
  "peak_matches h dbOid relid buildPeak \<longleftrightarrow>
     (case VamanaWorkerLookupSlot h dbOid of
        None \<Rightarrow> True
      | Some e \<Rightarrow> (case FindReservation (hd_slots h ! e) relid of
          None \<Rightarrow> True
        | Some i \<Rightarrow> mr_buildPeakBytes (ws_reservations (hd_slots h ! e) ! i) = buildPeak))"

lemma peak_matchesD:
  "peak_matches h dbOid relid buildPeak \<Longrightarrow> LookupEntryOrError h dbOid = Inr e \<Longrightarrow>
    FindReservation (hd_slots h ! e) relid = Some i \<Longrightarrow>
    mr_buildPeakBytes (ws_reservations (hd_slots h ! e) ! i) = buildPeak"
  by (auto simp: peak_matches_def LookupEntryOrError_def split: option.splits)

lemmas acct_defs = contribution_def held_def peak_def peak_settled_def

lemma ConfirmBuild_acct:
  assumes acct: "mem_acct K B h" and relid: "OidIsValid relid" and room: "room h dbOid measured"
    and peak: "peak_matches h dbOid relid buildPeak"
  shows "mem_acct K B (snd (SvsMemoryConfirmBuild dbOid relid buildPeak measured h))"
proof (cases "LookupEntryOrError h dbOid")
  case (Inl err)
  then show ?thesis using acct by (simp add: SvsMemoryConfirmBuild_def)
next
  case (Inr e)
  note e = LookupEntryOrError_InrD [OF Inr]
  let ?entry = "hd_slots h ! e"
  have ea: "entry_acct (K e) (B e) ?entry" by (rule mem_acct_entry [OF acct e(1)])
  note le = build_le_total [OF acct e(1)]
  show ?thesis
  proof (cases "FindReservation ?entry relid")
    case None
    with Inr acct show ?thesis by (simp add: SvsMemoryConfirmBuild_def)
  next
    case (Some i)
    note i = FindReservation_SomeD [OF Some]
    let ?r = "ws_reservations ?entry ! i"
    have bp: "buildPeak = mr_buildPeakBytes ?r" using peak_matchesD [OF peak Inr Some] by simp
    note sub = peak_release [OF acct e(1) ea Some relid] contribution_release [OF ea Some relid]
      contribution_replace [OF ea Some relid roomD [OF room Inr]]
    show ?thesis
    proof (cases "mr_state ?r")
      case SVS_MEM_RESERVED
      then show ?thesis
        using Some Inr acct i relid sub
        by (auto simp: SvsMemoryConfirmBuild_def Let_def SubtractGlobalBuildCommitted_def bp acct_defs
            intro!: mem_acct_put_entry [OF acct e(1)] entry_acct_at [OF ea i(1)])
    next
      case SVS_MEM_REBUILDING
      then show ?thesis
        using Some Inr acct i relid sub
        by (auto simp: SvsMemoryConfirmBuild_def Let_def SubtractGlobalBuildCommitted_def bp acct_defs
            RestorePriorResidency_def
            intro!: mem_acct_put_entry [OF acct e(1)] entry_acct_at [OF ea i(1)])
    qed (use Some Inr acct in \<open>simp_all add: SvsMemoryConfirmBuild_def Let_def\<close>)
  qed
qed

lemma locate_entry:
  assumes "mem_acct K B h"
  obtains (none) err where "LookupEntryOrError h dbOid = Inl err"
    | (entry) e where "LookupEntryOrError h dbOid = Inr e" "e < length (hd_slots h)"
        "entry_acct (K e) (B e) (hd_slots h ! e)"
  using assms LookupEntryOrError_InrD(1) mem_acct_entry by (cases "LookupEntryOrError h dbOid") blast+

lemma HandoffBuild_acct:
  assumes acct: "mem_acct K B h" and relid: "OidIsValid relid"
  shows "mem_acct K B (snd (SvsMemoryHandoffBuild dbOid relid h))"
  using acct
proof (cases rule: locate_entry [where dbOid = dbOid])
  case (entry e)
  show ?thesis
  proof (cases "FindReservation (hd_slots h ! e) relid")
    case (Some i)
    with entry acct relid FindReservation_SomeD [OF Some] settled_peak [OF entry(3) Some relid]
    show ?thesis
      by (auto simp: SvsMemoryHandoffBuild_def Let_def acct_defs
          intro!: mem_acct_put_entry [OF acct] entry_acct_at [OF entry(3)])
  qed (use entry acct in \<open>simp add: SvsMemoryHandoffBuild_def\<close>)
qed (simp add: SvsMemoryHandoffBuild_def acct)

lemma release_peak_always:
  "release_peak r entry = entry\<lparr>ws_buildBytesCommitted :=
     SubtractFloored (ws_buildBytesCommitted entry) (mr_buildPeakBytes r)\<rparr>"
  "release_peak_global r h = h\<lparr>hd_totalBuildCommittedGlobal :=
     SubtractFloored (hd_totalBuildCommittedGlobal h) (mr_buildPeakBytes r)\<rparr>"
  by (cases "mr_buildPeakBytes r = 0";
      simp add: release_peak_def release_peak_global_def SubtractGlobalBuildCommitted_def
        SubtractFloored_def word_gt_0)+

lemma AbortBuild_acct:
  assumes acct: "mem_acct K B h" and relid: "OidIsValid relid"
  shows "mem_acct K B (snd (SvsMemoryAbortBuild dbOid relid h))"
  using acct
proof (cases rule: locate_entry [where dbOid = dbOid])
  case (entry e)
  show ?thesis
  proof (cases "FindReservation (hd_slots h ! e) relid")
    case (Some i)
    note sub = peak_release [OF acct entry(2,3) Some relid] contribution_release [OF entry(3) Some relid]
    note i = FindReservation_SomeD [OF Some]
    show ?thesis
    proof (cases "mr_state (ws_reservations (hd_slots h ! e) ! i)")
      case SVS_MEM_REBUILDING
      then show ?thesis
        using Some entry acct i relid sub
        by (auto simp: SvsMemoryAbortBuild_def Let_def release_peak_always acct_defs RestorePriorResidency_def
            intro!: mem_acct_put_entry [OF acct] entry_acct_at [OF entry(3)])
    qed (use Some entry acct i relid sub settled_peak [OF entry(3) Some relid] in
        \<open>auto simp: SvsMemoryAbortBuild_def Let_def release_peak_always acct_defs
            intro!: mem_acct_put_entry [OF acct] entry_acct_at [OF entry(3)]\<close>)
  qed (use entry acct in \<open>simp add: SvsMemoryAbortBuild_def\<close>)
qed (simp add: SvsMemoryAbortBuild_def acct)

definition reservation_state ::
    "VamanaWorkerShmemHeader \<Rightarrow> oid \<Rightarrow> oid \<Rightarrow> SvsMemReservationState option" where
  "reservation_state h dbOid relid =
     (case VamanaWorkerLookupSlot h dbOid of
        None \<Rightarrow> None
      | Some e \<Rightarrow> map_option (\<lambda>i. mr_state (ws_reservations (hd_slots h ! e) ! i))
          (FindReservation (hd_slots h ! e) relid))"

lemma reservation_state_eq:
  "LookupEntryOrError h dbOid = Inr e \<Longrightarrow> FindReservation (hd_slots h ! e) relid = Some i \<Longrightarrow>
    reservation_state h dbOid relid = Some (mr_state (ws_reservations (hd_slots h ! e) ! i))"
  by (auto simp: reservation_state_def LookupEntryOrError_def split: option.splits)

lemma ReconcileLoad_acct:
  assumes acct: "mem_acct K B h" and relid: "OidIsValid relid" and room: "room h dbOid measured"
    and st: "reservation_state h dbOid relid \<noteq> Some SVS_MEM_RESERVED"
  shows "mem_acct K B (snd (SvsMemoryReconcileLoad env dbOid relid measured headroom h))"
  using acct
proof (cases rule: locate_entry [where dbOid = dbOid])
  case (entry e)
  let ?entry = "hd_slots h ! e"
  have add: "unat (ws_residencyBytesCommitted ?entry + measured) =
      unat (ws_residencyBytesCommitted ?entry) + unat measured"
    using roomD [OF room entry(1)] by (rule unat_add_no_wrap)
  show ?thesis
  proof (cases "FindReservation ?entry relid")
    case (Some i)
    note i = FindReservation_SomeD [OF Some]
    note sub = peak_release [OF acct entry(2,3) Some relid]
      contribution_replace [OF entry(3) Some relid roomD [OF room entry(1)]]
    show ?thesis
    proof (cases "mr_state (ws_reservations ?entry ! i)")
      case SVS_MEM_RESERVED
      with st reservation_state_eq [OF entry(1) Some] show ?thesis by simp
    qed (use Some entry acct i relid sub settled_peak [OF entry(3) Some relid] in
        \<open>auto simp: SvsMemoryReconcileLoad_def Let_def release_peak_always acct_defs
            split: option.split
            intro!: mem_acct_put_entry [OF acct] entry_acct_at [OF entry(3)]\<close>)
  next
    case None
    show ?thesis
    proof (cases "AllocateReservation ?entry relid")
      case (Inr p)
      obtain i entry' where p: "p = (i, entry')" by force
      note al = AllocateReservation_InrD [OF Inr [unfolded p]]
      show ?thesis
        using None entry Inr p acct al
        by (auto simp: SvsMemoryReconcileLoad_def Let_def add contribution_def zero_reservation_def
            peak_settled_def split: option.splits if_splits
            intro!: mem_acct_put_entry [OF acct] fresh_build_entry_acct [OF entry(3) relid None al(1,2)])
    qed (use None entry acct in \<open>simp add: SvsMemoryReconcileLoad_def Let_def split: option.split\<close>)
  qed
qed (simp add: SvsMemoryReconcileLoad_def acct)

lemma AccountUnload_acct:
  assumes acct: "mem_acct K B h" and relid: "OidIsValid relid"
    and st: "reservation_state h dbOid relid \<noteq> Some SVS_MEM_RESERVED"
  shows "mem_acct K B (snd (SvsMemoryAccountUnload dbOid relid h))"
  using acct
proof (cases rule: locate_entry [where dbOid = dbOid])
  case (entry e)
  let ?entry = "hd_slots h ! e"
  show ?thesis
  proof (cases "FindReservation ?entry relid")
    case (Some i)
    note i = FindReservation_SomeD [OF Some]
    note sub = peak_release [OF acct entry(2,3) Some relid] contribution_release [OF entry(3) Some relid]
    show ?thesis
    proof (cases "mr_state (ws_reservations ?entry ! i)")
      case SVS_MEM_RESERVED
      with st reservation_state_eq [OF entry(1) Some] show ?thesis by simp
    qed (use Some entry acct i relid sub settled_peak [OF entry(3) Some relid] in
        \<open>auto simp: SvsMemoryAccountUnload_def Let_def release_peak_always acct_defs
            intro!: mem_acct_put_entry [OF acct] entry_acct_at [OF entry(3)]\<close>)
  qed (use entry acct in \<open>simp add: SvsMemoryAccountUnload_def\<close>)
qed (simp add: SvsMemoryAccountUnload_def acct)

lemma FindFreeInsertReservation_SomeD:
  assumes "FindFreeInsertReservation entry = Some k"
  shows "k < length (ws_insertReservations entry)"
    and "ir_relid (ws_insertReservations entry ! k) = InvalidOid"
  using find_index_SomeD [OF assms [unfolded FindFreeInsertReservation_def]] by simp_all

text \<open>A reservation that changes only fields the accounting does not read.\<close>

lemma entry_acct_unread:
  assumes "entry_acct k b entry" and "i < length (ws_reservations entry)"
    and "mr_relid r' = mr_relid (ws_reservations entry ! i)"
    and "mr_state r' = mr_state (ws_reservations entry ! i)"
    and "mr_estimateBytes r' = mr_estimateBytes (ws_reservations entry ! i)"
    and "mr_measuredBytes r' = mr_measuredBytes (ws_reservations entry ! i)"
    and "mr_priorResidentBytes r' = mr_priorResidentBytes (ws_reservations entry ! i)"
    and "mr_buildPeakBytes r' = mr_buildPeakBytes (ws_reservations entry ! i)"
  shows "entry_acct k b (put_reservation entry i r')"
proof -
  have "held r' = held (ws_reservations entry ! i)" "peak r' = peak (ws_reservations entry ! i)"
    using assms(3-8) by (simp_all add: held_def peak_def contribution_def
        split: SvsMemReservationState.split)
  moreover have "peak_settled r'"
    using assms by (auto simp: peak_settled_def entry_acct_def list_all_length)
  ultimately show ?thesis
    using assms(2,3) by (intro entry_acct_at [OF assms(1,2)]) simp_all
qed

lemma ReserveInsert_acct:
  assumes acct: "mem_acct K B h" and relid: "OidIsValid relid" and room: "room h dbOid delta"
  shows "mem_acct K B (snd (SvsMemoryReserveInsert env dbOid relid delta h))"
  using acct
proof (cases rule: locate_entry [where dbOid = dbOid])
  case (entry e)
  let ?entry = "hd_slots h ! e"
  have add: "unat (ws_residencyBytesCommitted ?entry + delta) =
      unat (ws_residencyBytesCommitted ?entry) + unat delta"
    using roomD [OF room entry(1)] by (rule unat_add_no_wrap)
  show ?thesis
  proof (cases "FindFreeInsertReservation ?entry")
    case (Some k)
    note k = FindFreeInsertReservation_SomeD [OF Some]
    show ?thesis
    proof (cases "FindReservation ?entry relid")
      case None
      with Some entry acct k relid add show ?thesis
        by (auto simp: SvsMemoryReserveInsert_def Let_def pending_def split: option.split
            intro!: mem_acct_put_entry [OF acct] entry_acct_insert [OF entry(3)])
    next
      case (Some i)
      note i = FindReservation_SomeD [OF Some]
      have ins: "entry_acct (K e) (B e) ((put_insert_reservation ?entry k v)
          \<lparr>ws_residencyBytesCommitted := ws_residencyBytesCommitted ?entry\<rparr>)"
        if "ir_deltaBytes v = 0" for v
        by (rule entry_acct_insert [OF entry(3) k(1)]) (use that k in \<open>simp_all add: pending_def\<close>)
      show ?thesis
      proof (cases "mr_capacityHeadroomVectors (ws_reservations ?entry ! i) > 0")
        case True
        with \<open>FindFreeInsertReservation ?entry = Some k\<close> Some entry acct k i show ?thesis
          by (auto simp: SvsMemoryReserveInsert_def Let_def split: option.split
              intro!: mem_acct_put_entry [OF acct] entry_acct_unread ins)
      next
        case False
        with \<open>FindFreeInsertReservation ?entry = Some k\<close> Some entry acct k relid add show ?thesis
          by (auto simp: SvsMemoryReserveInsert_def Let_def pending_def split: option.split
              intro!: mem_acct_put_entry [OF acct] entry_acct_insert [OF entry(3)])
      qed
    qed
  qed (use entry acct in \<open>simp add: SvsMemoryReserveInsert_def Let_def split: option.split\<close>)
qed (simp add: SvsMemoryReserveInsert_def acct)

section \<open>Pending inserts\<close>

lemma oldest_insert_scan_spec:
  "case oldest_insert_scan tab relid ps old of
     None \<Rightarrow> old = None \<and> (\<forall>i \<in> set ps. ir_relid (tab ! i) \<noteq> relid)
   | Some j \<Rightarrow> (old = Some j \<or> j \<in> set ps \<and> ir_relid (tab ! j) = relid) \<and>
       (\<forall>i \<in> set ps. ir_relid (tab ! i) = relid \<longrightarrow> ir_reservedAt (tab ! j) \<le> ir_reservedAt (tab ! i)) \<and>
       (\<forall>i. old = Some i \<longrightarrow> ir_reservedAt (tab ! j) \<le> ir_reservedAt (tab ! i))"
proof (induction ps arbitrary: old)
  case (Cons i ps)
  show ?case
    using Cons.IH [of old] Cons.IH [of "Some i"]
    by (auto split: option.splits if_splits)
qed (simp split: option.split)

lemma FindOldestInsertReservation_SomeD:
  assumes "FindOldestInsertReservation entry relid = Some j"
  shows "j < length (ws_insertReservations entry)"
    and "ir_relid (ws_insertReservations entry ! j) = relid"
    and "\<forall>i < length (ws_insertReservations entry). ir_relid (ws_insertReservations entry ! i) = relid \<longrightarrow>
      ir_reservedAt (ws_insertReservations entry ! j) \<le> ir_reservedAt (ws_insertReservations entry ! i)"
  using oldest_insert_scan_spec [where tab = "ws_insertReservations entry" and relid = relid and
      old = None and ps = "[0..<length (ws_insertReservations entry)]"] assms
  by (auto simp: FindOldestInsertReservation_def)

lemma pending_release:
  assumes "entry_acct k b entry" and "j < length (ws_insertReservations entry)"
    and "OidIsValid (ir_relid (ws_insertReservations entry ! j))"
  shows "unat (SubtractFloored (ws_residencyBytesCommitted entry)
        (ir_deltaBytes (ws_insertReservations entry ! j))) +
      unat (ir_deltaBytes (ws_insertReservations entry ! j)) = unat (ws_residencyBytesCommitted entry)"
  using pending_le_committed [OF assms(1,2)] assms(3)
  by (simp add: pending_def SubtractFloored_le unat_sub_le word_le_nat_alt)

lemma ReleaseOldest_simps [simp]:
  "ws_reservations (ReleaseOldestInsertReservation entry relid) = ws_reservations entry"
  "ws_buildBytesCommitted (ReleaseOldestInsertReservation entry relid) = ws_buildBytesCommitted entry"
  "ws_residencyBudget (ReleaseOldestInsertReservation entry relid) = ws_residencyBudget entry"
  by (simp_all add: ReleaseOldestInsertReservation_def split: option.split)

lemma ReleaseOldest_acct:
  assumes "entry_acct k b entry" and "OidIsValid relid"
  shows "entry_acct k b (ReleaseOldestInsertReservation entry relid)"
    and "ws_residencyBytesCommitted (ReleaseOldestInsertReservation entry relid) \<le>
      ws_residencyBytesCommitted entry"
proof -
  have "entry_acct k b (ReleaseOldestInsertReservation entry relid) \<and>
    ws_residencyBytesCommitted (ReleaseOldestInsertReservation entry relid) \<le>
      ws_residencyBytesCommitted entry"
  proof (cases "FindOldestInsertReservation entry relid")
    case (Some j)
    note j = FindOldestInsertReservation_SomeD [OF Some]
    have rel: "unat (SubtractFloored (ws_residencyBytesCommitted entry)
        (ir_deltaBytes (ws_insertReservations entry ! j))) +
      unat (ir_deltaBytes (ws_insertReservations entry ! j)) = unat (ws_residencyBytesCommitted entry)"
      using pending_release [OF assms(1) j(1)] j(2) assms(2) by simp
    have "entry_acct k b (ReleaseOldestInsertReservation entry relid)"
      by (rule entry_acct_insert [OF assms(1) j(1)])
        (use Some j(1,2) assms(2) rel in
          \<open>simp_all add: ReleaseOldestInsertReservation_def pending_def\<close>)
    with Some rel show ?thesis
      by (simp add: ReleaseOldestInsertReservation_def word_le_nat_alt)
  qed (use assms in \<open>simp add: ReleaseOldestInsertReservation_def\<close>)
  then show "entry_acct k b (ReleaseOldestInsertReservation entry relid)"
    "ws_residencyBytesCommitted (ReleaseOldestInsertReservation entry relid) \<le>
      ws_residencyBytesCommitted entry" by simp_all
qed

lemma ReleaseOldest_put_reservation:
  "ReleaseOldestInsertReservation (put_reservation entry i r) relid =
    put_reservation (ReleaseOldestInsertReservation entry relid) i r"
  by (simp add: ReleaseOldestInsertReservation_def FindOldestInsertReservation_def
      put_reservation_def FreeInsertReservation_def put_insert_reservation_def split: option.split)

lemma CloseInsertReservation_acct:
  assumes acct: "mem_acct K B h" and relid: "OidIsValid relid"
  shows "mem_acct K B (snd (SvsMemoryCloseInsertReservation dbOid relid h))"
  using acct
proof (cases rule: locate_entry [where dbOid = dbOid])
  case (entry e)
  then show ?thesis
    using ReleaseOldest_acct(1) [OF entry(3) relid]
    by (auto simp: SvsMemoryCloseInsertReservation_def intro!: mem_acct_put_entry [OF acct])
qed (simp add: SvsMemoryCloseInsertReservation_def acct)

lemma AbortInsert_acct:
  assumes acct: "mem_acct K B h" and relid: "OidIsValid relid"
  shows "mem_acct K B (snd (SvsMemoryAbortInsert env dbOid relid h))"
  using acct
proof (cases rule: locate_entry [where dbOid = dbOid])
  case (entry e)
  let ?entry = "hd_slots h ! e"
  show ?thesis
  proof (cases "FindInsertReservationByOwner ?entry relid (MyProcPid env)")
    case (Some k)
    have k: "k < length (ws_insertReservations ?entry)" "ir_relid (ws_insertReservations ?entry ! k) = relid"
      using find_index_SomeD [OF Some [unfolded FindInsertReservationByOwner_def]] by simp_all
    let ?E = "FreeInsertReservation (?entry\<lparr>ws_residencyBytesCommitted :=
      SubtractFloored (ws_residencyBytesCommitted ?entry)
        (ir_deltaBytes (ws_insertReservations ?entry ! k))\<rparr>) k"
    have E: "entry_acct (K e) (B e) ?E"
      by (rule entry_acct_insert [OF entry(3) k(1)])
        (use k relid pending_release [OF entry(3) k(1)] in \<open>simp_all add: pending_def\<close>)
    have swap: "FreeInsertReservation (put_reservation x i r) k = put_reservation (FreeInsertReservation x k) i r"
      for x i r
      by (simp add: FreeInsertReservation_def put_reservation_def put_insert_reservation_def)
    have find: "FindReservation (?entry\<lparr>ws_residencyBytesCommitted := c\<rparr>) relid = FindReservation ?entry relid" for c
      by (simp add: FindReservation_def)
    show ?thesis
      using Some entry acct E FindReservation_SomeD(1) [of ?entry relid]
      by (auto simp: SvsMemoryAbortInsert_def Let_def find swap split: option.split
          intro!: mem_acct_put_entry [OF acct] entry_acct_unread)
  qed (use entry acct in \<open>simp add: SvsMemoryAbortInsert_def\<close>)
qed (simp add: SvsMemoryAbortInsert_def acct)

lemma ReanchorInsert_acct:
  assumes acct: "mem_acct K B h" and relid: "OidIsValid relid" and room: "room h dbOid measured"
    and st: "reservation_state h dbOid relid \<notin> {Some SVS_MEM_RESERVED, Some SVS_MEM_REBUILDING}"
  shows "mem_acct K B (snd (SvsMemoryReanchorInsert dbOid relid measured h))"
  using acct
proof (cases rule: locate_entry [where dbOid = dbOid])
  case (entry e)
  let ?entry = "hd_slots h ! e"
  show ?thesis
  proof (cases "FindReservation ?entry relid")
    case (Some i)
    note i = FindReservation_SomeD [OF Some]
    let ?r = "ws_reservations ?entry ! i"
    have contr: "contribution ?r = mr_measuredBytes ?r" and settled: "mr_buildPeakBytes ?r = 0"
      using st reservation_state_eq [OF entry(1) Some] settled_peak [OF entry(3) Some relid]
      by (cases "mr_state ?r"; simp add: contribution_def)+
    let ?c = "SubtractFloored (ws_residencyBytesCommitted ?entry) (mr_measuredBytes ?r)"
    have c: "unat ?c + unat (mr_measuredBytes ?r) = unat (ws_residencyBytesCommitted ?entry)"
      using contribution_release [OF entry(3) Some relid] by (simp add: contr)
    let ?E0 = "?entry\<lparr>ws_residencyBytesCommitted := ?c\<rparr>"
    have E0: "entry_acct (K e) (B e) (put_reservation ?E0 i (?r\<lparr>mr_measuredBytes := 0\<rparr>))"
      by (rule entry_acct_at [OF entry(3) i(1)])
        (use i c contr settled st reservation_state_eq [OF entry(1) Some] relid in
          \<open>auto simp: held_def peak_def peak_settled_def contribution_def
            split: SvsMemReservationState.splits\<close>)
    let ?E1 = "ReleaseOldestInsertReservation ?E0 relid"
    have E1: "entry_acct (K e) (B e) (put_reservation ?E1 i (?r\<lparr>mr_measuredBytes := 0\<rparr>))"
      using ReleaseOldest_acct(1) [OF E0 relid] by (simp add: ReleaseOldest_put_reservation)
    have low: "unat (ws_residencyBytesCommitted ?E1) \<le> unat (ws_residencyBytesCommitted ?entry)"
      using ReleaseOldest_acct(2) [OF E0 relid] c
      by (simp add: ReleaseOldest_put_reservation word_le_nat_alt)
    define reclaimable where "reclaimable =
      (if measured < mr_reclaimableBytes ?r then measured else mr_reclaimableBytes ?r)"
    have net: "unat (measured - reclaimable) \<le> unat measured"
      by (auto simp: reclaimable_def unat_sub_le not_less)
    have add: "unat (ws_residencyBytesCommitted ?E1 + (measured - reclaimable)) =
        unat (ws_residencyBytesCommitted ?E1) + unat (measured - reclaimable)"
      using low net roomD [OF room entry(1)] by (intro unat_add_no_wrap) linarith
    let ?r' = "?r\<lparr>mr_reclaimableBytes := reclaimable, mr_measuredBytes := measured - reclaimable\<rparr>"
    have E2: "entry_acct (K e) (B e) (put_reservation
        (?E1\<lparr>ws_residencyBytesCommitted := ws_residencyBytesCommitted ?E1 + (measured - reclaimable)\<rparr>) i ?r')"
      by (rule entry_acct_at [OF E1])
        (use i add settled st reservation_state_eq [OF entry(1) Some] relid in
          \<open>auto simp: held_def peak_def peak_settled_def contribution_def
            split: SvsMemReservationState.splits\<close>)
    show ?thesis
      using E2 Some entry acct
      by (auto simp: SvsMemoryReanchorInsert_def FindResidentReservationOrError_def Let_def
          reclaimable_def [symmetric] intro!: mem_acct_put_entry [OF acct])
  qed (use entry acct in \<open>simp add: SvsMemoryReanchorInsert_def FindResidentReservationOrError_def\<close>)
qed (simp add: SvsMemoryReanchorInsert_def acct)

lemma ReconcileResident_acct:
  assumes acct: "mem_acct K B h" and relid: "OidIsValid relid" and room: "room h dbOid measured"
  shows "mem_acct K B (snd (SvsMemoryReconcileResident dbOid relid measured headroom h))"
  using acct
proof (cases rule: locate_entry [where dbOid = dbOid])
  case (entry e)
  let ?entry = "hd_slots h ! e"
  show ?thesis
  proof (cases "FindReservation ?entry relid")
    case (Some i)
    note i = FindReservation_SomeD [OF Some]
    note sub = contribution_replace [OF entry(3) Some relid roomD [OF room entry(1)]]
    show ?thesis
    proof (cases "mr_state (ws_reservations ?entry ! i)")
      case SVS_MEM_RESIDENT
      with Some entry acct i relid sub settled_peak [OF entry(3) Some relid] show ?thesis
        by (auto simp: SvsMemoryReconcileResident_def FindResidentReservationOrError_def Let_def acct_defs
            intro!: mem_acct_put_entry [OF acct] entry_acct_at [OF entry(3)])
    qed (use Some entry acct in
        \<open>simp_all add: SvsMemoryReconcileResident_def FindResidentReservationOrError_def Let_def\<close>)
  qed (use entry acct in \<open>simp add: SvsMemoryReconcileResident_def FindResidentReservationOrError_def\<close>)
qed (simp add: SvsMemoryReconcileResident_def acct)

lemma Lookup_Inr: "LookupEntryOrError h dbOid = Inr e \<longleftrightarrow> VamanaWorkerLookupSlot h dbOid = Some e"
  "LookupEntryOrError h dbOid = Inl err \<Longrightarrow> VamanaWorkerLookupSlot h dbOid = None"
  by (auto simp: LookupEntryOrError_def split: option.splits)

lemma CreditAbortedInserts_acct:
  assumes acct: "mem_acct K B h" and relid: "OidIsValid relid"
  shows "mem_acct K B (snd (SvsMemoryCreditAbortedInserts g dbOid relid generation growth h))"
  using acct
proof (cases rule: locate_entry [where dbOid = dbOid])
  case (entry e)
  let ?entry = "hd_slots h ! e"
  show ?thesis
  proof (cases "FindReservation ?entry relid")
    case (Some i)
    note i = FindReservation_SomeD [OF Some]
    let ?r = "ws_reservations ?entry ! i"
    define credit where "credit = min growth (mr_measuredBytes ?r)"
    show ?thesis
    proof (cases "mr_state ?r = SVS_MEM_RESIDENT")
      case True
      have "mr_measuredBytes ?r \<le> ws_residencyBytesCommitted ?entry"
        using contribution_le(1) [OF entry(3) Some relid] True by (simp add: contribution_def)
      then have "credit \<le> ws_residencyBytesCommitted ?entry" "credit \<le> mr_measuredBytes ?r"
        by (auto simp: credit_def min_def)
      then have sub: "unat (SubtractFloored (ws_residencyBytesCommitted ?entry) credit) + unat credit =
          unat (ws_residencyBytesCommitted ?entry)"
        "unat (SubtractFloored (mr_measuredBytes ?r) credit) + unat credit = unat (mr_measuredBytes ?r)"
        by (simp_all add: SubtractFloored_le unat_sub_le word_le_nat_alt)
      with True Some entry acct i relid settled_peak [OF entry(3) Some relid] show ?thesis
        by (auto simp: SvsMemoryCreditAbortedInserts_def Lookup_Inr Let_def acct_defs credit_def [symmetric]
            intro!: mem_acct_put_entry [OF acct] entry_acct_at [OF entry(3)])
    qed (use Some entry acct in \<open>simp add: SvsMemoryCreditAbortedInserts_def Lookup_Inr Let_def\<close>)
  qed (use entry acct in \<open>simp add: SvsMemoryCreditAbortedInserts_def Lookup_Inr\<close>)
qed (simp add: SvsMemoryCreditAbortedInserts_def acct Lookup_Inr(2))

section \<open>The reaper and the startup scan\<close>

text \<open>Inside a loop the control block is a local copy; \<open>mem_acct\<close> holds of the header with it put back.\<close>

lemma mem_acct_step:
  assumes "mem_acct K B (put_entry h e entry)" and "e < length (hd_slots h)"
    and "hd_slots h' = hd_slots h" and "entry_acct (K e) (B e) entry'"
    and "unat (hd_totalBuildCommittedGlobal h') + unat (ws_buildBytesCommitted entry) =
      unat (hd_totalBuildCommittedGlobal h) + unat (ws_buildBytesCommitted entry')"
    and "hd_totalResidencyCommittedGlobal h' = hd_totalResidencyCommittedGlobal h"
    and "ws_residencyBudget entry' = ws_residencyBudget entry"
  shows "mem_acct K B (put_entry h' e entry')"
  by (rule mem_acct_put [OF assms(1), of e _ entry']) (use assms in simp_all)

lemma put_entry_same [simp]: "put_entry h e (hd_slots h ! e) = h"
  by (simp add: put_entry_def)

lemma mem_acct_local:
  assumes "mem_acct K B (put_entry h e entry)" and "e < length (hd_slots h)"
  shows "entry_acct (K e) (B e) entry" and "ws_buildBytesCommitted entry \<le> hd_totalBuildCommittedGlobal h"
  using mem_acct_entry [OF assms(1), of e] build_le_total(1) [OF assms(1), of e] assms(2) by simp_all

lemma ReapReservationAt_acct:
  assumes acct: "mem_acct K B (put_entry h e entry)" and e: "e < length (hd_slots h)"
    and i: "i < VAMANA_MAX_INDEXES" and step: "ReapReservationAt env i (entry, h) = (entry', h')"
  shows "mem_acct K B (put_entry h' e entry') \<and> hd_slots h' = hd_slots h"
proof -
  let ?r = "ws_reservations entry ! i"
  note ea = mem_acct_local [OF acct e]
  have i': "i < length (ws_reservations entry)" using ea(1) i by (simp add: entry_acct_def)
  note held = held_le_committed [OF ea(1) i']
  show ?thesis
  proof (cases "OidIsValid (mr_relid ?r) \<and> (mr_state ?r = SVS_MEM_RESERVED \<or> mr_state ?r = SVS_MEM_REBUILDING)
      \<and> OwnerPidIsDead env (mr_ownerPid ?r) (mr_reservedAt ?r)")
    case True
    have "mr_buildPeakBytes ?r \<le> ws_buildBytesCommitted entry"
      "contribution ?r \<le> ws_residencyBytesCommitted entry"
      "mr_buildPeakBytes ?r \<le> hd_totalBuildCommittedGlobal h"
      using held True ea(2) by (auto simp: held_def peak_def word_le_nat_alt)
    then have sub: "unat (SubtractFloored (ws_buildBytesCommitted entry) (mr_buildPeakBytes ?r)) +
          unat (mr_buildPeakBytes ?r) = unat (ws_buildBytesCommitted entry)"
      "unat (SubtractFloored (hd_totalBuildCommittedGlobal h) (mr_buildPeakBytes ?r)) +
          unat (mr_buildPeakBytes ?r) = unat (hd_totalBuildCommittedGlobal h)"
      "unat (SubtractFloored (ws_residencyBytesCommitted entry) (contribution ?r)) +
          unat (contribution ?r) = unat (ws_residencyBytesCommitted entry)"
      by (simp_all add: SubtractFloored_le unat_sub_le word_le_nat_alt)
    from True consider (res) "mr_state ?r = SVS_MEM_RESERVED" | (reb) "mr_state ?r = SVS_MEM_REBUILDING"
      by blast
    then show ?thesis
    proof cases
      case res
      with step True i' sub show ?thesis
        by (auto simp: ReapReservationAt_def Let_def release_peak_always acct_defs
            intro!: mem_acct_step [OF acct e] entry_acct_at [OF ea(1) i'])
    next
      case reb
      with step True i' sub show ?thesis
        by (auto simp: ReapReservationAt_def Let_def release_peak_always acct_defs RestorePriorResidency_def
            intro!: mem_acct_step [OF acct e] entry_acct_at [OF ea(1) i'])
    qed
  next
    case False
    then have "(entry', h') = (entry, h)"
      using step unfolding ReapReservationAt_def Let_def by (simp split: if_split_asm)
    with acct show ?thesis by simp
  qed
qed

lemma ReapReservations_acct:
  assumes "mem_acct K B (put_entry h e entry)" and "e < length (hd_slots h)"
    and "\<forall>i \<in> set js. i < VAMANA_MAX_INDEXES"
    and "fold (ReapReservationAt env) js (entry, h) = (entry', h')"
  shows "mem_acct K B (put_entry h' e entry') \<and> hd_slots h' = hd_slots h"
  using assms
proof (induction js arbitrary: entry h)
  case (Cons i js)
  obtain entry1 h1 where step: "ReapReservationAt env i (entry, h) = (entry1, h1)" by force
  have "mem_acct K B (put_entry h1 e entry1)" "hd_slots h1 = hd_slots h"
    using ReapReservationAt_acct [OF Cons.prems(1,2) _ step] Cons.prems(3) by auto
  with Cons.IH [of h1 entry1] Cons.prems step show ?case by simp
qed simp

lemma ReapInsertAt_acct:
  assumes acct: "entry_acct k b entry" and i: "i < SVS_MAX_PENDING_INSERT_RESERVATIONS"
  shows "entry_acct k b (ReapInsertAt env i entry)"
proof -
  have i': "i < length (ws_insertReservations entry)" using acct i by (simp add: entry_acct_def)
  show ?thesis
    using acct i' pending_release [OF acct i']
    by (auto simp: ReapInsertAt_def Let_def pending_def intro!: entry_acct_insert [OF acct])
qed

lemma ReapInsertAt_simps [simp]:
  "ws_buildBytesCommitted (ReapInsertAt env i entry) = ws_buildBytesCommitted entry"
  "ws_residencyBudget (ReapInsertAt env i entry) = ws_residencyBudget entry"
  by (simp_all add: ReapInsertAt_def Let_def)

lemma ReapInserts_acct:
  assumes "entry_acct k b entry" and "\<forall>i \<in> set js. i < SVS_MAX_PENDING_INSERT_RESERVATIONS"
  shows "entry_acct k b (fold (ReapInsertAt env) js entry) \<and>
    ws_buildBytesCommitted (fold (ReapInsertAt env) js entry) = ws_buildBytesCommitted entry \<and>
    ws_residencyBudget (fold (ReapInsertAt env) js entry) = ws_residencyBudget entry"
  using assms by (induction js arbitrary: entry) (auto simp: ReapInsertAt_acct)

lemma ReapEntryReservations_acct:
  assumes acct: "mem_acct K B h" and e: "e < length (hd_slots h)"
  shows "mem_acct K B (ReapEntryReservations env e h)"
    and "length (hd_slots (ReapEntryReservations env e h)) = length (hd_slots h)"
proof -
  obtain entry h' where f: "fold (ReapReservationAt env) [0..<VAMANA_MAX_INDEXES] (hd_slots h ! e, h) = (entry, h')"
    by force
  have a: "mem_acct K B (put_entry h' e entry)" "hd_slots h' = hd_slots h"
    using ReapReservations_acct [OF _ e _ f] acct by auto
  have e': "e < length (hd_slots h')" using a e by simp
  note b = ReapInserts_acct [OF mem_acct_local(1) [OF a(1) e'],
      of "[0..<SVS_MAX_PENDING_INSERT_RESERVATIONS]" env]
  show "mem_acct K B (ReapEntryReservations env e h)"
    using b mem_acct_step [OF a(1) e' refl] by (auto simp: ReapEntryReservations_def f)
  show "length (hd_slots (ReapEntryReservations env e h)) = length (hd_slots h)"
    using a(2) by (simp add: ReapEntryReservations_def f)
qed

lemma ReapDeadReservations_acct:
  assumes "mem_acct K B h"
  shows "mem_acct K B (SvsMemoryReapDeadReservations env h)"
proof -
  have "mem_acct K B (fold (\<lambda>dbOid h. case VamanaWorkerLookupSlot h dbOid of
      None \<Rightarrow> h | Some e \<Rightarrow> ReapEntryReservations env e h) dbs h)" for dbs
    using assms
  proof (induction dbs arbitrary: h)
    case (Cons db dbs)
    then show ?case
      using VamanaWorkerFindSlot_SomeD(1) [of h db] ReapEntryReservations_acct(1) [of K B h]
      by (auto simp: VamanaWorkerLookupSlot_def split: option.split)
  qed simp
  then show ?thesis by (simp add: SvsMemoryReapDeadReservations_def)
qed

lemma DropResidentAt_acct:
  assumes acct: "entry_acct k b entry" and i: "i < VAMANA_MAX_INDEXES"
    and step: "DropResidentAt live i (dropped, entry) = (dropped', entry')"
  shows "entry_acct k b entry' \<and> ws_buildBytesCommitted entry' = ws_buildBytesCommitted entry \<and>
    ws_residencyBudget entry' = ws_residencyBudget entry"
proof -
  let ?r = "ws_reservations entry ! i"
  have i': "i < length (ws_reservations entry)" using acct i by (simp add: entry_acct_def)
  show ?thesis
  proof (cases "OidIsValid (mr_relid ?r) \<and> mr_state ?r = SVS_MEM_RESIDENT \<and> \<not> OidInArray (mr_relid ?r) live")
    case True
    have settled: "mr_buildPeakBytes ?r = 0"
      using acct i' True by (auto simp: entry_acct_def list_all_length peak_settled_def)
    have "unat (SubtractFloored (ws_residencyBytesCommitted entry) (mr_measuredBytes ?r)) +
        unat (mr_measuredBytes ?r) = unat (ws_residencyBytesCommitted entry)"
      using held_le_committed(1) [OF acct i'] True
      by (simp add: held_def contribution_def SubtractFloored_le unat_sub_le word_le_nat_alt)
    with settled step True i' show ?thesis
      by (auto simp: DropResidentAt_def Let_def acct_defs intro!: entry_acct_at [OF acct i'])
  next
    case False
    then have "entry' = entry"
      using step unfolding DropResidentAt_def Let_def by (simp split: if_split_asm)
    with acct show ?thesis by simp
  qed
qed

lemma DropResidents_acct:
  assumes "entry_acct k b entry" and "\<forall>i \<in> set js. i < VAMANA_MAX_INDEXES"
    and "fold (DropResidentAt live) js (dropped, entry) = (dropped', entry')"
  shows "entry_acct k b entry' \<and> ws_buildBytesCommitted entry' = ws_buildBytesCommitted entry \<and>
    ws_residencyBudget entry' = ws_residencyBudget entry"
  using assms
proof (induction js arbitrary: dropped entry)
  case (Cons i js)
  obtain dropped1 entry1 where step: "DropResidentAt live i (dropped, entry) = (dropped1, entry1)" by force
  note one = DropResidentAt_acct [OF Cons.prems(1) _ step]
  have "fold (DropResidentAt live) js (dropped1, entry1) = (dropped', entry')"
    using Cons.prems(3) step by simp
  with Cons.IH [of entry1 dropped1] one Cons.prems(2) show ?case by simp
qed simp

lemma ReconcileResidentReservations_acct:
  assumes acct: "mem_acct K B h"
  shows "mem_acct K B (snd (SvsMemoryReconcileResidentReservations dbOid live h))"
  using acct
proof (cases rule: locate_entry [where dbOid = dbOid])
  case (entry e)
  obtain dropped entry' where f:
    "fold (DropResidentAt live) [0..<VAMANA_MAX_INDEXES] ([], hd_slots h ! e) = (dropped, entry')" by force
  from DropResidents_acct [OF entry(3) _ f] entry show ?thesis
    by (auto simp: SvsMemoryReconcileResidentReservations_def f intro!: mem_acct_put_entry [OF acct])
qed (simp add: SvsMemoryReconcileResidentReservations_def acct)

lemma SeedDurableResidency_acct:
  assumes acct: "mem_acct K B h" and relid: "OidIsValid relid" and room: "room h dbOid durable"
  shows "mem_acct K B (snd (SvsMemorySeedDurableResidency env dbOid relid durable h))"
  using acct
proof (cases rule: locate_entry [where dbOid = dbOid])
  case (entry e)
  show ?thesis
  proof (cases "FindReservation (hd_slots h ! e) relid")
    case None
    then have "reservation_state h dbOid relid \<noteq> Some SVS_MEM_RESERVED"
      using entry(1) by (simp add: reservation_state_def Lookup_Inr)
    from ReconcileLoad_acct [OF acct relid room this, of env 0] entry None show ?thesis
      by (cases "SvsMemoryReconcileLoad env dbOid relid durable 0 h")
        (auto simp: SvsMemorySeedDurableResidency_def split: sum.split)
  qed (use entry acct in \<open>simp add: SvsMemorySeedDurableResidency_def\<close>)
qed (simp add: SvsMemorySeedDurableResidency_def acct)

section \<open>Admission and release of a database\<close>

lemma budget_replace:
  assumes "mem_acct K B h" and "e < length (hd_slots h)"
    and "unat (hd_totalResidencyCommittedGlobal h) + unat budget < 2 ^ 64"
  shows "unat (SubtractFloored (hd_totalResidencyCommittedGlobal h) (ws_residencyBudget (hd_slots h ! e)) + budget) +
      unat (ws_residencyBudget (hd_slots h ! e)) =
    unat (hd_totalResidencyCommittedGlobal h) + unat budget"
  using build_le_total(2) [OF assms(1,2)] assms(3)
  by (simp add: SubtractFloored_le unat_replace word_le_nat_alt)

lemma AdmitDatabase_acct:
  assumes acct: "mem_acct K B h" and wrap: "no_wrap (hd_totalResidencyCommittedGlobal h) budget"
  shows "mem_acct K B (snd (SvsMemoryAdmitDatabase g dbOid budget durable h))"
  using acct
proof (cases rule: locate_entry [where dbOid = dbOid])
  case (entry e)
  then show ?thesis
    using acct budget_replace [OF acct entry(2), of budget] wrap entry_acct_cong [OF entry(3)]
    by (auto simp: SvsMemoryAdmitDatabase_def Let_def no_wrap_def intro!: mem_acct_put_entry [OF acct])
qed (simp add: SvsMemoryAdmitDatabase_def acct)

definition real_usage :: "VamanaWorkerShmemHeader \<Rightarrow> oid \<Rightarrow> u64" where
  "real_usage h dbOid =
     (case VamanaWorkerLookupSlot h dbOid of
        None \<Rightarrow> 0
      | Some e \<Rightarrow> ws_residencyBytesCommitted (hd_slots h ! e) + SumReclaimableBytes (hd_slots h ! e))"

lemma RestoreResidencyBudget_acct:
  assumes acct: "mem_acct K B h"
    and wrap: "no_wrap (hd_totalResidencyCommittedGlobal h) (max prior (real_usage h dbOid))"
  shows "mem_acct K B (SvsMemoryRestoreResidencyBudget dbOid prior h)"
  using acct
proof (cases rule: locate_entry [where dbOid = dbOid])
  case (entry e)
  then show ?thesis
    using wrap budget_replace [OF acct entry(2), of "max prior (real_usage h dbOid)"]
      entry_acct_cong [OF entry(3)]
    by (auto simp: SvsMemoryRestoreResidencyBudget_def Let_def no_wrap_def real_usage_def Lookup_Inr
        intro!: mem_acct_put_entry [OF acct])
qed (simp add: SvsMemoryRestoreResidencyBudget_def acct Lookup_Inr(2))

lemma ResetDatabaseAccounting_acct:
  assumes acct: "mem_acct K B h" and e: "e < length (hd_slots h)"
    and entry: "ws_reservations entry = ws_reservations (hd_slots h ! e)"
      "ws_insertReservations entry = ws_insertReservations (hd_slots h ! e)"
      "ws_residencyBytesCommitted entry = ws_residencyBytesCommitted (hd_slots h ! e)"
      "ws_buildBytesCommitted entry = ws_buildBytesCommitted (hd_slots h ! e)"
      "ws_residencyBudget entry = ws_residencyBudget (hd_slots h ! e)"
    and res: "SvsMemoryResetDatabaseAccounting (entry, h) = (entry', h')"
  shows "mem_acct (K(e := 0)) (B(e := 0)) (put_entry h' e entry')"
proof -
  have "entry_acct 0 0 entry'"
    using mem_acct_entry [OF acct e] res entry
    by (auto simp: SvsMemoryResetDatabaseAccounting_def entry_acct_def residency_held_def peaks_held_def
        held_def peak_def pending_def peak_settled_def list_all_length comp_def sum_list_all_zero)
  moreover note build_le_total [OF acct e]
  ultimately show ?thesis
    using res entry e
    by (intro mem_acct_put [OF acct e, where entry' = entry'])
      (auto simp: SvsMemoryResetDatabaseAccounting_def SubtractFloored_le unat_sub_le word_le_nat_alt)
qed

section \<open>Operations outside the accounting\<close>

lemma RecheckSearchScratchOptions_acct:
  assumes acct: "mem_acct K B h"
  shows "mem_acct K B (SvsMemoryRecheckSearchScratchOptions dbOid relid win hist h)"
  using acct
proof (cases rule: locate_entry [where dbOid = dbOid])
  case (entry e)
  with acct FindReservation_SomeD(1) [of "hd_slots h ! e" relid] show ?thesis
    by (auto simp: SvsMemoryRecheckSearchScratchOptions_def Lookup_Inr Let_def split: option.split
        intro!: mem_acct_put_entry [OF acct] entry_acct_unread)
qed (simp add: SvsMemoryRecheckSearchScratchOptions_def acct Lookup_Inr(2))

lemma SetSearchScratchBytesPerQuery_acct:
  assumes acct: "mem_acct K B h"
  shows "mem_acct K B (SvsMemorySetSearchScratchBytesPerQuery dbOid relid bytes h)"
  using acct
proof (cases rule: locate_entry [where dbOid = dbOid])
  case (entry e)
  with acct FindReservation_SomeD(1) [of "hd_slots h ! e" relid] show ?thesis
    by (auto simp: SvsMemorySetSearchScratchBytesPerQuery_def Lookup_Inr Let_def split: option.split
        intro!: mem_acct_put_entry [OF acct] entry_acct_unread)
qed (simp add: SvsMemorySetSearchScratchBytesPerQuery_def acct Lookup_Inr(2))

lemma SearchScratch_acct:
  assumes acct: "mem_acct K B h"
  shows "mem_acct K B (snd (SvsMemoryReserveSearchScratch g dbOid batch h))"
    and "mem_acct K B (snd (SvsMemoryReleaseSearchScratch dbOid batch h))"
proof -
  have put: "mem_acct K B (put_entry h e ((hd_slots h ! e)\<lparr>ws_searchScratchBytesInFlight := v\<rparr>))"
    if "e < length (hd_slots h)" for e v
    using entry_acct_cong [OF mem_acct_entry [OF acct that]] that
    by (intro mem_acct_put_entry [OF acct]) simp_all
  show "mem_acct K B (snd (SvsMemoryReserveSearchScratch g dbOid batch h))"
    "mem_acct K B (snd (SvsMemoryReleaseSearchScratch dbOid batch h))"
    using acct put LookupEntryOrError_InrD(1) [of h dbOid]
    by (auto simp: SvsMemoryReserveSearchScratch_def SvsMemoryReleaseSearchScratch_def Let_def
        split: sum.split option.split)
qed

end
