(* ===== verification/Pending_Array.thy ===== *)
theory Pending_Array
  imports Svs_Prelude
begin

text \<open>
  \<open>vamana_subxid_pending_array.c\<close>: the transaction-scoped array whose elements are tagged with
  the subtransaction that appended them.  Elements of a rolled back subtransaction stay in place
  with the invalid tag; elements of a released one move to its parent.
\<close>

type_synonym subxid = "32 word"

abbreviation InvalidSubTransactionId :: subxid where
  "InvalidSubTransactionId \<equiv> 0"

definition INT_MAX :: int where "INT_MAX = 2 ^ 31 - 1"

text \<open>\<open>entries\<close> holds the first \<open>count\<close> elements with their tags; \<open>capacity\<close> is the room allocated.\<close>

record 'a VamanaSubxidPendingArray =
  pa_entries :: "('a \<times> subxid) list"
  pa_capacity :: int

definition pa_count :: "'a VamanaSubxidPendingArray \<Rightarrow> int" where
  "pa_count array = int (length (pa_entries array))"

definition VamanaSubxidPendingArrayCreate :: "int \<Rightarrow> 'a VamanaSubxidPendingArray" where
  "VamanaSubxidPendingArrayCreate initialCapacity = \<lparr>pa_entries = [], pa_capacity = initialCapacity\<rparr>"

definition VamanaSubxidPendingArrayEnsureSpace ::
    "'a VamanaSubxidPendingArray \<Rightarrow> int \<Rightarrow> errcode + 'a VamanaSubxidPendingArray" where
  "VamanaSubxidPendingArrayEnsureSpace array maxCount =
     (if pa_count array < pa_capacity array then Inr array
      else if pa_capacity array > c_div INT_MAX 2 then Inl ERRCODE_INTERNAL_ERROR
      else
        let newCapacity = pa_capacity array * 2
        in Inr (array\<lparr>pa_capacity := (if newCapacity > maxCount then maxCount else newCapacity)\<rparr>))"

text \<open>The caller fills the new element in at once, so it is an argument here.\<close>

definition VamanaSubxidPendingArrayAppend ::
    "subxid \<Rightarrow> 'a \<Rightarrow> 'a VamanaSubxidPendingArray \<Rightarrow> errcode + 'a VamanaSubxidPendingArray" where
  "VamanaSubxidPendingArrayAppend currentSubxid x array =
     (case VamanaSubxidPendingArrayEnsureSpace array INT_MAX of
        Inl err \<Rightarrow> Inl err
      | Inr array \<Rightarrow> Inr (array\<lparr>pa_entries := pa_entries array @ [(x, currentSubxid)]\<rparr>))"

definition VamanaSubxidPendingArrayHasLiveEntries :: "'a VamanaSubxidPendingArray \<Rightarrow> bool" where
  "VamanaSubxidPendingArrayHasLiveEntries array =
     list_ex (\<lambda>(x, s). s \<noteq> InvalidSubTransactionId) (pa_entries array)"

definition ReplaceMatchingSubxid ::
    "'a VamanaSubxidPendingArray \<Rightarrow> subxid \<Rightarrow> subxid \<Rightarrow> 'a VamanaSubxidPendingArray" where
  "ReplaceMatchingSubxid array mySubid replacement =
     array\<lparr>pa_entries := map (\<lambda>(x, s). (x, if s = mySubid then replacement else s)) (pa_entries array)\<rparr>"

definition VamanaSubxidPendingArrayPruneAbortedSubxact ::
    "'a VamanaSubxidPendingArray \<Rightarrow> subxid \<Rightarrow> 'a VamanaSubxidPendingArray" where
  "VamanaSubxidPendingArrayPruneAbortedSubxact array mySubid =
     ReplaceMatchingSubxid array mySubid InvalidSubTransactionId"

definition VamanaSubxidPendingArrayReparentSubxact ::
    "'a VamanaSubxidPendingArray \<Rightarrow> subxid \<Rightarrow> subxid \<Rightarrow> 'a VamanaSubxidPendingArray" where
  "VamanaSubxidPendingArrayReparentSubxact array mySubid parentSubid =
     ReplaceMatchingSubxid array mySubid parentSubid"

section \<open>Capacity\<close>

text \<open>The elements always fit the memory allocated for them.\<close>

definition capacity_ok :: "'a VamanaSubxidPendingArray \<Rightarrow> bool" where
  "capacity_ok array \<longleftrightarrow> 0 < pa_capacity array \<and> pa_capacity array \<le> INT_MAX \<and>
     pa_count array \<le> pa_capacity array"

lemma EnsureSpace_room:
  assumes "capacity_ok array" and "VamanaSubxidPendingArrayEnsureSpace array maxCount = Inr array'"
    and "pa_count array < maxCount" and "maxCount \<le> INT_MAX"
  shows "capacity_ok array' \<and> pa_count array' < pa_capacity array' \<and> pa_entries array' = pa_entries array"
  using assms
  by (auto simp: VamanaSubxidPendingArrayEnsureSpace_def capacity_ok_def pa_count_def Let_def
      split: if_splits)

lemma Append_capacity:
  assumes "capacity_ok array" and "VamanaSubxidPendingArrayAppend s x array = Inr array'"
    and "pa_count array < INT_MAX"
  shows "capacity_ok array'"
proof -
  obtain a where a: "VamanaSubxidPendingArrayEnsureSpace array INT_MAX = Inr a"
    "array' = a\<lparr>pa_entries := pa_entries a @ [(x, s)]\<rparr>"
    using assms(2) by (auto simp: VamanaSubxidPendingArrayAppend_def split: sum.splits)
  from EnsureSpace_room [OF assms(1) a(1) assms(3)] a(2) show ?thesis
    by (auto simp: capacity_ok_def pa_count_def)
qed

section \<open>Savepoints\<close>

text \<open>
  What the array has to implement: a stack with one list of elements per open (sub)transaction,
  the innermost first.  Releasing a savepoint appends its elements to the parent's; rolling back
  drops them.
\<close>

datatype 'a savepoint_event = Append 'a | BeginSub subxid | CommitSub | AbortSub

type_synonym 'a savepoint_stack = "(subxid \<times> 'a list) list"

fun spec_step :: "'a savepoint_event \<Rightarrow> 'a savepoint_stack \<Rightarrow> 'a savepoint_stack" where
  "spec_step (Append x) ((s, xs) # rest) = (s, xs @ [x]) # rest"
| "spec_step (BeginSub s) stack = (s, []) # stack"
| "spec_step CommitSub ((s, xs) # (p, ys) # rest) = (p, ys @ xs) # rest"
| "spec_step AbortSub ((s, xs) # (p, ys) # rest) = (p, ys) # rest"
| "spec_step _ stack = stack"

text \<open>
  The same events against the array: the open subtransactions are the server's, and on the end of
  one it calls the extension back with its identifier and its parent's.
\<close>

fun array_step ::
    "'a savepoint_event \<Rightarrow> subxid list \<times> 'a VamanaSubxidPendingArray
     \<Rightarrow> errcode + subxid list \<times> 'a VamanaSubxidPendingArray" where
  "array_step (Append x) (s # rest, array) =
     (case VamanaSubxidPendingArrayAppend s x array of
        Inl err \<Rightarrow> Inl err
      | Inr array' \<Rightarrow> Inr (s # rest, array'))"
| "array_step (BeginSub s) (subs, array) = Inr (s # subs, array)"
| "array_step CommitSub (s # p # rest, array) =
     Inr (p # rest, VamanaSubxidPendingArrayReparentSubxact array s p)"
| "array_step AbortSub (s # p # rest, array) =
     Inr (p # rest, VamanaSubxidPendingArrayPruneAbortedSubxact array s)"
| "array_step _ st = Inr st"

definition live_entries :: "'a VamanaSubxidPendingArray \<Rightarrow> ('a \<times> subxid) list" where
  "live_entries array = filter (\<lambda>(x, s). s \<noteq> InvalidSubTransactionId) (pa_entries array)"

definition tagged :: "'a savepoint_stack \<Rightarrow> ('a \<times> subxid) list" where
  "tagged stack = concat (map (\<lambda>(s, xs). map (\<lambda>x. (x, s)) xs) (rev stack))"

definition represents :: "subxid list \<times> 'a VamanaSubxidPendingArray \<Rightarrow> 'a savepoint_stack \<Rightarrow> bool" where
  "represents st stack \<longleftrightarrow> fst st = map fst stack \<and> distinct (map fst stack) \<and>
     InvalidSubTransactionId \<notin> fst ` set stack \<and> live_entries (snd st) = tagged stack"

text \<open>The server never reuses a subtransaction identifier.\<close>

fun event_ok :: "'a savepoint_event \<Rightarrow> subxid list \<Rightarrow> bool" where
  "event_ok (BeginSub s) subs = (s \<noteq> InvalidSubTransactionId \<and> s \<notin> set subs)"
| "event_ok _ subs = True"

lemma tagged_Cons: "tagged ((s, xs) # rest) = tagged rest @ map (\<lambda>x. (x, s)) xs"
  by (simp add: tagged_def)

lemma tagged_tags: "snd ` set (tagged stack) \<subseteq> fst ` set stack"
  by (force simp: tagged_def)

lemma live_Replace_other:
  assumes "t \<noteq> InvalidSubTransactionId" and "s \<noteq> InvalidSubTransactionId"
  shows "live_entries (ReplaceMatchingSubxid array s t) =
    map (\<lambda>(x, u). (x, if u = s then t else u)) (live_entries array)"
  using assms by (auto simp: live_entries_def ReplaceMatchingSubxid_def filter_map comp_def
      case_prod_unfold intro!: arg_cong [of _ _ "map _"] filter_cong)

lemma live_Replace_invalid:
  "live_entries (ReplaceMatchingSubxid array s InvalidSubTransactionId) =
    filter (\<lambda>(x, u). u \<noteq> s) (live_entries array)"
proof -
  have "filter (\<lambda>(x, s). s \<noteq> InvalidSubTransactionId)
      (map (\<lambda>(x, u). (x, if u = s then InvalidSubTransactionId else u)) es) =
    filter (\<lambda>(x, u). u \<noteq> s) (filter (\<lambda>(x, s). s \<noteq> InvalidSubTransactionId) es)" for es :: "('a \<times> subxid) list"
    by (induction es) auto
  then show ?thesis by (simp add: live_entries_def ReplaceMatchingSubxid_def)
qed

lemma map_retag_id: "s \<notin> snd ` set es \<Longrightarrow> map (\<lambda>(x, u). (x, if u = s then t else u)) es = es"
  by (induction es) auto

lemma filter_tag_id: "s \<notin> snd ` set es \<Longrightarrow> filter (\<lambda>(x, u). u \<noteq> s) es = es"
  by (induction es) auto

lemma array_step_represents:
  assumes "represents st stack" and "event_ok ev (fst st)" and "stack \<noteq> []"
    and "array_step ev st = Inr st'"
  shows "represents st' (spec_step ev stack)" and "spec_step ev stack \<noteq> []"
proof -
  obtain s xs rest where stack: "stack = (s, xs) # rest" using assms(3) by (cases stack) auto
  obtain subs array where st: "st = (subs, array)" by force
  have rep: "subs = s # map fst rest" "distinct (s # map fst rest)" "s \<noteq> InvalidSubTransactionId"
    "InvalidSubTransactionId \<notin> fst ` set rest" "live_entries array = tagged rest @ map (\<lambda>x. (x, s)) xs"
    using assms(1) by (auto simp: represents_def stack st tagged_Cons)
  have fresh: "s \<notin> snd ` set (tagged rest)"
    using rep(2) tagged_tags [of rest] by auto
  have "represents st' (spec_step ev stack) \<and> spec_step ev stack \<noteq> []"
  proof (cases ev)
    case (Append x)
    then obtain array' where ap: "VamanaSubxidPendingArrayAppend s x array = Inr array'" "st' = (subs, array')"
      using assms(4) by (auto simp: st rep(1) split: sum.splits)
    have "pa_entries array' = pa_entries array @ [(x, s)]"
      using ap(1) by (auto simp: VamanaSubxidPendingArrayAppend_def VamanaSubxidPendingArrayEnsureSpace_def
          Let_def split: sum.splits if_splits)
    with Append ap rep show ?thesis
      by (auto simp: represents_def stack live_entries_def tagged_Cons)
  next
    case (BeginSub t)
    with assms(2,4) rep show ?thesis
      by (auto simp: represents_def stack st tagged_Cons)
  next
    case CommitSub
    show ?thesis
    proof (cases rest)
      case (Cons p rest')
      obtain pid ys where p: "p = (pid, ys)" by force
      have "live_entries (VamanaSubxidPendingArrayReparentSubxact array s pid) =
          tagged ((pid, ys @ xs) # rest')"
        using rep fresh map_retag_id [OF fresh, of pid]
        by (simp add: VamanaSubxidPendingArrayReparentSubxact_def live_Replace_other Cons p tagged_Cons comp_def)
      with CommitSub assms(4) rep show ?thesis
        by (auto simp: represents_def stack st Cons p)
    qed (use CommitSub assms(4) rep st stack in \<open>auto simp: represents_def tagged_Cons\<close>)
  next
    case AbortSub
    show ?thesis
    proof (cases rest)
      case (Cons p rest')
      obtain pid ys where p: "p = (pid, ys)" by force
      have "live_entries (VamanaSubxidPendingArrayPruneAbortedSubxact array s) = tagged rest"
        using rep filter_tag_id [OF fresh]
        by (simp add: VamanaSubxidPendingArrayPruneAbortedSubxact_def live_Replace_invalid filter_empty_conv)
      with AbortSub assms(4) rep show ?thesis
        by (auto simp: represents_def stack st Cons p)
    qed (use AbortSub assms(4) rep st stack in \<open>auto simp: represents_def tagged_Cons\<close>)
  qed
  then show "represents st' (spec_step ev stack)" and "spec_step ev stack \<noteq> []" by auto
qed

text \<open>What a client of the array relies on, and what follows for whole transactions.\<close>

fun events_ok :: "'a savepoint_event list \<Rightarrow> 'a savepoint_stack \<Rightarrow> bool" where
  "events_ok [] stack = True"
| "events_ok (ev # evs) stack = (event_ok ev (map fst stack) \<and> events_ok evs (spec_step ev stack))"

fun run_events :: "('e \<Rightarrow> 's \<Rightarrow> errcode + 's) \<Rightarrow> 'e list \<Rightarrow> 's \<Rightarrow> errcode + 's" where
  "run_events step [] st = Inr st"
| "run_events step (ev # evs) st =
     (case step ev st of Inl err \<Rightarrow> Inl err | Inr st' \<Rightarrow> run_events step evs st')"

definition spec_live :: "'a savepoint_stack \<Rightarrow> 'a list" where
  "spec_live stack = concat (map snd (rev stack))"

locale savepoint_log =
  fixes step :: "'a savepoint_event \<Rightarrow> 's \<Rightarrow> errcode + 's"
    and rel :: "'s \<Rightarrow> 'a savepoint_stack \<Rightarrow> bool"
    and live :: "'s \<Rightarrow> 'a list"
  assumes step_rel: "\<lbrakk>rel st stack; stack \<noteq> []; event_ok ev (map fst stack); step ev st = Inr st'\<rbrakk> \<Longrightarrow>
      rel st' (spec_step ev stack) \<and> spec_step ev stack \<noteq> []"
    and live_rel: "rel st stack \<Longrightarrow> live st = spec_live stack"
begin

lemma run_refines:
  assumes "rel st stack" and "stack \<noteq> []" and "events_ok evs stack" and "run_events step evs st = Inr st'"
  shows "rel st' (fold spec_step evs stack) \<and> fold spec_step evs stack \<noteq> []"
  using assms
proof (induction evs arbitrary: st stack)
  case (Cons ev evs)
  then obtain st1 where one: "step ev st = Inr st1" "run_events step evs st1 = Inr st'"
    by (auto split: sum.splits)
  from step_rel [OF Cons.prems(1,2) _ one(1)] Cons.prems(3)
  have "rel st1 (spec_step ev stack)" "spec_step ev stack \<noteq> []" by auto
  with Cons.IH [OF _ _ _ one(2)] Cons.prems(3) show ?case by simp
qed simp

lemma run_live:
  assumes "rel st stack" and "stack \<noteq> []" and "events_ok evs stack" and "run_events step evs st = Inr st'"
  shows "live st' = spec_live (fold spec_step evs stack)"
  using run_refines [OF assms] live_rel by blast

end

lemma represents_live:
  assumes "represents st stack"
  shows "map fst (live_entries (snd st)) = spec_live stack"
proof -
  have "map fst (concat (map (\<lambda>(s, xs). map (\<lambda>x. (x, s)) xs) l)) = concat (map snd l)" for l :: "(subxid \<times> 'a list) list"
    by (induction l) (auto simp: comp_def)
  with assms show ?thesis by (simp add: represents_def tagged_def spec_live_def)
qed

interpretation pending_array: savepoint_log array_step represents "\<lambda>st. map fst (live_entries (snd st))"
proof
  fix st stack st' and ev :: "'a savepoint_event"
  assume a: "represents st stack" "stack \<noteq> []" "event_ok ev (map fst stack)" "array_step ev st = Inr st'"
  then have "event_ok ev (fst st)" by (simp add: represents_def)
  from array_step_represents [OF a(1) this a(2,4)]
  show "represents st' (spec_step ev stack) \<and> spec_step ev stack \<noteq> []" by simp
qed (rule represents_live)

text \<open>
  C23: a transaction with savepoints. Whatever appends, savepoints, releases and rollbacks it
  makes, the elements the array still counts as live at the end, in their order, are exactly
  those of a stack of savepoints: everything a rolled back savepoint queued is gone, everything a
  released one queued belongs to its parent.
\<close>

theorem pending_array_savepoints:
  assumes "run_events array_step evs ([topSub], VamanaSubxidPendingArrayCreate capacity) = Inr (subs, array)"
    and "events_ok evs [(topSub, [])]" and "topSub \<noteq> InvalidSubTransactionId"
  shows "map fst (live_entries array) = spec_live (fold spec_step evs [(topSub, [])])"
proof -
  have "represents ([topSub], VamanaSubxidPendingArrayCreate capacity) [(topSub, [])]"
    using assms(3) by (simp add: represents_def live_entries_def VamanaSubxidPendingArrayCreate_def tagged_def)
  from pending_array.run_live [OF this _ assms(2,1)] show ?thesis by simp
qed

definition demo_events :: "nat savepoint_event list" where
  "demo_events = [Append 1, BeginSub 2, Append 2, BeginSub 3, Append 3, AbortSub, Append 4, CommitSub, Append 5]"

theorem pending_array_savepoints_witness:
  "\<exists>subs array. run_events array_step demo_events ([1], VamanaSubxidPendingArrayCreate 2) = Inr (subs, array) \<and>
     map fst (live_entries array) = [1, 2, 4, 5]"
proof -
  obtain subs array where run:
    "run_events array_step demo_events ([1], VamanaSubxidPendingArrayCreate 2) = Inr (subs, array)"
    by (simp add: demo_events_def VamanaSubxidPendingArrayCreate_def VamanaSubxidPendingArrayAppend_def
        VamanaSubxidPendingArrayEnsureSpace_def pa_count_def INT_MAX_def c_div_def
        VamanaSubxidPendingArrayPruneAbortedSubxact_def VamanaSubxidPendingArrayReparentSubxact_def
        ReplaceMatchingSubxid_def)
  have "events_ok demo_events [(1, [])]" by (simp add: demo_events_def)
  from pending_array_savepoints [OF run this] run show ?thesis
    by (simp add: demo_events_def spec_live_def)
qed

end
