(* ===== verification/Worker_Shmem.thy ===== *)
theory Worker_Shmem
  imports Memory_Ops Pending_Array
begin

text \<open>
  \<open>vamanaworkershmem.c\<close>: construction, reservation and release of the control blocks, the
  launcher's per-database bookkeeping, the live-index counter, the slot-drop queue, the index-lock
  table, the error codec of the request slots and the layout of the slot region.
\<close>

section \<open>Construction and reset\<close>

definition zero_entry :: VamanaWorkerShmem where
  "zero_entry =
     \<lparr>ws_dbOid = InvalidOid, ws_generation = 0, ws_workerPid = 0, ws_accepting = False,
      ws_reloadRequests = replicate VAMANA_MAX_RELOAD_QUEUE InvalidOid, ws_evict_all = False,
      ws_pendingSlotDrops = replicate VAMANA_MAX_SLOT_DROP_QUEUE InvalidOid, ws_heartbeat_ts = 0,
      ws_dbEnabled = False, ws_stopRequested = False, ws_servicedRestartGeneration = 0,
      ws_indexCount = 0, ws_desiredSearchThreads = 0, ws_grantedSearchThreads = 0,
      ws_reservedSearchThreads = 0, ws_registeredSearchSlots = 0,
      ws_buildRequests = replicate SVS_MAX_PENDING_BUILDS zero_build_request,
      ws_backoff = \<lparr>last_attempt_time = 0, consecutive_failures = 0\<rparr>,
      ws_indexLocks = replicate VAMANA_MAX_INDEXES InvalidOid, ws_residencyBudget = 0,
      ws_residencyBytesCommitted = 0, ws_buildBytesCommitted = 0, ws_nextResidentGeneration = 0,
      ws_searchScratchBytesInFlight = 0,
      ws_reservations = replicate VAMANA_MAX_INDEXES zero_reservation,
      ws_insertReservations = replicate SVS_MAX_PENDING_INSERT_RESERVATIONS zero_insert_reservation,
      ws_residencyMemoryMbOverride = 0, ws_searchWorkMemMbOverride = 0, ws_slots = []\<rparr>"

definition VamanaWorkerResetEntryState ::
    "VamanaWorkerShmem \<times> VamanaWorkerShmemHeader \<Rightarrow> VamanaWorkerShmem \<times> VamanaWorkerShmemHeader" where
  "VamanaWorkerResetEntryState = (\<lambda>(entry, h).
     SvsMemoryResetDatabaseAccounting
       (entry\<lparr>ws_workerPid := 0,
              ws_backoff := \<lparr>last_attempt_time = 0, consecutive_failures = 0\<rparr>,
              ws_accepting := False, ws_evict_all := False, ws_heartbeat_ts := 0,
              ws_dbEnabled := True, ws_stopRequested := False, ws_servicedRestartGeneration := 0,
              ws_indexCount := 0, ws_desiredSearchThreads := 0, ws_grantedSearchThreads := 0,
              ws_reservedSearchThreads := 0, ws_registeredSearchSlots := 0,
              ws_reloadRequests := replicate VAMANA_MAX_RELOAD_QUEUE InvalidOid,
              ws_buildRequests := replicate SVS_MAX_PENDING_BUILDS zero_build_request,
              ws_pendingSlotDrops := replicate VAMANA_MAX_SLOT_DROP_QUEUE InvalidOid,
              ws_indexLocks := replicate VAMANA_MAX_INDEXES InvalidOid,
              ws_slots := map (\<lambda>s. s\<lparr>sl_status := VAMANA_SLOT_EMPTY\<rparr>) (ws_slots entry),
              ws_residencyMemoryMbOverride := 0, ws_searchWorkMemMbOverride := 0\<rparr>, h))"

definition VamanaWorkerInitSlot ::
    "nat \<Rightarrow> VamanaWorkerShmem \<times> VamanaWorkerShmemHeader \<Rightarrow> VamanaWorkerShmem \<times> VamanaWorkerShmemHeader" where
  "VamanaWorkerInitSlot MaxBackends = (\<lambda>(entry, h).
     VamanaWorkerResetEntryState
       (entry\<lparr>ws_dbOid := InvalidOid, ws_slots := replicate MaxBackends zero_slot\<rparr>, h))"

text \<open>The first attach (\<open>found\<close> false): zeroed memory, then every slot constructed in turn.\<close>

definition VamanaWorkerShmemStartup :: "nat \<Rightarrow> nat \<Rightarrow> VamanaWorkerShmemHeader" where
  "VamanaWorkerShmemStartup max_vamana_databases MaxBackends =
     fold (\<lambda>db h. let (entry, h') = VamanaWorkerInitSlot MaxBackends (hd_slots h ! db, h)
                   in put_entry h' db entry)
       [0..<max_vamana_databases]
       \<lparr>hd_numActive = 0, hd_initialScanDone = False, hd_launcherPid = 0,
        hd_totalResidencyCommittedGlobal = 0, hd_totalBuildCommittedGlobal = 0,
        hd_slots = replicate max_vamana_databases zero_entry\<rparr>"

section \<open>Reservation and release\<close>

definition VamanaWorkerForEachReserved ::
    "(VamanaWorkerShmem \<Rightarrow> 'c \<Rightarrow> 'c) \<Rightarrow> 'c \<Rightarrow> VamanaWorkerShmemHeader \<Rightarrow> 'c" where
  "VamanaWorkerForEachReserved cb ctx h =
     fold (\<lambda>entry ctx. if OidIsValid (ws_dbOid entry) then cb entry ctx else ctx) (hd_slots h) ctx"

text \<open>The callback changes the block and the context; the result tells whether there was a block.\<close>

definition VamanaWorkerWithEntry ::
    "oid \<Rightarrow> (VamanaWorkerShmem \<Rightarrow> 'c \<Rightarrow> VamanaWorkerShmem \<times> 'c) \<Rightarrow> 'c \<Rightarrow> VamanaWorkerShmemHeader
     \<Rightarrow> bool \<times> 'c \<times> VamanaWorkerShmemHeader" where
  "VamanaWorkerWithEntry dbOid cb ctx h =
     (case VamanaWorkerFindSlot h dbOid of
        None \<Rightarrow> (False, ctx, h)
      | Some e \<Rightarrow> let (entry, ctx') = cb (hd_slots h ! e) ctx in (True, ctx', put_entry h e entry))"

text \<open>The result is the position of the block and \<open>created\<close>; no position when the array is full.\<close>

definition VamanaWorkerReserveSlot ::
    "oid \<Rightarrow> VamanaWorkerShmemHeader \<Rightarrow> (nat option \<times> bool) \<times> VamanaWorkerShmemHeader" where
  "VamanaWorkerReserveSlot dbOid h =
     (case VamanaWorkerFindSlot h dbOid of
        Some e \<Rightarrow> ((Some e, False), h)
      | None \<Rightarrow>
          (case VamanaWorkerFindSlot h InvalidOid of
             None \<Rightarrow> ((None, False), h)
           | Some e \<Rightarrow>
               let entry = hd_slots h ! e
               in ((Some e, True),
                   put_entry (h\<lparr>hd_numActive := hd_numActive h + 1\<rparr>) e
                     (entry\<lparr>ws_dbOid := dbOid, ws_generation := ws_generation entry + 1\<rparr>))))"

definition VamanaWorkerReleaseSlot :: "oid \<Rightarrow> VamanaWorkerShmemHeader \<Rightarrow> VamanaWorkerShmemHeader" where
  "VamanaWorkerReleaseSlot dbOid h =
     (case VamanaWorkerFindSlot h dbOid of
        None \<Rightarrow> h
      | Some e \<Rightarrow>
          let entry = hd_slots h ! e;
              (entry', h') = VamanaWorkerResetEntryState
                (entry\<lparr>ws_dbOid := InvalidOid, ws_generation := ws_generation entry + 1\<rparr>, h)
          in put_entry (h'\<lparr>hd_numActive := hd_numActive h' - 1\<rparr>) e entry')"

definition VamanaWorkerClearDeadEntry :: "oid \<Rightarrow> VamanaWorkerShmemHeader \<Rightarrow> VamanaWorkerShmemHeader" where
  "VamanaWorkerClearDeadEntry dbOid h =
     (case VamanaWorkerFindSlot h dbOid of
        None \<Rightarrow> h
      | Some e \<Rightarrow> put_entry h e
          ((hd_slots h ! e)\<lparr>ws_workerPid := 0, ws_heartbeat_ts := 0, ws_registeredSearchSlots := 0\<rparr>))"

definition SvsSetLauncherPid :: "pid \<Rightarrow> VamanaWorkerShmemHeader \<Rightarrow> VamanaWorkerShmemHeader" where
  "SvsSetLauncherPid pid h = h\<lparr>hd_launcherPid := pid\<rparr>"

definition VamanaWorkerSetInitialScanDone :: "VamanaWorkerShmemHeader \<Rightarrow> VamanaWorkerShmemHeader" where
  "VamanaWorkerSetInitialScanDone h = h\<lparr>hd_initialScanDone := True\<rparr>"

definition VamanaWorkerInitialScanDone :: "VamanaWorkerShmemHeader \<Rightarrow> bool" where
  "VamanaWorkerInitialScanDone h = hd_initialScanDone h"

definition VamanaWorkerSlotsExhausted :: "VamanaWorkerShmemHeader \<Rightarrow> bool" where
  "VamanaWorkerSlotsExhausted h = (hd_numActive h \<ge> int (length (hd_slots h)))"

definition VamanaWorkerSlotCapacity :: "VamanaWorkerShmemHeader \<Rightarrow> int" where
  "VamanaWorkerSlotCapacity h = int (length (hd_slots h))"

text \<open>\<open>(int32) grant\<close> of an unsigned 32-bit value, then at least one.\<close>

definition SvsCurrentSearchGrant :: "VamanaWorkerShmem \<Rightarrow> int" where
  "SvsCurrentSearchGrant entry = max (cast_i32 (uint (ws_grantedSearchThreads entry))) 1"

section \<open>Launcher-owned fields\<close>

definition VamanaWorkerSetMemoryOverrides ::
    "oid \<Rightarrow> int \<Rightarrow> int \<Rightarrow> VamanaWorkerShmemHeader \<Rightarrow> VamanaWorkerShmemHeader" where
  "VamanaWorkerSetMemoryOverrides dbOid residencyMemoryMbOverride searchWorkMemMbOverride h =
     (case VamanaWorkerFindSlot h dbOid of
        None \<Rightarrow> h
      | Some e \<Rightarrow> put_entry h e
          ((hd_slots h ! e)\<lparr>ws_residencyMemoryMbOverride := residencyMemoryMbOverride,
                            ws_searchWorkMemMbOverride := searchWorkMemMbOverride\<rparr>))"

definition VamanaWorkerSetServicedRestartGeneration ::
    "oid \<Rightarrow> int \<Rightarrow> VamanaWorkerShmemHeader \<Rightarrow> VamanaWorkerShmemHeader" where
  "VamanaWorkerSetServicedRestartGeneration dbOid generation h =
     (case VamanaWorkerFindSlot h dbOid of
        None \<Rightarrow> h
      | Some e \<Rightarrow> put_entry h e ((hd_slots h ! e)\<lparr>ws_servicedRestartGeneration := generation\<rparr>))"

definition VamanaWorkerBackoffSnapshot ::
    "VamanaWorkerShmemHeader \<Rightarrow> oid \<Rightarrow> bool \<times> VamanaLauncherBackoff" where
  "VamanaWorkerBackoffSnapshot h dbOid =
     (case VamanaWorkerFindSlot h dbOid of
        None \<Rightarrow> (False, \<lparr>last_attempt_time = 0, consecutive_failures = 0\<rparr>)
      | Some e \<Rightarrow> (True, ws_backoff (hd_slots h ! e)))"

definition VamanaWorkerIsBackingOff :: "VamanaWorkerShmem \<Rightarrow> bool" where
  "VamanaWorkerIsBackingOff entry = (consecutive_failures (ws_backoff entry) > 0)"

definition VamanaWorkerBackoffStampAttempt ::
    "oid \<Rightarrow> timestamp \<Rightarrow> VamanaWorkerShmemHeader \<Rightarrow> VamanaWorkerShmemHeader" where
  "VamanaWorkerBackoffStampAttempt dbOid now h =
     (case VamanaWorkerFindSlot h dbOid of
        None \<Rightarrow> h
      | Some e \<Rightarrow>
          let entry = hd_slots h ! e
          in put_entry h e (entry\<lparr>ws_backoff := (ws_backoff entry)\<lparr>last_attempt_time := now\<rparr>\<rparr>))"

definition VamanaWorkerBackoffRecordDeath ::
    "oid \<Rightarrow> bool \<Rightarrow> VamanaWorkerShmemHeader \<Rightarrow> VamanaWorkerShmemHeader" where
  "VamanaWorkerBackoffRecordDeath dbOid recovered h =
     (case VamanaWorkerFindSlot h dbOid of
        None \<Rightarrow> h
      | Some e \<Rightarrow>
          let entry = hd_slots h ! e; backoff = ws_backoff entry
          in put_entry h e (entry\<lparr>ws_backoff := backoff\<lparr>consecutive_failures :=
               (if recovered then 0 else consecutive_failures backoff + 1)\<rparr>\<rparr>))"

definition VamanaWorkerBackoffClear :: "oid \<Rightarrow> VamanaWorkerShmemHeader \<Rightarrow> VamanaWorkerShmemHeader" where
  "VamanaWorkerBackoffClear dbOid h =
     (case VamanaWorkerFindSlot h dbOid of
        None \<Rightarrow> h
      | Some e \<Rightarrow> put_entry h e
          ((hd_slots h ! e)\<lparr>ws_backoff := \<lparr>last_attempt_time = 0, consecutive_failures = 0\<rparr>\<rparr>))"

section \<open>The live-index counter\<close>

text \<open>An element of the pending array: the database and the change, +1 or -1.\<close>

type_synonym PendingIndexCountDelta = "oid \<times> int"

type_synonym IndexCountDeltas = "PendingIndexCountDelta VamanaSubxidPendingArray"

definition GetOrCreateIndexCountDeltas :: "IndexCountDeltas option \<Rightarrow> IndexCountDeltas" where
  "GetOrCreateIndexCountDeltas cur =
     (case cur of None \<Rightarrow> VamanaSubxidPendingArrayCreate 16 | Some array \<Rightarrow> array)"

definition VamanaWorkerQueueIndexCountDelta ::
    "subxid \<Rightarrow> oid \<Rightarrow> int \<Rightarrow> IndexCountDeltas option \<Rightarrow> errcode + IndexCountDeltas option" where
  "VamanaWorkerQueueIndexCountDelta currentSubxid dbOid delta cur =
     (case VamanaSubxidPendingArrayAppend currentSubxid (dbOid, delta) (GetOrCreateIndexCountDeltas cur) of
        Inl err \<Rightarrow> Inl err
      | Inr array \<Rightarrow> Inr (Some array))"

definition VamanaWorkerIndexCountSnapshot :: "VamanaWorkerShmemHeader \<Rightarrow> oid \<Rightarrow> bool \<times> u32" where
  "VamanaWorkerIndexCountSnapshot h dbOid =
     (case VamanaWorkerFindSlot h dbOid of
        None \<Rightarrow> (False, 0)
      | Some e \<Rightarrow> (True, ws_indexCount (hd_slots h ! e)))"

text \<open>The context of the callback is \<open>crossedZero\<close>.\<close>

definition ApplyIndexCountDeltaCb ::
    "int \<Rightarrow> VamanaWorkerShmem \<Rightarrow> bool \<Rightarrow> VamanaWorkerShmem \<times> bool" where
  "ApplyIndexCountDeltaCb delta entry crossedZero =
     (let before = ws_indexCount entry;
          after = (if delta > 0 then before + word_of_int delta else before - word_of_int (- delta))
      in (entry\<lparr>ws_indexCount := after\<rparr>, (before = 0) \<noteq> (after = 0)))"

text \<open>The result tells whether the launcher is kicked.\<close>

definition ApplyIndexCountDelta ::
    "oid \<Rightarrow> int \<Rightarrow> VamanaWorkerShmemHeader \<Rightarrow> bool \<times> VamanaWorkerShmemHeader" where
  "ApplyIndexCountDelta dbOid delta h =
     (if delta = 0 then (False, h)
      else
        let (found, crossedZero, h') = VamanaWorkerWithEntry dbOid (ApplyIndexCountDeltaCb delta) False h
        in (found \<and> crossedZero, h'))"

text \<open>The inner loop: add up the deltas of one database and mark them as folded.\<close>

definition FoldIndexCountDeltas ::
    "oid \<Rightarrow> nat list \<Rightarrow> int \<times> (PendingIndexCountDelta \<times> subxid) list
     \<Rightarrow> int \<times> (PendingIndexCountDelta \<times> subxid) list" where
  "FoldIndexCountDeltas dbOid =
     fold (\<lambda>j (net, es).
       let ((db, delta), s) = es ! j in
       if db \<noteq> dbOid \<or> s = InvalidSubTransactionId then (net, es)
       else (net + delta, es[j := ((InvalidOid, delta), s)]))"

definition ApplyPendingIndexCountDeltas ::
    "IndexCountDeltas option \<Rightarrow> VamanaWorkerShmemHeader \<Rightarrow> bool \<times> VamanaWorkerShmemHeader" where
  "ApplyPendingIndexCountDeltas cur h =
     (case cur of
        None \<Rightarrow> (False, h)
      | Some array \<Rightarrow>
          let n = length (pa_entries array);
              (es, kicked, h') =
                fold (\<lambda>i (es, kicked, h).
                  let ((db, delta), s) = es ! i in
                  if db = InvalidOid \<or> s = InvalidSubTransactionId then (es, kicked, h)
                  else
                    let (net, es') = FoldIndexCountDeltas db [i..<n] (0, es);
                        (k, h') = ApplyIndexCountDelta db net h
                    in (es', kicked \<or> k, h'))
                [0..<n] (pa_entries array, False, h)
          in (kicked, h'))"

datatype XactEvent =
  XACT_EVENT_COMMIT | XACT_EVENT_PARALLEL_COMMIT | XACT_EVENT_ABORT | XACT_EVENT_PARALLEL_ABORT
  | XACT_EVENT_PREPARE | XACT_EVENT_PRE_COMMIT | XACT_EVENT_PARALLEL_PRE_COMMIT | XACT_EVENT_PRE_PREPARE

datatype SubXactEvent =
  SUBXACT_EVENT_START_SUB | SUBXACT_EVENT_COMMIT_SUB | SUBXACT_EVENT_ABORT_SUB | SUBXACT_EVENT_PRE_COMMIT_SUB

definition VamanaIndexCountXactCallback ::
    "XactEvent \<Rightarrow> IndexCountDeltas option \<times> VamanaWorkerShmemHeader
     \<Rightarrow> errcode + IndexCountDeltas option \<times> VamanaWorkerShmemHeader" where
  "VamanaIndexCountXactCallback event = (\<lambda>(cur, h).
     case event of
       XACT_EVENT_COMMIT \<Rightarrow> Inr (None, snd (ApplyPendingIndexCountDeltas cur h))
     | XACT_EVENT_PARALLEL_COMMIT \<Rightarrow> Inr (None, snd (ApplyPendingIndexCountDeltas cur h))
     | XACT_EVENT_ABORT \<Rightarrow> Inr (None, h)
     | XACT_EVENT_PARALLEL_ABORT \<Rightarrow> Inr (None, h)
     | XACT_EVENT_PRE_PREPARE \<Rightarrow>
         (case cur of
            Some array \<Rightarrow>
              if VamanaSubxidPendingArrayHasLiveEntries array then Inl ERRCODE_FEATURE_NOT_SUPPORTED
              else Inr (cur, h)
          | None \<Rightarrow> Inr (cur, h))
     | XACT_EVENT_PREPARE \<Rightarrow> Inr (None, h)
     | _ \<Rightarrow> Inr (cur, h))"

definition VamanaIndexCountSubXactCallback ::
    "SubXactEvent \<Rightarrow> subxid \<Rightarrow> subxid \<Rightarrow> IndexCountDeltas option \<Rightarrow> IndexCountDeltas option" where
  "VamanaIndexCountSubXactCallback event mySubid parentSubid cur =
     (case cur of
        None \<Rightarrow> None
      | Some array \<Rightarrow>
          if event = SUBXACT_EVENT_ABORT_SUB
          then Some (VamanaSubxidPendingArrayPruneAbortedSubxact array mySubid)
          else if event = SUBXACT_EVENT_COMMIT_SUB
          then Some (VamanaSubxidPendingArrayReparentSubxact array mySubid parentSubid)
          else Some array)"

section \<open>Queued slot drops\<close>

text \<open>The context of the callback is \<open>queued\<close>; setting the worker's latch is not represented.\<close>

definition RequestSlotDropCb :: "oid \<Rightarrow> VamanaWorkerShmem \<Rightarrow> bool \<Rightarrow> VamanaWorkerShmem \<times> bool" where
  "RequestSlotDropCb indexRelid entry queued =
     (case find_index (\<lambda>r. r = 0) (ws_pendingSlotDrops entry) of
        None \<Rightarrow> (entry, queued)
      | Some i \<Rightarrow> (entry\<lparr>ws_pendingSlotDrops := (ws_pendingSlotDrops entry)[i := indexRelid]\<rparr>, True))"

definition VamanaWorkerRequestSlotDrop ::
    "oid \<Rightarrow> oid \<Rightarrow> VamanaWorkerShmemHeader \<Rightarrow> bool \<times> VamanaWorkerShmemHeader" where
  "VamanaWorkerRequestSlotDrop dbOid indexRelid h =
     (let (_, queued, h') = VamanaWorkerWithEntry dbOid (RequestSlotDropCb indexRelid) False h
      in (queued, h'))"

text \<open>The scan of \<open>VamanaWorkerTakePendingSlotDrops\<close>: what is taken, and the queue left behind.\<close>

fun take_slot_drops :: "oid list \<Rightarrow> nat \<Rightarrow> oid list \<times> oid list" where
  "take_slot_drops [] cap = ([], [])"
| "take_slot_drops (r # rs) cap =
     (if cap = 0 then ([], r # rs)
      else if r = 0 then (let (taken, left) = take_slot_drops rs cap in (taken, r # left))
      else (let (taken, left) = take_slot_drops rs (cap - 1) in (r # taken, 0 # left)))"

definition VamanaWorkerTakePendingSlotDrops ::
    "oid \<Rightarrow> nat \<Rightarrow> VamanaWorkerShmemHeader \<Rightarrow> oid list \<times> VamanaWorkerShmemHeader" where
  "VamanaWorkerTakePendingSlotDrops dbOid maxCount h =
     (case VamanaWorkerFindSlot h dbOid of
        None \<Rightarrow> ([], h)
      | Some e \<Rightarrow>
          let entry = hd_slots h ! e;
              (taken, left) = take_slot_drops (ws_pendingSlotDrops entry) maxCount
          in (taken, put_entry h e (entry\<lparr>ws_pendingSlotDrops := left\<rparr>)))"

section \<open>Index locks\<close>

text \<open>
  One pass of the claim loop.  The compare-and-swap fails only when another process changed the
  position since the scan; \<open>observed\<close> is the table the scan read.
\<close>

datatype LockScan = LockFound nat | LockClaimed nat "oid list" | LockTableFull | LockRetry

definition VamanaGetIndexLock_pass :: "oid list \<Rightarrow> oid list \<Rightarrow> oid \<Rightarrow> LockScan" where
  "VamanaGetIndexLock_pass observed table relid =
     (case find_index (\<lambda>r. r = relid) observed of
        Some i \<Rightarrow> LockFound i
      | None \<Rightarrow>
          (case find_index (\<lambda>r. r = 0) observed of
             None \<Rightarrow> LockTableFull
           | Some i \<Rightarrow> if table ! i = 0 then LockClaimed i (table[i := relid]) else LockRetry))"

definition VamanaGetIndexLock :: "VamanaWorkerShmem \<Rightarrow> oid \<Rightarrow> nat option \<times> VamanaWorkerShmem" where
  "VamanaGetIndexLock entry relid =
     (case VamanaGetIndexLock_pass (ws_indexLocks entry) (ws_indexLocks entry) relid of
        LockFound i \<Rightarrow> (Some i, entry)
      | LockClaimed i table \<Rightarrow> (Some i, entry\<lparr>ws_indexLocks := table\<rparr>)
      | _ \<Rightarrow> (None, entry))"

definition VamanaReleaseIndexLock :: "VamanaWorkerShmem \<Rightarrow> oid \<Rightarrow> VamanaWorkerShmem" where
  "VamanaReleaseIndexLock entry relid =
     (case find_index (\<lambda>r. r = relid) (ws_indexLocks entry) of
        None \<Rightarrow> entry
      | Some i \<Rightarrow> entry\<lparr>ws_indexLocks := (ws_indexLocks entry)[i := 0]\<rparr>)"

section \<open>Slot errors\<close>

text \<open>
  The error codes and \<open>ERRCODE_TO_CATEGORY\<close> are the server's: an argument of the codec.
\<close>

record PgErrcodes =
  sql_OUT_OF_MEMORY :: int
  sql_FEATURE_NOT_SUPPORTED :: int
  sql_DATA_EXCEPTION :: int
  sql_IO_ERROR :: int
  sql_INTERNAL_ERROR :: int
  sql_TO_CATEGORY :: "int \<Rightarrow> int"

definition VamanaCategorizeSQLState :: "PgErrcodes \<Rightarrow> int \<Rightarrow> VamanaErrCategory" where
  "VamanaCategorizeSQLState pe sqlerrcode =
     (if sqlerrcode = sql_OUT_OF_MEMORY pe then VAMANA_ERR_OOM
      else if sqlerrcode = sql_FEATURE_NOT_SUPPORTED pe then VAMANA_ERR_UNSUPPORTED
      else if sql_TO_CATEGORY pe sqlerrcode = sql_TO_CATEGORY pe (sql_DATA_EXCEPTION pe)
      then VAMANA_ERR_DATA
      else if sql_TO_CATEGORY pe sqlerrcode = sql_TO_CATEGORY pe (sql_IO_ERROR pe)
      then VAMANA_ERR_IO
      else VAMANA_ERR_INTERNAL)"

definition VamanaSlotErrcode :: "PgErrcodes \<Rightarrow> VamanaErrCategory \<Rightarrow> int" where
  "VamanaSlotErrcode pe category =
     (case category of
        VAMANA_ERR_OOM \<Rightarrow> sql_OUT_OF_MEMORY pe
      | VAMANA_ERR_DATA \<Rightarrow> sql_DATA_EXCEPTION pe
      | VAMANA_ERR_IO \<Rightarrow> sql_IO_ERROR pe
      | VAMANA_ERR_UNSUPPORTED \<Rightarrow> sql_FEATURE_NOT_SUPPORTED pe
      | _ \<Rightarrow> sql_INTERNAL_ERROR pe)"

text \<open>\<open>snprintf\<close> into the 512-byte buffer keeps the first 511 characters.\<close>

definition VamanaWorkerFailSlot :: "string \<Rightarrow> VamanaErrCategory \<Rightarrow> VamanaWorkerSlot \<Rightarrow> VamanaWorkerSlot" where
  "VamanaWorkerFailSlot message category slot =
     slot\<lparr>sl_errorMessage := take 511 message, sl_errorCategory := category,
          sl_status := VAMANA_SLOT_ERROR\<rparr>"

section \<open>Layout of the slot region\<close>

text \<open>
  Byte offsets from the start of a database's slot region; \<open>slotSize\<close> is \<open>sizeof(VamanaWorkerSlot)\<close>.
  The sizes were added up with overflow checks when the region was allocated, so they are
  natural numbers.
\<close>

definition VAMANA_MAX_DIM :: nat where "VAMANA_MAX_DIM = 2000"
definition VAMANA_MAX_SEARCH_WINDOW :: nat where "VAMANA_MAX_SEARCH_WINDOW = 10000"
definition sizeof_float :: nat where "sizeof_float = 4"
definition sizeof_ItemPointerData :: nat where "sizeof_ItemPointerData = 6"

definition VamanaWorkerVarDataOffset :: "nat \<Rightarrow> nat \<Rightarrow> nat" where
  "VamanaWorkerVarDataOffset slotSize maxSlots = maxSlots * slotSize"

definition VamanaWorkerSlotQueryVec :: "nat \<Rightarrow> nat \<Rightarrow> nat \<Rightarrow> nat" where
  "VamanaWorkerSlotQueryVec slotSize maxSlots slotIdx =
     VamanaWorkerVarDataOffset slotSize maxSlots + slotIdx * VAMANA_MAX_DIM * sizeof_float"

definition VamanaWorkerSlotResults :: "nat \<Rightarrow> nat \<Rightarrow> nat \<Rightarrow> nat" where
  "VamanaWorkerSlotResults slotSize maxSlots slotIdx =
     VamanaWorkerVarDataOffset slotSize maxSlots + maxSlots * VAMANA_MAX_DIM * sizeof_float +
     slotIdx * VAMANA_MAX_SEARCH_WINDOW * sizeof_ItemPointerData"

definition VamanaWorkerSlotDistances :: "nat \<Rightarrow> nat \<Rightarrow> nat \<Rightarrow> nat" where
  "VamanaWorkerSlotDistances slotSize maxSlots slotIdx =
     VamanaWorkerVarDataOffset slotSize maxSlots + maxSlots * VAMANA_MAX_DIM * sizeof_float +
     maxSlots * VAMANA_MAX_SEARCH_WINDOW * sizeof_ItemPointerData +
     slotIdx * VAMANA_MAX_SEARCH_WINDOW * sizeof_float"

definition VamanaWorkerSlotRegionSize :: "nat \<Rightarrow> nat \<Rightarrow> nat" where
  "VamanaWorkerSlotRegionSize slotSize MaxBackends =
     (let perSlotVar = VAMANA_MAX_DIM * sizeof_float +
            (VAMANA_MAX_SEARCH_WINDOW * sizeof_ItemPointerData + VAMANA_MAX_SEARCH_WINDOW * sizeof_float)
      in MaxBackends * slotSize + MaxBackends * perSlotVar)"

end
