(* ===== verification/Replay_Role.thy ===== *)
theory Replay_Role
  imports Svs_Prelude
begin

text \<open>
  The replay role of a node (\<open>vamana_replication.c\<close>): what a primary and a standby do differently.
\<close>

record wal_ends =
  we_flush :: u64
  we_replay :: u64

record VamanaReplayRole =
  rr_current_wal_end :: "wal_ends \<Rightarrow> u64"
  rr_creates_slot_on_load :: bool
  rr_processes_write_ipc :: bool
  rr_persists_index :: bool

definition PrimaryReplayRole :: VamanaReplayRole where
  "PrimaryReplayRole = \<lparr>rr_current_wal_end = we_flush, rr_creates_slot_on_load = False,
     rr_processes_write_ipc = True, rr_persists_index = True\<rparr>"

definition StandbyReplayRole :: VamanaReplayRole where
  "StandbyReplayRole = \<lparr>rr_current_wal_end = we_replay, rr_creates_slot_on_load = True,
     rr_processes_write_ipc = False, rr_persists_index = False\<rparr>"

definition VamanaGetReplayRole :: "bool \<Rightarrow> VamanaReplayRole" where
  "VamanaGetReplayRole RecoveryInProgress = (if RecoveryInProgress then StandbyReplayRole else PrimaryReplayRole)"

definition VamanaNodeIsPrimary :: "bool \<Rightarrow> bool" where
  "VamanaNodeIsPrimary RecoveryInProgress = rr_processes_write_ipc (VamanaGetReplayRole RecoveryInProgress)"

text \<open>The live-index counter is kept on the primary only (\<open>vamanaworker.c\<close>).\<close>

definition VamanaIndexCountIsMaintained :: "bool \<Rightarrow> bool" where
  "VamanaIndexCountIsMaintained RecoveryInProgress = VamanaNodeIsPrimary RecoveryInProgress"

end
