(* ===== verification/Launcher_Rows.thy ===== *)
theory Launcher_Rows
  imports Worker_Shmem Replay_Role "HOL-Library.Signed_Division"
begin

text \<open>
  What the launcher reads: the rows of the configuration table (\<open>vamanalauncher.c\<close>) and the liveness of
  a worker as its control block shows it (\<open>vamanaworker.c\<close>).
\<close>

section \<open>Liveness\<close>

definition VAMANA_HEARTBEAT_STALE_MS :: int where "VAMANA_HEARTBEAT_STALE_MS = 3000"

definition VamanaHeartbeatIsStale :: "timestamp \<Rightarrow> timestamp \<Rightarrow> bool" where
  "VamanaHeartbeatIsStale rawHb now =
     (if rawHb = 0 then False else (now - rawHb) sdiv 1000 > VAMANA_HEARTBEAT_STALE_MS)"

definition VamanaWorkerHeartbeatStale :: "PgEnv \<Rightarrow> VamanaWorkerShmem \<Rightarrow> bool" where
  "VamanaWorkerHeartbeatStale env entry = VamanaHeartbeatIsStale (ws_heartbeat_ts entry) (GetCurrentTimestamp env)"

definition VamanaWorkerEntryIsLive :: "PgEnv \<Rightarrow> VamanaWorkerShmem \<Rightarrow> bool" where
  "VamanaWorkerEntryIsLive env entry =
     (if ws_workerPid entry = 0 \<or> BackendPidGetProc env (ws_workerPid entry) = None then False
      else \<not> VamanaWorkerHeartbeatStale env entry)"

definition VamanaWorkerFindActiveSlot :: "PgEnv \<Rightarrow> oid \<Rightarrow> VamanaWorkerShmemHeader \<Rightarrow> nat option" where
  "VamanaWorkerFindActiveSlot env MyDatabaseId h =
     (case VamanaWorkerLookupSlot h MyDatabaseId of
        None \<Rightarrow> None
      | Some e \<Rightarrow> if \<not> VamanaWorkerEntryIsLive env (hd_slots h ! e) then None else Some e)"

definition VamanaWorkerIsAvailable :: "PgEnv \<Rightarrow> oid \<Rightarrow> VamanaWorkerShmemHeader \<Rightarrow> bool" where
  "VamanaWorkerIsAvailable env MyDatabaseId h = (VamanaWorkerFindActiveSlot env MyDatabaseId h \<noteq> None)"

section \<open>Rows\<close>

record SvsDbCpuColumns =
  cc_searchNumThreads :: int
  cc_searchThreadsReserved :: int
  cc_maintenanceNumThreads :: int

record SvsDbMemoryColumns =
  mc_residencyMemoryMbOverride :: int
  mc_searchWorkMemMbOverride :: int

record VamanaDatabaseRow =
  dr_dbOid :: oid
  dr_datname :: string
  dr_restart_generation :: int
  dr_enabled :: bool
  dr_cpu :: SvsDbCpuColumns
  dr_memory :: SvsDbMemoryColumns

definition AppendDatabaseRow :: "VamanaDatabaseRow \<Rightarrow> VamanaDatabaseRow list \<Rightarrow> VamanaDatabaseRow list" where
  "AppendDatabaseRow db rows = (if list_ex (\<lambda>r. dr_dbOid r = dr_dbOid db) rows then rows else rows @ [db])"

definition ResolveReservedFloor :: "int option \<Rightarrow> int" where
  "ResolveReservedFloor value = (case value of None \<Rightarrow> 0 | Some v \<Rightarrow> v)"

definition SvsResolveNullableThreadCount :: "int option \<Rightarrow> int" where
  "SvsResolveNullableThreadCount value = (case value of None \<Rightarrow> - 1 | Some v \<Rightarrow> v)"

text \<open>A tuple of the table; a null column is \<open>None\<close>.\<close>

record table_row =
  tr_datname :: "string option"
  tr_restart_generation :: "int option"
  tr_enabled :: "bool option"
  tr_search_num_threads :: "int option"
  tr_search_threads_reserved :: "int option"
  tr_maintenance_num_threads :: "int option"
  tr_residency_memory :: "int option"
  tr_search_work_mem :: "int option"

text \<open>
  How the read of the table goes: the connection fails, the query raises, it ends with another status
  than a select, there is no table yet, or it delivers tuples.
\<close>

datatype table_read = Connect_failed | Query_raised | Query_bad_status | No_table | Tuples "table_row list"

text \<open>One tuple; \<open>get_database_oid\<close> answers 0 for a database that does not exist.\<close>

definition read_row :: "(string \<Rightarrow> oid) \<Rightarrow> table_row \<Rightarrow> VamanaDatabaseRow list \<Rightarrow> VamanaDatabaseRow list" where
  "read_row get_database_oid t rows =
     (case (tr_datname t, tr_restart_generation t, tr_enabled t) of
        (Some datname, Some restart_generation, Some enabled) \<Rightarrow>
          (let dbOid = get_database_oid datname in
           if \<not> OidIsValid dbOid then rows
           else AppendDatabaseRow
             \<lparr>dr_dbOid = dbOid, dr_datname = datname, dr_restart_generation = restart_generation, dr_enabled = enabled,
              dr_cpu = \<lparr>cc_searchNumThreads = SvsResolveNullableThreadCount (tr_search_num_threads t),
                        cc_searchThreadsReserved = ResolveReservedFloor (tr_search_threads_reserved t),
                        cc_maintenanceNumThreads = SvsResolveNullableThreadCount (tr_maintenance_num_threads t)\<rparr>,
              dr_memory = \<lparr>mc_residencyMemoryMbOverride = (case tr_residency_memory t of None \<Rightarrow> 0 | Some v \<Rightarrow> v),
                           mc_searchWorkMemMbOverride = (case tr_search_work_mem t of None \<Rightarrow> 0 | Some v \<Rightarrow> v)\<rparr>\<rparr>
             rows)
      | _ \<Rightarrow> rows)"

text \<open>The result: \<open>ok\<close> and the rows.  A primary first probes the table for a writer in progress.\<close>

definition ReadDatabaseRows ::
    "bool \<Rightarrow> bool \<Rightarrow> (string \<Rightarrow> oid) \<Rightarrow> table_read \<Rightarrow> bool \<times> VamanaDatabaseRow list" where
  "ReadDatabaseRows RecoveryInProgress lock_available get_database_oid answer =
     (if \<not> RecoveryInProgress \<and> answer \<noteq> No_table \<and> \<not> lock_available then (False, [])
      else case answer of
        Connect_failed \<Rightarrow> (False, [])
      | Query_raised \<Rightarrow> (False, [])
      | Query_bad_status \<Rightarrow> (True, [])
      | No_table \<Rightarrow> (True, [])
      | Tuples ts \<Rightarrow> (True, fold (read_row get_database_oid) ts []))"

definition EnabledRowsOf :: "VamanaDatabaseRow list \<Rightarrow> VamanaDatabaseRow list" where
  "EnabledRowsOf rows = filter dr_enabled rows"

definition FindDatabaseRow :: "VamanaDatabaseRow list \<Rightarrow> oid \<Rightarrow> VamanaDatabaseRow option" where
  "FindDatabaseRow rows dbOid = find (\<lambda>db. dr_dbOid db = dbOid) rows"

definition FindEnabledDatabase :: "VamanaDatabaseRow list \<Rightarrow> oid \<Rightarrow> VamanaDatabaseRow option" where
  "FindEnabledDatabase rows dbOid =
     (case FindDatabaseRow rows dbOid of
        Some db \<Rightarrow> if dr_enabled db then Some db else None
      | None \<Rightarrow> None)"

definition IsDatabaseEnabled :: "VamanaDatabaseRow list \<Rightarrow> oid \<Rightarrow> bool" where
  "IsDatabaseEnabled rows dbOid = (FindEnabledDatabase rows dbOid \<noteq> None)"

section \<open>The rows read are a table keyed by database\<close>

definition rows_ok :: "VamanaDatabaseRow list \<Rightarrow> bool" where
  "rows_ok rows \<longleftrightarrow> distinct (map dr_dbOid rows) \<and> list_all (\<lambda>db. OidIsValid (dr_dbOid db)) rows"

lemma read_row_ok: "rows_ok rows \<Longrightarrow> rows_ok (read_row oid_of t rows)"
  by (auto simp: read_row_def AppendDatabaseRow_def rows_ok_def list_ex_iff Let_def split: option.splits)

lemma read_rows_ok: "rows_ok rows \<Longrightarrow> rows_ok (fold (read_row oid_of) ts rows)"
  by (induction ts arbitrary: rows) (simp_all add: read_row_ok)

lemma ReadDatabaseRows_ok: "rows_ok (snd (ReadDatabaseRows rec lock oid_of answer))"
  by (auto simp: ReadDatabaseRows_def rows_ok_def read_rows_ok [unfolded rows_ok_def] split: table_read.splits)

lemma FindDatabaseRow_Some:
  assumes "FindDatabaseRow rows dbOid = Some db"
  shows "db \<in> set rows" "dr_dbOid db = dbOid"
  using assms by (auto simp: FindDatabaseRow_def find_Some_iff)

lemma FindDatabaseRow_None: "FindDatabaseRow rows dbOid = None \<longleftrightarrow> dbOid \<notin> dr_dbOid ` set rows"
  by (auto simp: FindDatabaseRow_def find_None_iff)

lemma FindDatabaseRow_unique:
  assumes "rows_ok rows" and "db \<in> set rows"
  shows "FindDatabaseRow rows (dr_dbOid db) = Some db"
proof (cases "FindDatabaseRow rows (dr_dbOid db)")
  case None
  then show ?thesis using assms(2) by (simp add: FindDatabaseRow_None)
next
  case (Some d)
  then show ?thesis using FindDatabaseRow_Some [OF Some] assms by (auto simp: rows_ok_def distinct_map inj_on_def)
qed

lemma FindEnabledDatabase_Some:
  assumes "FindEnabledDatabase rows dbOid = Some db"
  shows "db \<in> set (EnabledRowsOf rows)" "dr_dbOid db = dbOid"
  using assms FindDatabaseRow_Some [of rows dbOid]
  by (auto simp: FindEnabledDatabase_def EnabledRowsOf_def split: option.splits if_splits)

lemma FindEnabledDatabase_unique:
  "rows_ok rows \<Longrightarrow> db \<in> set (EnabledRowsOf rows) \<Longrightarrow> FindEnabledDatabase rows (dr_dbOid db) = Some db"
  by (auto simp: FindEnabledDatabase_def EnabledRowsOf_def FindDatabaseRow_unique)

end
