(* ===== verification/Cpu_Budget.thy ===== *)
theory Cpu_Budget
  imports Svs_Prelude
begin

text \<open>
  The thread governor: \<open>src/svs_cpu_budget.c\<close>, \<open>src/svs_cpu_budget.h\<close> and
  \<open>src/svs_thread_count.h\<close>. Reserved floors are honoured first (cut down to the pool when they
  do not fit), then the elastic remainder is split over the unmet search demand and the pending
  builds by water-filling with largest-remainder rounding.

  A pointer \<open>grantOut\<close> of a claim is the name of the field it points to. The additions through
  such pointers are never read back inside \<open>ApportionRemainder\<close>, so the function returns them as
  a list, in the order the code makes them, and \<open>SvsComputeCpuGrants\<close> applies that list.
\<close>

section \<open>Data\<close>

record SvsDbCpuRequest =
  rq_dbOid :: oid
  rq_live :: bool
  rq_hasIndexes :: bool
  rq_searchNumThreads :: int
  rq_searchThreadsReserved :: int

record SvsBuildCpuRequest =
  br_dbOid :: oid
  br_requestPid :: int
  br_maintenanceNumThreads :: int

record SvsCpuGucs =
  searchNumThreadsDefault :: int
  maxSearchThreadsPerDb :: int
  maxTotalSearchThreads :: int
  maxParallelWorkers :: int

record SvsCpuBudgetInput =
  in_gucs :: SvsCpuGucs
  in_dbs :: "SvsDbCpuRequest list"
  in_builds :: "SvsBuildCpuRequest list"

record SvsDbCpuGrant =
  dg_dbOid :: oid
  dg_desiredSearchThreads :: int
  dg_grantedSearchThreads :: int
  dg_reservedSearchThreads :: int

record SvsBuildCpuGrant =
  bg_dbOid :: oid
  bg_requestPid :: int
  bg_grantedThreads :: int

record SvsCpuBudget =
  dbGrants :: "SvsDbCpuGrant list"
  buildGrants :: "SvsBuildCpuGrant list"
  reservedFloorsExceedPool :: bool

record SvsDbCpuWorking =
  dw_dbOid :: oid
  dw_desired :: int
  dw_floor :: int
  dw_elasticGrant :: int

record SvsBuildCpuWorking =
  bw_dbOid :: oid
  bw_requestPid :: int
  bw_grant :: int

text \<open>What \<open>grantOut\<close> points to: a database's \<open>elasticGrant\<close> or a build's \<open>grant\<close>.\<close>

datatype GrantOut = ElasticGrantOf nat | BuildGrantOf nat

record SvsCpuClaim =
  cl_dbOid :: oid
  cl_requestPid :: int
  cl_weight :: int
  cl_ask :: int
  cl_grantOut :: GrantOut
  cl_floorShare :: int
  cl_fracNumerator :: int

section \<open>Operations\<close>

definition SvsAtLeastOneThread :: "int \<Rightarrow> int" where
  "SvsAtLeastOneThread threads = max threads 1"

definition ResolveOrFallback :: "int \<Rightarrow> int \<Rightarrow> int" where
  "ResolveOrFallback configured fallback = (if configured = 0 then fallback else configured)"

definition ComputeSearchPool :: "SvsCpuGucs \<Rightarrow> int" where
  "ComputeSearchPool gucs =
     min (maxParallelWorkers gucs)
       (ResolveOrFallback (maxTotalSearchThreads gucs) (maxParallelWorkers gucs))"

definition SvsSearchThreadsPerDbCeiling :: "int \<Rightarrow> int \<Rightarrow> int" where
  "SvsSearchThreadsPerDbCeiling maxPerDb maxWorkers = ResolveOrFallback maxPerDb maxWorkers"

definition ComputeEffectiveDesired :: "SvsDbCpuRequest \<Rightarrow> SvsCpuGucs \<Rightarrow> int \<Rightarrow> int" where
  "ComputeEffectiveDesired req gucs perDbCeiling =
     (if \<not> rq_live req \<or> \<not> rq_hasIndexes req then 0
      else
        let clusterDefault = ResolveOrFallback (searchNumThreadsDefault gucs) 1;
            requested = (if rq_searchNumThreads req = -1 then clusterDefault
                         else rq_searchNumThreads req)
        in min (SvsAtLeastOneThread requested) perDbCeiling)"

definition BuildDbWorkingSet :: "SvsCpuBudgetInput \<Rightarrow> int \<Rightarrow> SvsDbCpuWorking list" where
  "BuildDbWorkingSet inp perDbCeiling =
     map (\<lambda>req.
        let desired = ComputeEffectiveDesired req (in_gucs inp) perDbCeiling
        in \<lparr>dw_dbOid = rq_dbOid req,
            dw_desired = desired,
            dw_floor = (if rq_live req then min (rq_searchThreadsReserved req) desired else 0),
            dw_elasticGrant = 0\<rparr>)
       (in_dbs inp)"

definition BuildBuildWorkingSet :: "SvsCpuBudgetInput \<Rightarrow> SvsBuildCpuWorking list" where
  "BuildBuildWorkingSet inp =
     map (\<lambda>b. \<lparr>bw_dbOid = br_dbOid b, bw_requestPid = br_requestPid b, bw_grant = 0\<rparr>)
       (in_builds inp)"

definition CompareWorkingByDbOidAsc :: "SvsDbCpuWorking \<Rightarrow> SvsDbCpuWorking \<Rightarrow> int" where
  "CompareWorkingByDbOidAsc a b =
     (if dw_dbOid a < dw_dbOid b then -1 else if dw_dbOid a > dw_dbOid b then 1 else 0)"

text \<open>The cutting loop of \<open>ClampFloorsToPool\<close>; \<open>order\<close> holds positions in \<open>working\<close>.\<close>

fun CutFloors :: "nat list \<Rightarrow> int \<Rightarrow> SvsDbCpuWorking list \<Rightarrow> SvsDbCpuWorking list" where
  "CutFloors [] excess working = working"
| "CutFloors (p # order) excess working =
     (if excess > 0 then
        let cut = cast_i32 (min (dw_floor (working ! p)) excess)
        in CutFloors order (excess - cut)
             (working[p := (working ! p)\<lparr>dw_floor := dw_floor (working ! p) - cut\<rparr>])
      else working)"

definition ClampFloorsToPool ::
    "qperm \<Rightarrow> SvsDbCpuWorking list \<Rightarrow> int \<Rightarrow> bool \<times> SvsDbCpuWorking list" where
  "ClampFloorsToPool qp working pool =
     (let totalFloor = sum_list (map dw_floor working)
      in if totalFloor \<le> pool then (False, working)
         else
           let order = qsort qp (\<lambda>i j. CompareWorkingByDbOidAsc (working ! i) (working ! j))
                         [0..<length working]
           in (True, CutFloors order (totalFloor - pool) working))"

definition BuildClaims ::
    "SvsDbCpuWorking list \<Rightarrow> SvsBuildCpuRequest list \<Rightarrow> SvsBuildCpuWorking list
     \<Rightarrow> SvsCpuClaim list" where
  "BuildClaims dbWorking builds buildWorking =
     map (\<lambda>i. \<lparr>cl_dbOid = dw_dbOid (dbWorking ! i), cl_requestPid = 0,
               cl_weight = dw_floor (dbWorking ! i),
               cl_ask = dw_desired (dbWorking ! i) - dw_floor (dbWorking ! i),
               cl_grantOut = ElasticGrantOf i, cl_floorShare = 0, cl_fracNumerator = 0\<rparr>)
       (filter (\<lambda>i. \<not> dw_desired (dbWorking ! i) - dw_floor (dbWorking ! i) \<le> 0)
          [0..<length dbWorking])
     @ map (\<lambda>i. \<lparr>cl_dbOid = bw_dbOid (buildWorking ! i),
                 cl_requestPid = bw_requestPid (buildWorking ! i),
                 cl_weight = 0,
                 cl_ask = br_maintenanceNumThreads (builds ! i),
                 cl_grantOut = BuildGrantOf i, cl_floorShare = 0, cl_fracNumerator = 0\<rparr>)
         (filter (\<lambda>i. \<not> br_maintenanceNumThreads (builds ! i) \<le> 0) [0..<length builds])"

definition CompareClaimsForLeftover :: "SvsCpuClaim \<Rightarrow> SvsCpuClaim \<Rightarrow> int" where
  "CompareClaimsForLeftover ca cb =
     (if cl_fracNumerator ca \<noteq> cl_fracNumerator cb
      then (if cl_fracNumerator ca > cl_fracNumerator cb then -1 else 1)
      else if cl_weight ca \<noteq> cl_weight cb
      then (if cl_weight ca > cl_weight cb then -1 else 1)
      else if cl_dbOid ca \<noteq> cl_dbOid cb
      then (if cl_dbOid ca < cl_dbOid cb then -1 else 1)
      else (if cl_requestPid ca < cl_requestPid cb then -1
            else if cl_requestPid ca > cl_requestPid cb then 1 else 0))"

text \<open>\<open>totalWeight\<close>, \<open>weightForShare\<close> and \<open>denom\<close> of one pass over the active claims.\<close>

definition total_weight :: "SvsCpuClaim list \<Rightarrow> int" where
  "total_weight claims = sum_list (map cl_weight claims)"

definition weight_for_share :: "SvsCpuClaim list \<Rightarrow> SvsCpuClaim \<Rightarrow> int" where
  "weight_for_share claims c = (if total_weight claims > 0 then cl_weight c else 1)"

definition share_denom :: "SvsCpuClaim list \<Rightarrow> int" where
  "share_denom claims =
     (if total_weight claims > 0 then total_weight claims else int (length claims))"

text \<open>The rounding step of \<open>ApportionRemainder\<close>: every claim still competes.\<close>

definition DistributeLeftover :: "qperm \<Rightarrow> SvsCpuClaim list \<Rightarrow> int \<Rightarrow> (GrantOut \<times> int) list" where
  "DistributeLeftover qp claims remainder =
     (let fracs = map (\<lambda>c. c\<lparr>cl_fracNumerator :=
                    c_mod (remainder * weight_for_share claims c) (share_denom claims)\<rparr>) claims;
          leftover = remainder - sum_list (map cl_floorShare fracs);
          sorted = qsort qp CompareClaimsForLeftover fracs
      in map (\<lambda>i. (cl_grantOut (sorted ! i),
                   cl_floorShare (sorted ! i) + (if int i < leftover then 1 else 0)))
           [0..<length sorted])"

function ApportionRemainder ::
    "qperm \<Rightarrow> SvsCpuClaim list \<Rightarrow> int \<Rightarrow> (GrantOut \<times> int) list" where
  "ApportionRemainder qp claims remainder =
     (if claims = [] \<or> remainder \<le> 0 then []
      else if remainder \<ge> sum_list (map cl_ask claims)
      then map (\<lambda>c. (cl_grantOut c, cl_ask c)) claims
      else
        let shared = map (\<lambda>c. c\<lparr>cl_floorShare :=
                       cast_i32 (c_div (remainder * weight_for_share claims c)
                                       (share_denom claims))\<rparr>) claims;
            settled = filter (\<lambda>c. cl_floorShare c \<ge> cl_ask c) shared;
            newActive = filter (\<lambda>c. \<not> cl_floorShare c \<ge> cl_ask c) shared
        in if length newActive < length claims
           then map (\<lambda>c. (cl_grantOut c, cl_ask c)) settled @
                ApportionRemainder qp newActive (remainder - sum_list (map cl_ask settled))
           else DistributeLeftover qp newActive remainder)"
  by pat_completeness auto
termination
  by (relation "measure (\<lambda>(qp, claims, remainder). length claims)") auto

text \<open>Apply the additions made through the \<open>grantOut\<close> pointers.\<close>

fun AddThrough ::
    "GrantOut \<times> int \<Rightarrow> SvsDbCpuWorking list \<times> SvsBuildCpuWorking list
     \<Rightarrow> SvsDbCpuWorking list \<times> SvsBuildCpuWorking list" where
  "AddThrough (ElasticGrantOf i, amount) (dbw, bw) =
     (dbw[i := (dbw ! i)\<lparr>dw_elasticGrant := dw_elasticGrant (dbw ! i) + amount\<rparr>], bw)"
| "AddThrough (BuildGrantOf i, amount) (dbw, bw) =
     (dbw, bw[i := (bw ! i)\<lparr>bw_grant := bw_grant (bw ! i) + amount\<rparr>])"

definition SvsComputeCpuGrants :: "qperm \<Rightarrow> SvsCpuBudgetInput \<Rightarrow> SvsCpuBudget" where
  "SvsComputeCpuGrants qp inp =
     (let pool = ComputeSearchPool (in_gucs inp);
          perDbCeiling = SvsSearchThreadsPerDbCeiling (maxSearchThreadsPerDb (in_gucs inp))
                           (maxParallelWorkers (in_gucs inp));
          (exceed, dbWorking) = ClampFloorsToPool qp (BuildDbWorkingSet inp perDbCeiling) pool;
          buildWorking = BuildBuildWorkingSet inp;
          grantedFloor = sum_list (map dw_floor dbWorking);
          claims = BuildClaims dbWorking (in_builds inp) buildWorking;
          (dbw, bw) = fold AddThrough
                        (ApportionRemainder qp claims (cast_i32 (pool - grantedFloor)))
                        (dbWorking, buildWorking)
      in \<lparr>dbGrants = map (\<lambda>w. \<lparr>dg_dbOid = dw_dbOid w,
                                dg_desiredSearchThreads = dw_desired w,
                                dg_grantedSearchThreads = dw_floor w + dw_elasticGrant w,
                                dg_reservedSearchThreads = dw_floor w\<rparr>) dbw,
          buildGrants = map (\<lambda>w. \<lparr>bg_dbOid = bw_dbOid w, bg_requestPid = bw_requestPid w,
                                   bg_grantedThreads = bw_grant w\<rparr>) bw,
          reservedFloorsExceedPool = exceed\<rparr>)"

declare ApportionRemainder.simps [simp del]

section \<open>Floors\<close>

text \<open>One table of working entries is another with some floors lowered, none below zero.\<close>

definition floors_lowered :: "SvsDbCpuWorking list \<Rightarrow> SvsDbCpuWorking list \<Rightarrow> bool" where
  "floors_lowered w w' \<longleftrightarrow> length w' = length w \<and>
     (\<forall>i < length w. \<exists>f. 0 \<le> f \<and> f \<le> dw_floor (w ! i) \<and> w' ! i = (w ! i)\<lparr>dw_floor := f\<rparr>)"

definition floors_in_range :: "SvsDbCpuWorking list \<Rightarrow> bool" where
  "floors_in_range w \<longleftrightarrow> (\<forall>i < length w. 0 \<le> dw_floor (w ! i) \<and> dw_floor (w ! i) < 2 ^ 31)"

lemma floors_lowered_refl:
  assumes "floors_in_range w"
  shows "floors_lowered w w"
  unfolding floors_lowered_def
proof (intro conjI allI impI)
  fix i assume "i < length w"
  with assms show "\<exists>f. 0 \<le> f \<and> f \<le> dw_floor (w ! i) \<and> w ! i = (w ! i)\<lparr>dw_floor := f\<rparr>"
    by (intro exI [of _ "dw_floor (w ! i)"]) (simp add: floors_in_range_def)
qed simp

lemma floors_lowered_trans:
  assumes "floors_lowered w w'" and "floors_lowered w' w''"
  shows "floors_lowered w w''"
  unfolding floors_lowered_def
proof (intro conjI allI impI)
  show "length w'' = length w"
    using assms by (simp add: floors_lowered_def)
next
  fix i assume "i < length w"
  with assms(1) obtain f where f: "f \<le> dw_floor (w ! i)" "w' ! i = (w ! i)\<lparr>dw_floor := f\<rparr>"
    unfolding floors_lowered_def by blast
  from assms \<open>i < length w\<close> obtain g
    where "0 \<le> g" "g \<le> dw_floor (w' ! i)" "w'' ! i = (w' ! i)\<lparr>dw_floor := g\<rparr>"
    unfolding floors_lowered_def by metis
  with f show "\<exists>f. 0 \<le> f \<and> f \<le> dw_floor (w ! i) \<and> w'' ! i = (w ! i)\<lparr>dw_floor := f\<rparr>"
    by (intro exI [of _ g]) auto
qed

lemma floors_loweredD:
  assumes "floors_lowered w w'" and "i < length w"
  shows "0 \<le> dw_floor (w' ! i)" and "dw_floor (w' ! i) \<le> dw_floor (w ! i)"
    and "w' ! i = (w ! i)\<lparr>dw_floor := dw_floor (w' ! i)\<rparr>"
proof -
  from assms obtain f
    where "0 \<le> f" "f \<le> dw_floor (w ! i)" "w' ! i = (w ! i)\<lparr>dw_floor := f\<rparr>"
    unfolding floors_lowered_def by blast
  then show "0 \<le> dw_floor (w' ! i)" "dw_floor (w' ! i) \<le> dw_floor (w ! i)"
    "w' ! i = (w ! i)\<lparr>dw_floor := dw_floor (w' ! i)\<rparr>"
    by simp_all
qed

lemma floors_lowered_length: "floors_lowered w w' \<Longrightarrow> length w' = length w"
  by (simp add: floors_lowered_def)

lemma floors_lowered_range:
  assumes "floors_lowered w w'" and "floors_in_range w"
  shows "floors_in_range w'"
  unfolding floors_in_range_def
proof (intro allI impI)
  fix i assume "i < length w'"
  then have "i < length w" using floors_lowered_length [OF assms(1)] by simp
  with floors_loweredD [OF assms(1) this] assms(2)
  show "0 \<le> dw_floor (w' ! i) \<and> dw_floor (w' ! i) < 2 ^ 31"
    unfolding floors_in_range_def by fastforce
qed

lemma floors_lowered_update:
  assumes "floors_in_range w" and "p < length w" and "0 \<le> f" and "f \<le> dw_floor (w ! p)"
  shows "floors_lowered w (w[p := (w ! p)\<lparr>dw_floor := f\<rparr>])"
  unfolding floors_lowered_def
proof (intro conjI allI impI)
  fix i assume "i < length w"
  with assms show "\<exists>g. 0 \<le> g \<and> g \<le> dw_floor (w ! i) \<and>
      w[p := (w ! p)\<lparr>dw_floor := f\<rparr>] ! i = (w ! i)\<lparr>dw_floor := g\<rparr>"
    by (intro exI [of _ "if i = p then f else dw_floor (w ! i)"]) (auto simp: floors_in_range_def)
qed simp

text \<open>The sum of the floors at given positions.\<close>

definition floor_at :: "SvsDbCpuWorking list \<Rightarrow> nat list \<Rightarrow> int" where
  "floor_at w order = sum_list (map (\<lambda>p. dw_floor (w ! p)) order)"

lemma floor_at_update:
  "p \<notin> set order \<Longrightarrow> floor_at (w[p := v]) order = floor_at w order"
  unfolding floor_at_def by (induction order) auto

lemma CutFloors_spec:
  assumes "floors_in_range w" and "distinct order" and "set order \<subseteq> {..<length w}"
    and "0 \<le> excess" and "excess \<le> floor_at w order"
  shows "floors_lowered w (CutFloors order excess w)"
    and "sum_list (map dw_floor (CutFloors order excess w)) = sum_list (map dw_floor w) - excess"
    and "\<And>i. i \<notin> set order \<Longrightarrow> CutFloors order excess w ! i = w ! i"
proof -
  have "floors_lowered w (CutFloors order excess w) \<and>
    sum_list (map dw_floor (CutFloors order excess w)) = sum_list (map dw_floor w) - excess \<and>
    (\<forall>i. i \<notin> set order \<longrightarrow> CutFloors order excess w ! i = w ! i)"
    using assms
  proof (induction order arbitrary: excess w)
    case Nil
    then show ?case by (simp add: floor_at_def floors_lowered_refl)
  next
    case (Cons p order)
    let ?fp = "dw_floor (w ! p)"
    show ?case
    proof (cases "excess > 0")
      case True
      have p: "p < length w" "0 \<le> ?fp" "?fp < 2 ^ 31"
        using Cons.prems by (auto simp: floors_in_range_def)
      define cut where "cut = min ?fp excess"
      have cut: "cast_i32 (min ?fp excess) = cut" "0 \<le> cut" "cut \<le> ?fp" "cut \<le> excess"
        using p True by (auto simp: cut_def min_def)
      define w1 where "w1 = w[p := (w ! p)\<lparr>dw_floor := ?fp - cut\<rparr>]"
      have low: "floors_lowered w w1"
        unfolding w1_def using Cons.prems(1) p cut by (intro floors_lowered_update) auto
      have at: "floor_at w1 order = floor_at w order"
        unfolding w1_def using Cons.prems(2) by (simp add: floor_at_update)
      have "0 \<le> floor_at w order"
        unfolding floor_at_def using Cons.prems
        by (intro sum_list_nonneg_int) (auto simp: floors_in_range_def)
      then have "excess - cut \<le> floor_at w1 order"
        using Cons.prems(5) unfolding at by (auto simp: floor_at_def cut_def)
      then have IH: "floors_lowered w1 (CutFloors order (excess - cut) w1)"
        "sum_list (map dw_floor (CutFloors order (excess - cut) w1)) =
          sum_list (map dw_floor w1) - (excess - cut)"
        "\<forall>i. i \<notin> set order \<longrightarrow> CutFloors order (excess - cut) w1 ! i = w1 ! i"
        using Cons.IH [of w1 "excess - cut"] Cons.prems cut floors_lowered_range [OF low]
        by (auto simp: w1_def)
      have step: "CutFloors (p # order) excess w = CutFloors order (excess - cut) w1"
        using True cut by (simp add: w1_def)
      have "sum_list (map dw_floor w1) = sum_list (map dw_floor w) - cut"
        unfolding w1_def using p by (simp add: sum_list_map_update_int)
      with IH low show ?thesis
        unfolding step by (auto intro: floors_lowered_trans simp: w1_def)
    next
      case False
      with Cons.prems show ?thesis by (simp add: floors_lowered_refl)
    qed
  qed
  then show "floors_lowered w (CutFloors order excess w)"
    and "sum_list (map dw_floor (CutFloors order excess w)) = sum_list (map dw_floor w) - excess"
    and "\<And>i. i \<notin> set order \<Longrightarrow> CutFloors order excess w ! i = w ! i"
    by auto
qed

text \<open>An entry is only touched once every entry before it in the order is down to zero.\<close>

lemma CutFloors_priority:
  assumes "floors_in_range w" and "distinct order" and "set order \<subseteq> {..<length w}"
    and "0 \<le> excess" and "excess \<le> floor_at w order"
    and "a < b" and "b < length order"
    and "dw_floor (CutFloors order excess w ! (order ! b)) \<noteq> dw_floor (w ! (order ! b))"
  shows "dw_floor (CutFloors order excess w ! (order ! a)) = 0"
  using assms
proof (induction order arbitrary: excess w a b)
  case Nil
  then show ?case by simp
next
  case (Cons p order)
  let ?fp = "dw_floor (w ! p)"
  have pos: "excess > 0"
  proof (rule ccontr)
    assume "\<not> excess > 0"
    then have "CutFloors (p # order) excess w = w" by simp
    with Cons.prems(8) show False by simp
  qed
  have p: "p < length w" "0 \<le> ?fp" "?fp < 2 ^ 31"
    using Cons.prems by (auto simp: floors_in_range_def)
  define cut where "cut = min ?fp excess"
  have cut: "cast_i32 (min ?fp excess) = cut" "0 \<le> cut" "cut \<le> ?fp" "cut \<le> excess"
    using p pos by (auto simp: cut_def min_def)
  define w1 where "w1 = w[p := (w ! p)\<lparr>dw_floor := ?fp - cut\<rparr>]"
  have step: "CutFloors (p # order) excess w = CutFloors order (excess - cut) w1"
    using pos cut by (simp add: w1_def)
  have range1: "floors_in_range w1"
    unfolding w1_def using Cons.prems(1) p cut
    by (intro floors_lowered_range [OF floors_lowered_update]) auto
  have "0 \<le> floor_at w order"
    unfolding floor_at_def using Cons.prems
    by (intro sum_list_nonneg_int) (auto simp: floors_in_range_def)
  then have ex1: "excess - cut \<le> floor_at w1 order"
    using Cons.prems(2,5) by (auto simp: floor_at_def cut_def w1_def floor_at_update [unfolded floor_at_def])
  from Cons.prems(6,7) obtain b' where b': "b = Suc b'" "b' < length order"
    by (cases b) auto
  have "order ! b' \<noteq> p"
    using Cons.prems(2) b'(2) nth_mem by fastforce
  then have changed: "dw_floor (CutFloors order (excess - cut) w1 ! (order ! b')) \<noteq>
      dw_floor (w1 ! (order ! b'))"
    using Cons.prems(8) b'(1) unfolding step by (simp add: w1_def)
  show ?case
  proof (cases a)
    case (Suc a')
    with Cons.prems b' have "a' < b'" by simp
    with Cons.IH [of w1 "excess - cut" a' b'] changed b'(2) ex1 range1 cut Cons.prems
    show ?thesis unfolding step Suc by (auto simp: w1_def)
  next
    case 0
    have "excess - cut > 0"
    proof (rule ccontr)
      assume "\<not> excess - cut > 0"
      then have "CutFloors order (excess - cut) w1 = w1"
        by (cases order) auto
      with changed show False by simp
    qed
    then have "cut = ?fp" by (simp add: cut_def min_def split: if_splits)
    moreover have "CutFloors order (excess - cut) w1 ! p = w1 ! p"
      using CutFloors_spec(3) [OF range1 _ _ _ ex1, of p] Cons.prems cut by (auto simp: w1_def)
    ultimately show ?thesis unfolding step 0 using p by (simp add: w1_def)
  qed
qed

lemma CompareWorkingByDbOidAsc_le:
  "CompareWorkingByDbOidAsc a b \<le> 0 \<longleftrightarrow> dw_dbOid a \<le> dw_dbOid b"
  by (auto simp: CompareWorkingByDbOidAsc_def)

lemma total_cmp_working:
  "total_cmp (\<lambda>i j. CompareWorkingByDbOidAsc (g i) (g j))"
  unfolding total_cmp_def CompareWorkingByDbOidAsc_le by (auto intro: order_trans)

context pg_qsort
begin

lemma clamp_order:
  fixes w :: "SvsDbCpuWorking list"
  defines "order \<equiv> qsort qp (\<lambda>i j. CompareWorkingByDbOidAsc (w ! i) (w ! j)) [0..<length w]"
  shows "mset order = mset [0..<length w]" and "distinct order" and "set order = {..<length w}"
    and "floor_at w order = sum_list (map dw_floor w)"
    and "sorted_wrt (\<lambda>i j. dw_dbOid (w ! i) \<le> dw_dbOid (w ! j)) order"
proof -
  show m: "mset order = mset [0..<length w]"
    unfolding order_def by (rule mset_qsort [OF total_cmp_working])
  show "distinct order"
    using m by (metis distinct_upt mset_eq_imp_distinct_iff)
  show "set order = {..<length w}"
    using m by (metis atLeast0LessThan atLeastLessThan_upt set_mset_mset)
  have "floor_at w order = floor_at w [0..<length w]"
    unfolding floor_at_def using m by (rule sum_list_mset_map)
  also have "\<dots> = sum_list (map dw_floor w)"
    unfolding floor_at_def by (simp only: map_upt_nth)
  finally show "floor_at w order = sum_list (map dw_floor w)" .
  show "sorted_wrt (\<lambda>i j. dw_dbOid (w ! i) \<le> dw_dbOid (w ! j)) order"
    using sorted_qsort [OF total_cmp_working [of "(!) w"]]
    unfolding order_def CompareWorkingByDbOidAsc_le .
qed

lemma ClampFloorsToPool_spec:
  assumes "floors_in_range w" and "0 \<le> pool"
    and "ClampFloorsToPool qp w pool = (exceed, w')"
  shows "floors_lowered w w'"
    and "sum_list (map dw_floor w') = min pool (sum_list (map dw_floor w))"
    and "exceed \<longleftrightarrow> sum_list (map dw_floor w) > pool"
    and "\<not> exceed \<Longrightarrow> w' = w"
proof -
  let ?order = "qsort qp (\<lambda>i j. CompareWorkingByDbOidAsc (w ! i) (w ! j)) [0..<length w]"
  let ?total = "sum_list (map dw_floor w)"
  have "floors_lowered w w' \<and> sum_list (map dw_floor w') = min pool ?total \<and>
      (exceed \<longleftrightarrow> ?total > pool) \<and> (\<not> exceed \<longrightarrow> w' = w)"
  proof (cases "?total \<le> pool")
    case True
    with assms show ?thesis
      by (auto simp: ClampFloorsToPool_def floors_lowered_refl)
  next
    case False
    then have w': "exceed" "w' = CutFloors ?order (?total - pool) w"
      using assms(3) by (auto simp: ClampFloorsToPool_def Let_def)
    have "floors_lowered w w'"
      "sum_list (map dw_floor w') = ?total - (?total - pool)"
      unfolding w'(2) using CutFloors_spec(1,2) [OF assms(1) clamp_order(2) [of w]]
        clamp_order(3,4) [of w] assms(2) False by auto
    with False w'(1) show ?thesis by simp
  qed
  then show "floors_lowered w w'" "sum_list (map dw_floor w') = min pool ?total"
    "exceed \<longleftrightarrow> ?total > pool" "\<not> exceed \<Longrightarrow> w' = w"
    by auto
qed

lemma ClampFloorsToPool_lowest_oid_first:
  assumes "floors_in_range w" and "0 \<le> pool"
    and "ClampFloorsToPool qp w pool = (exceed, w')"
    and "i < length w" and "j < length w" and "dw_dbOid (w ! i) < dw_dbOid (w ! j)"
    and "dw_floor (w' ! j) \<noteq> dw_floor (w ! j)"
  shows "dw_floor (w' ! i) = 0"
proof -
  let ?order = "qsort qp (\<lambda>i j. CompareWorkingByDbOidAsc (w ! i) (w ! j)) [0..<length w]"
  let ?total = "sum_list (map dw_floor w)"
  have over: "?total > pool"
    using ClampFloorsToPool_spec [OF assms(1-3)] assms(7) by auto
  then have w': "w' = CutFloors ?order (?total - pool) w"
    using assms(3) by (auto simp: ClampFloorsToPool_def Let_def)
  have "i \<in> set ?order" "j \<in> set ?order"
    using assms(4,5) by (simp_all only: clamp_order(3) lessThan_iff)
  then obtain a b where a: "a < length ?order" "?order ! a = i"
    and b: "b < length ?order" "?order ! b = j"
    unfolding in_set_conv_nth by blast
  have "a < b"
  proof (rule ccontr)
    assume "\<not> a < b"
    then have "b < a \<or> b = a" by auto
    then have "dw_dbOid (w ! j) \<le> dw_dbOid (w ! i)"
      using sorted_wrt_nth_less [OF clamp_order(5) [of w], of b a] a b by auto
    with assms(6) show False by simp
  qed
  moreover have "set ?order \<subseteq> {..<length w}" "?total - pool \<le> floor_at w ?order"
    "0 \<le> ?total - pool"
    using assms(2) over by (simp_all add: clamp_order(3,4))
  moreover have "dw_floor (CutFloors ?order (?total - pool) w ! (?order ! b)) \<noteq>
      dw_floor (w ! (?order ! b))"
    using assms(7) unfolding b(2) w' .
  ultimately show ?thesis
    using CutFloors_priority [OF assms(1) clamp_order(2) [of w]] b(1)
    unfolding w' a(2) [symmetric] by blast
qed

end

section \<open>Apportionment\<close>

text \<open>Shares \<open>R w / d\<close> rounded down, and how much the rounding leaves over.\<close>

lemma floor_shares_leftover:
  fixes ws :: "int list" and R d :: int
  assumes "\<And>w. w \<in> set ws \<Longrightarrow> 0 \<le> w" and "d = sum_list ws" and "0 < d" and "0 \<le> R"
  defines "L \<equiv> R - sum_list (map (\<lambda>w. R * w div d) ws)"
  shows "0 \<le> L" and "L \<le> int (length (filter (\<lambda>w. 0 < R * w mod d) ws))"
proof -
  have split: "R * sum_list vs = d * sum_list (map (\<lambda>w. R * w div d) vs) +
      sum_list (map (\<lambda>w. R * w mod d) vs)" for vs
  proof (induction vs)
    case (Cons v vs)
    have "R * v = d * (R * v div d) + R * v mod d" by simp
    with Cons show ?case by (simp add: algebra_simps)
  qed simp
  have Ld: "L * d = sum_list (map (\<lambda>w. R * w mod d) ws)"
    using split [of ws] assms(2) unfolding L_def by (simp add: algebra_simps)
  have "0 \<le> sum_list (map (\<lambda>w. R * w mod d) ws)"
    using assms(3) by (intro sum_list_nonneg_int) simp
  with Ld assms(3) show "0 \<le> L"
    by (simp add: zero_le_mult_iff flip: Ld)
  have "sum_list (map (\<lambda>w. R * w mod d) vs) \<le>
      int (length (filter (\<lambda>w. 0 < R * w mod d) vs)) * d" for vs
  proof (induction vs)
    case (Cons v vs)
    have "0 \<le> R * v mod d" "R * v mod d < d" using assms(3) by simp_all
    with Cons show ?case by (auto simp: algebra_simps)
  qed simp
  from this [of ws] Ld assms(3) show "L \<le> int (length (filter (\<lambda>w. 0 < R * w mod d) ws))"
    by (metis mult_le_cancel_right_pos)
qed

text \<open>Claims as \<open>BuildClaims\<close> makes them: no negative weight, a positive ask, distinct targets.\<close>

definition claims_ok :: "SvsCpuClaim list \<Rightarrow> bool" where
  "claims_ok claims \<longleftrightarrow> distinct (map cl_grantOut claims) \<and>
     (\<forall>c \<in> set claims. 0 \<le> cl_weight c \<and> 0 < cl_ask c)"

lemma total_weight_nonneg: "claims_ok claims \<Longrightarrow> 0 \<le> total_weight claims"
  unfolding total_weight_def claims_ok_def by (intro sum_list_nonneg_int) auto

lemma share_denom_pos: "claims \<noteq> [] \<Longrightarrow> 0 < share_denom claims"
  by (simp add: share_denom_def)

lemma share_denom_eq:
  assumes "claims_ok claims"
  shows "share_denom claims = sum_list (map (weight_for_share claims) claims)"
proof (cases "total_weight claims > 0")
  case True
  then have eq: "map (weight_for_share claims) claims = map cl_weight claims"
    by (simp add: weight_for_share_def)
  from True show ?thesis unfolding eq by (simp add: share_denom_def total_weight_def)
next
  case False
  then have eq: "map (weight_for_share claims) claims = map (\<lambda>_. 1) claims"
    by (simp add: weight_for_share_def)
  from False show ?thesis unfolding eq by (simp add: share_denom_def sum_list_triv)
qed

lemma weight_for_share_nonneg:
  "claims_ok claims \<Longrightarrow> c \<in> set claims \<Longrightarrow> 0 \<le> weight_for_share claims c"
  by (auto simp: weight_for_share_def claims_ok_def)

lemma weight_for_share_le:
  assumes "claims_ok claims" and "c \<in> set claims"
  shows "weight_for_share claims c \<le> share_denom claims"
  unfolding share_denom_eq [OF assms(1)]
  using assms by (intro member_le_sum_int) (auto intro: weight_for_share_nonneg)

definition exact_floor_share :: "SvsCpuClaim list \<Rightarrow> int \<Rightarrow> SvsCpuClaim \<Rightarrow> int" where
  "exact_floor_share claims R c = R * weight_for_share claims c div share_denom claims"

definition exact_frac :: "SvsCpuClaim list \<Rightarrow> int \<Rightarrow> SvsCpuClaim \<Rightarrow> int" where
  "exact_frac claims R c = R * weight_for_share claims c mod share_denom claims"

lemma exact_floor_share_bounds:
  assumes "claims_ok claims" and "c \<in> set claims" and "0 \<le> R"
  shows "0 \<le> exact_floor_share claims R c" and "exact_floor_share claims R c \<le> R"
proof -
  have d: "0 < share_denom claims"
    using assms(2) by (intro share_denom_pos) auto
  then show "0 \<le> exact_floor_share claims R c"
    unfolding exact_floor_share_def
    using weight_for_share_nonneg [OF assms(1,2)] assms(3)
    by (intro pos_imp_zdiv_nonneg_iff [THEN iffD2]) auto
  have "R * weight_for_share claims c \<le> R * share_denom claims"
    using weight_for_share_le [OF assms(1,2)] assms(3) by (intro mult_left_mono)
  then have "exact_floor_share claims R c \<le> R * share_denom claims div share_denom claims"
    unfolding exact_floor_share_def using d by (intro zdiv_mono1)
  also have "\<dots> = R" using d by simp
  finally show "exact_floor_share claims R c \<le> R" .
qed

text \<open>The arithmetic of the code agrees with the exact shares: no cast truncates.\<close>

lemma code_floor_share:
  assumes "claims_ok claims" and "c \<in> set claims" and "0 \<le> R" and "R < 2 ^ 31"
  shows "cast_i32 (c_div (R * weight_for_share claims c) (share_denom claims)) =
    exact_floor_share claims R c"
proof -
  have "0 < share_denom claims"
    using assms(2) by (intro share_denom_pos) auto
  then have "c_div (R * weight_for_share claims c) (share_denom claims) =
      exact_floor_share claims R c"
    unfolding exact_floor_share_def
    using weight_for_share_nonneg [OF assms(1,2)] assms(3) by simp
  with exact_floor_share_bounds [OF assms(1-3)] assms(4) show ?thesis by simp
qed

lemma code_frac:
  assumes "claims_ok claims" and "c \<in> set claims" and "0 \<le> R"
  shows "c_mod (R * weight_for_share claims c) (share_denom claims) = exact_frac claims R c"
proof -
  have "0 < share_denom claims"
    using assms(2) by (intro share_denom_pos) auto
  then show ?thesis
    unfolding exact_frac_def using weight_for_share_nonneg [OF assms(1,2)] assms(3) by simp
qed

lemma exact_leftover:
  assumes "claims_ok claims" and "claims \<noteq> []" and "0 \<le> R"
  defines "L \<equiv> R - sum_list (map (exact_floor_share claims R) claims)"
  shows "0 \<le> L" and "L \<le> int (length (filter (\<lambda>c. 0 < exact_frac claims R c) claims))"
    and "L \<le> int (length claims)"
proof -
  let ?ws = "map (weight_for_share claims) claims"
  have shares: "map (\<lambda>w. R * w div share_denom claims) ?ws =
      map (exact_floor_share claims R) claims"
    by (simp add: exact_floor_share_def)
  have fracs: "length (filter (\<lambda>w. 0 < R * w mod share_denom claims) ?ws) =
      length (filter (\<lambda>c. 0 < exact_frac claims R c) claims)"
    by (simp add: exact_frac_def filter_map comp_def)
  have nonneg: "\<And>w. w \<in> set ?ws \<Longrightarrow> 0 \<le> w"
    using weight_for_share_nonneg [OF assms(1)] by auto
  note * = floor_shares_leftover [OF nonneg share_denom_eq [OF assms(1)]
      share_denom_pos [OF assms(2)] assms(3)]
  show "0 \<le> L" and frac: "L \<le> int (length (filter (\<lambda>c. 0 < exact_frac claims R c) claims))"
    using * unfolding shares fracs L_def by simp_all
  have "length (filter (\<lambda>c. 0 < exact_frac claims R c) claims) \<le> length claims"
    by simp
  with frac show "L \<le> int (length claims)" by linarith
qed

text \<open>What a list of additions adds to one target.\<close>

definition granted :: "(GrantOut \<times> int) list \<Rightarrow> GrantOut \<Rightarrow> int" where
  "granted gs t = sum_list (map snd (filter (\<lambda>g. fst g = t) gs))"

lemma granted_Nil [simp]: "granted [] t = 0"
  by (simp add: granted_def)

lemma granted_append [simp]: "granted (xs @ ys) t = granted xs t + granted ys t"
  by (simp add: granted_def)

lemma granted_outside: "t \<notin> fst ` set gs \<Longrightarrow> granted gs t = 0"
  unfolding granted_def by (induction gs) auto

lemma granted_distinct:
  assumes "distinct (map fst gs)" and "(t, a) \<in> set gs"
  shows "granted gs t = a"
  using assms
proof (induction gs)
  case (Cons g gs)
  then show ?case
  proof (cases "g = (t, a)")
    case True
    with Cons.prems have "granted gs t = 0" by (intro granted_outside) auto
    with True show ?thesis by (simp add: granted_def)
  next
    case False
    with Cons.prems have "(t, a) \<in> set gs" by auto
    then have "t \<in> set (map fst gs)" by force
    with Cons.prems have "fst g \<noteq> t" by auto
    with Cons False show ?thesis by (simp add: granted_def)
  qed
qed simp

lemma sum_granted:
  assumes "distinct ts" and "fst ` set gs \<subseteq> set ts"
  shows "sum_list (map (granted gs) ts) = sum_list (map snd gs)"
  using assms(2)
proof (induction gs)
  case Nil
  show ?case by (induction ts) simp_all
next
  case (Cons x gs)
  have "sum_list (map (\<lambda>t. if fst x = t then snd x else 0) ts) = snd x"
    using Cons.prems assms(1) by (simp add: sum_list_distinct_conv_sum_set)
  moreover have "granted (x # gs) t = (if fst x = t then snd x else 0) + granted gs t" for t
    by (simp add: granted_def)
  ultimately show ?case using Cons by (simp add: sum_list_addf)
qed

lemma granted_map:
  assumes "distinct (map out cs)" and "c \<in> set cs"
  shows "granted (map (\<lambda>c. (out c, f c)) cs) (out c) = f c"
  using assms by (intro granted_distinct) (auto simp: comp_def)

lemma CompareClaimsForLeftover_le:
  "CompareClaimsForLeftover a b \<le> 0 \<longleftrightarrow>
     cl_fracNumerator a > cl_fracNumerator b \<or>
     cl_fracNumerator a = cl_fracNumerator b \<and>
       (cl_weight a > cl_weight b \<or>
        cl_weight a = cl_weight b \<and>
          (cl_dbOid a < cl_dbOid b \<or>
           cl_dbOid a = cl_dbOid b \<and> cl_requestPid a \<le> cl_requestPid b))"
  by (auto simp: CompareClaimsForLeftover_def)

lemma total_cmp_leftover: "total_cmp CompareClaimsForLeftover"
  unfolding total_cmp_def CompareClaimsForLeftover_le by auto

lemma filter_prefix_bound:
  assumes "i < length s" and "\<And>j. i \<le> j \<Longrightarrow> j < length s \<Longrightarrow> \<not> P (s ! j)"
  shows "length (filter P s) \<le> i"
proof -
  have "\<not> P x" if "x \<in> set (drop i s)" for x
  proof -
    from that obtain j where "j < length (drop i s)" "x = drop i s ! j"
      by (auto simp: in_set_conv_nth)
    with assms(2) [of "i + j"] show ?thesis by simp
  qed
  then have "filter P (drop i s) = []" by (simp add: filter_empty_conv)
  then have "filter P s = filter P (take i s)"
    by (metis append_Nil2 append_take_drop_id filter_append)
  then show ?thesis
    by (metis length_filter_le length_take min.bounded_iff)
qed

context pg_qsort
begin

text \<open>The rounding step, by position in the sorted array.\<close>

lemma DistributeLeftover_positions:
  fixes claims R
  assumes ok: "claims_ok claims" and ne: "claims \<noteq> []" and R: "0 \<le> R"
    and fs: "\<forall>c \<in> set claims. cl_floorShare c = exact_floor_share claims R c"
  defines "fracs \<equiv> map (\<lambda>c. c\<lparr>cl_fracNumerator := exact_frac claims R c\<rparr>) claims"
  defines "s \<equiv> qsort qp CompareClaimsForLeftover fracs"
  defines "L \<equiv> R - sum_list (map (exact_floor_share claims R) claims)"
  shows "DistributeLeftover qp claims R =
      map (\<lambda>i. (cl_grantOut (s ! i), cl_floorShare (s ! i) + (if int i < L then 1 else 0)))
        [0..<length s]"
    and "mset s = mset fracs"
    and "\<And>i j. i < j \<Longrightarrow> j < length s \<Longrightarrow> cl_fracNumerator (s ! j) \<le> cl_fracNumerator (s ! i)"
proof -
  have fracs: "map (\<lambda>c. c\<lparr>cl_fracNumerator :=
      c_mod (R * weight_for_share claims c) (share_denom claims)\<rparr>) claims = fracs"
    unfolding fracs_def using code_frac [OF ok _ R] by simp
  have L: "R - sum_list (map cl_floorShare fracs) = L"
    unfolding fracs_def L_def using fs by (simp add: comp_def cong: map_cong)
  show "DistributeLeftover qp claims R =
      map (\<lambda>i. (cl_grantOut (s ! i), cl_floorShare (s ! i) + (if int i < L then 1 else 0)))
        [0..<length s]"
    unfolding DistributeLeftover_def Let_def fracs L s_def ..
  show "mset s = mset fracs"
    unfolding s_def by (rule mset_qsort [OF total_cmp_leftover])
  show "cl_fracNumerator (s ! j) \<le> cl_fracNumerator (s ! i)" if "i < j" "j < length s" for i j
    using sorted_wrt_nth_less [OF sorted_qsort [OF total_cmp_leftover, of fracs]] that
    unfolding s_def CompareClaimsForLeftover_le by fastforce
qed

lemma DistributeLeftover_claim:
  assumes ok: "claims_ok claims" and R: "0 \<le> R"
    and fs: "\<forall>c \<in> set claims. cl_floorShare c = exact_floor_share claims R c"
    and c: "c \<in> set claims"
  defines "fracs \<equiv> map (\<lambda>c. c\<lparr>cl_fracNumerator := exact_frac claims R c\<rparr>) claims"
  defines "s \<equiv> qsort qp CompareClaimsForLeftover fracs"
  defines "L \<equiv> R - sum_list (map (exact_floor_share claims R) claims)"
  obtains i where "i < length s" and "s ! i = c\<lparr>cl_fracNumerator := exact_frac claims R c\<rparr>"
    and "granted (DistributeLeftover qp claims R) (cl_grantOut c) =
      exact_floor_share claims R c + (if int i < L then 1 else 0)"
proof -
  have ne: "claims \<noteq> []" using c by auto
  note pos = DistributeLeftover_positions [OF ok ne R fs, folded fracs_def, folded s_def L_def]
  have outs: "distinct (map cl_grantOut s)"
  proof -
    have "mset (map cl_grantOut s) = mset (map cl_grantOut claims)"
      using pos(2) by (simp add: fracs_def image_mset.compositionality comp_def)
    with ok show ?thesis unfolding claims_ok_def by (metis mset_eq_imp_distinct_iff)
  qed
  have "c\<lparr>cl_fracNumerator := exact_frac claims R c\<rparr> \<in> set s"
    using c mset_eq_setD [OF pos(2)] by (simp add: fracs_def)
  then obtain i where i: "i < length s" "s ! i = c\<lparr>cl_fracNumerator := exact_frac claims R c\<rparr>"
    unfolding in_set_conv_nth by blast
  let ?g = "\<lambda>i. (cl_grantOut (s ! i), cl_floorShare (s ! i) + (if int i < L then 1 else 0))"
  have "map fst (map ?g [0..<length s]) = map cl_grantOut s"
    by (simp add: comp_def map_upt_nth)
  moreover have "?g i \<in> set (map ?g [0..<length s])"
    using i(1) by simp
  ultimately have "granted (map ?g [0..<length s]) (cl_grantOut (s ! i)) =
      cl_floorShare (s ! i) + (if int i < L then 1 else 0)"
    using outs by (intro granted_distinct) simp_all
  with that [of i] i bspec [OF fs c] show thesis
    unfolding pos(1) by simp
qed

end

lemma sum_indicator_prefix:
  "0 \<le> L \<Longrightarrow> L \<le> int n \<Longrightarrow> sum_list (map (\<lambda>i. if int i < L then 1 else 0) [0..<n]) = (L :: int)"
proof (induction n arbitrary: L)
  case (Suc n)
  show ?case
  proof (cases "L \<le> int n")
    case True
    with Suc show ?thesis by simp
  next
    case False
    with Suc.prems have L: "L = int n + 1" by simp
    have eq: "map (\<lambda>i. if int i < L then 1 else 0) [0..<n] =
        map (\<lambda>i. if int i < int n then 1 else 0 :: int) [0..<n]"
      by (rule map_cong) (auto simp: L)
    have "sum_list (map (\<lambda>i. if int i < L then 1 else 0) [0..<n]) = int n"
      unfolding eq by (rule Suc.IH) simp_all
    with L show ?thesis by simp
  qed
qed simp

context pg_qsort
begin

lemma DistributeLeftover_total:
  assumes ok: "claims_ok claims" and ne: "claims \<noteq> []" and R: "0 \<le> R"
    and fs: "\<forall>c \<in> set claims. cl_floorShare c = exact_floor_share claims R c"
  shows "sum_list (map snd (DistributeLeftover qp claims R)) = R"
    and "fst ` set (DistributeLeftover qp claims R) = cl_grantOut ` set claims"
proof -
  define fracs where "fracs = map (\<lambda>c. c\<lparr>cl_fracNumerator := exact_frac claims R c\<rparr>) claims"
  define s where "s = qsort qp CompareClaimsForLeftover fracs"
  define L where "L = R - sum_list (map (exact_floor_share claims R) claims)"
  note pos = DistributeLeftover_positions [OF ok ne R fs, folded fracs_def, folded s_def L_def]
  have len: "length s = length claims"
    using mset_eq_length [OF pos(2)] by (simp add: fracs_def)
  have "sum_list (map snd (DistributeLeftover qp claims R)) =
      sum_list (map cl_floorShare s) + sum_list (map (\<lambda>i. if int i < L then 1 else 0) [0..<length s])"
    unfolding pos(1) by (simp add: comp_def sum_list_addf map_upt_nth)
  also have "sum_list (map cl_floorShare s) = sum_list (map cl_floorShare fracs)"
    using pos(2) by (rule sum_list_mset_map)
  also have "\<dots> = sum_list (map (exact_floor_share claims R) claims)"
    unfolding fracs_def using fs by (simp add: comp_def cong: map_cong)
  also have "sum_list (map (\<lambda>i. if int i < L then 1 else 0) [0..<length s]) = L"
    unfolding len L_def using exact_leftover(1,3) [OF ok ne R] by (intro sum_indicator_prefix)
  finally show "sum_list (map snd (DistributeLeftover qp claims R)) = R"
    by (simp add: L_def)
  have "map fst (DistributeLeftover qp claims R) = map cl_grantOut s"
    unfolding pos(1) by (simp add: comp_def map_upt_nth)
  then have "fst ` set (DistributeLeftover qp claims R) = cl_grantOut ` set s"
    by (metis list.set_map)
  then show "fst ` set (DistributeLeftover qp claims R) = cl_grantOut ` set claims"
    using mset_eq_setD [OF pos(2)] by (simp add: fracs_def image_image)
qed

text \<open>A claim with no fractional part is never rounded up.\<close>

lemma DistributeLeftover_no_frac:
  assumes ok: "claims_ok claims" and R: "0 \<le> R"
    and fs: "\<forall>c \<in> set claims. cl_floorShare c = exact_floor_share claims R c"
    and c: "c \<in> set claims" and zero: "exact_frac claims R c = 0"
  shows "granted (DistributeLeftover qp claims R) (cl_grantOut c) = exact_floor_share claims R c"
proof -
  have ne: "claims \<noteq> []" using c by auto
  define fracs where "fracs = map (\<lambda>c. c\<lparr>cl_fracNumerator := exact_frac claims R c\<rparr>) claims"
  define s where "s = qsort qp CompareClaimsForLeftover fracs"
  define L where "L = R - sum_list (map (exact_floor_share claims R) claims)"
  note pos = DistributeLeftover_positions [OF ok ne R fs, folded fracs_def, folded s_def L_def]
  obtain i where i: "i < length s" "s ! i = c\<lparr>cl_fracNumerator := exact_frac claims R c\<rparr>"
      "granted (DistributeLeftover qp claims R) (cl_grantOut c) =
        exact_floor_share claims R c + (if int i < L then 1 else 0)"
    using DistributeLeftover_claim [OF ok R fs c, folded fracs_def, folded s_def L_def] .
  have "\<not> 0 < cl_fracNumerator (s ! j)" if "i \<le> j" "j < length s" for j
    using pos(3) [of i j] that i(2) zero by (cases "i = j") auto
  then have "length (filter (\<lambda>c. 0 < cl_fracNumerator c) s) \<le> i"
    by (rule filter_prefix_bound [OF i(1)])
  moreover have "length (filter (\<lambda>c. 0 < cl_fracNumerator c) s) =
      length (filter (\<lambda>c. 0 < cl_fracNumerator c) fracs)"
    using pos(2) by (metis mset_filter size_mset)
  moreover have "\<dots> = length (filter (\<lambda>c. 0 < exact_frac claims R c) claims)"
    unfolding fracs_def by (simp add: filter_map comp_def)
  moreover have "L \<le> int (length (filter (\<lambda>c. 0 < exact_frac claims R c) claims))"
    unfolding L_def using exact_leftover(2) [OF ok ne R] .
  ultimately have "\<not> int i < L" by linarith
  with i(3) show ?thesis by simp
qed

lemma DistributeLeftover_near_share:
  assumes "claims_ok claims" and "0 \<le> R"
    and "\<forall>c \<in> set claims. cl_floorShare c = exact_floor_share claims R c"
    and "c \<in> set claims"
  shows "exact_floor_share claims R c \<le> granted (DistributeLeftover qp claims R) (cl_grantOut c)"
    and "granted (DistributeLeftover qp claims R) (cl_grantOut c) \<le> exact_floor_share claims R c + 1"
  by (rule DistributeLeftover_claim [OF assms]; simp)+

text \<open>The spare units go to the largest fractional parts.\<close>

lemma DistributeLeftover_largest_remainder:
  assumes ok: "claims_ok claims" and R: "0 \<le> R"
    and fs: "\<forall>c \<in> set claims. cl_floorShare c = exact_floor_share claims R c"
    and c: "c \<in> set claims" and d: "d \<in> set claims"
    and up: "granted (DistributeLeftover qp claims R) (cl_grantOut c) \<noteq> exact_floor_share claims R c"
    and down: "granted (DistributeLeftover qp claims R) (cl_grantOut d) = exact_floor_share claims R d"
  shows "exact_frac claims R d \<le> exact_frac claims R c"
proof -
  have ne: "claims \<noteq> []" using c by auto
  define fracs where "fracs = map (\<lambda>c. c\<lparr>cl_fracNumerator := exact_frac claims R c\<rparr>) claims"
  define s where "s = qsort qp CompareClaimsForLeftover fracs"
  define L where "L = R - sum_list (map (exact_floor_share claims R) claims)"
  note pos = DistributeLeftover_positions [OF ok ne R fs, folded fracs_def, folded s_def L_def]
  obtain i where i: "i < length s" "s ! i = c\<lparr>cl_fracNumerator := exact_frac claims R c\<rparr>"
      "granted (DistributeLeftover qp claims R) (cl_grantOut c) =
        exact_floor_share claims R c + (if int i < L then 1 else 0)"
    using DistributeLeftover_claim [OF ok R fs c, folded fracs_def, folded s_def L_def] .
  obtain j where j: "j < length s" "s ! j = d\<lparr>cl_fracNumerator := exact_frac claims R d\<rparr>"
      "granted (DistributeLeftover qp claims R) (cl_grantOut d) =
        exact_floor_share claims R d + (if int j < L then 1 else 0)"
    using DistributeLeftover_claim [OF ok R fs d, folded fracs_def, folded s_def L_def] .
  have "i < j"
    using i(3) j(3) up down by (simp split: if_splits)
  from pos(3) [OF this j(1)] i(2) j(2) show ?thesis by simp
qed

end

text \<open>The array after the share loop: the claims with \<open>floorShare\<close> filled in.\<close>

definition with_shares :: "SvsCpuClaim list \<Rightarrow> int \<Rightarrow> SvsCpuClaim list" where
  "with_shares claims R = map (\<lambda>c. c\<lparr>cl_floorShare := exact_floor_share claims R c\<rparr>) claims"

lemma with_shares_simps [simp]:
  "length (with_shares claims R) = length claims"
  "map cl_weight (with_shares claims R) = map cl_weight claims"
  "map cl_ask (with_shares claims R) = map cl_ask claims"
  "map cl_grantOut (with_shares claims R) = map cl_grantOut claims"
  by (simp_all add: with_shares_def)

lemma shares_of_with_shares:
  "total_weight (with_shares claims R) = total_weight claims"
  "share_denom (with_shares claims R) = share_denom claims"
  by (simp_all add: total_weight_def share_denom_def)

lemma floorShare_with_shares:
  "\<forall>c \<in> set (with_shares claims R).
     cl_floorShare c = exact_floor_share (with_shares claims R) R c"
proof
  fix c assume "c \<in> set (with_shares claims R)"
  then obtain d where "c = d\<lparr>cl_floorShare := exact_floor_share claims R d\<rparr>"
    by (auto simp: with_shares_def)
  then show "cl_floorShare c = exact_floor_share (with_shares claims R) R c"
    by (simp add: exact_floor_share_def weight_for_share_def shares_of_with_shares)
qed

lemma claims_ok_with_shares: "claims_ok claims \<Longrightarrow> claims_ok (with_shares claims R)"
  by (auto simp: claims_ok_def) (auto simp: with_shares_def)

lemma claims_ok_filter: "claims_ok claims \<Longrightarrow> claims_ok (filter P claims)"
  by (auto simp: claims_ok_def distinct_map_filter)

lemma code_with_shares:
  assumes "claims_ok claims" and "0 \<le> R" and "R < 2 ^ 31"
  shows "map (\<lambda>c. c\<lparr>cl_floorShare :=
      cast_i32 (c_div (R * weight_for_share claims c) (share_denom claims))\<rparr>) claims =
    with_shares claims R"
  unfolding with_shares_def using code_floor_share [OF assms(1) _ assms(2,3)] by simp

text \<open>Unfolding one pass, with the exact shares in place of the code's arithmetic.\<close>

lemma ApportionRemainder_unfold:
  assumes "claims_ok claims" and "R < 2 ^ 31"
  shows "ApportionRemainder qp claims R =
    (if claims = [] \<or> R \<le> 0 then []
     else if R \<ge> sum_list (map cl_ask claims) then map (\<lambda>c. (cl_grantOut c, cl_ask c)) claims
     else
       let shared = with_shares claims R;
           settled = filter (\<lambda>c. cl_floorShare c \<ge> cl_ask c) shared;
           newActive = filter (\<lambda>c. \<not> cl_floorShare c \<ge> cl_ask c) shared
       in if length newActive < length claims
          then map (\<lambda>c. (cl_grantOut c, cl_ask c)) settled @
               ApportionRemainder qp newActive (R - sum_list (map cl_ask settled))
          else DistributeLeftover qp shared R)"
proof (cases "claims = [] \<or> R \<le> 0")
  case True
  then show ?thesis by (simp add: ApportionRemainder.simps)
next
  case False
  then have "0 \<le> R" by simp
  note shares = code_with_shares [OF assms(1) this assms(2)]
  have all: "filter P (with_shares claims R) = with_shares claims R"
    if "\<not> length (filter P (with_shares claims R)) < length claims" for P
    using that sum_length_filter_compl [of P "with_shares claims R"]
    by (metis length_filter_less linorder_neqE_nat not_less_iff_gr_or_eq filter_True with_shares_simps(1))
  show ?thesis
    using False unfolding ApportionRemainder.simps [of qp claims R] Let_def shares
    by (simp add: all)
qed

text \<open>
  What the split promises for claims \<open>cs\<close> and a remainder \<open>R\<close>, about the total \<open>g t\<close> added to each
  target: nothing outside the claims, never more than the ask, the whole remainder unless every
  ask is met, and the same for the claims with a positive weight taken alone.
\<close>

definition weighted :: "SvsCpuClaim list \<Rightarrow> SvsCpuClaim list" where
  "weighted cs = filter (\<lambda>c. 0 < cl_weight c) cs"

definition split_ok :: "SvsCpuClaim list \<Rightarrow> int \<Rightarrow> (GrantOut \<Rightarrow> int) \<Rightarrow> bool" where
  "split_ok cs R g \<longleftrightarrow>
     (\<forall>t. t \<notin> cl_grantOut ` set cs \<longrightarrow> g t = 0) \<and>
     (\<forall>c \<in> set cs. 0 \<le> g (cl_grantOut c) \<and> g (cl_grantOut c) \<le> cl_ask c) \<and>
     sum_list (map (\<lambda>c. g (cl_grantOut c)) cs) = min R (sum_list (map cl_ask cs)) \<and>
     sum_list (map (\<lambda>c. g (cl_grantOut c)) (weighted cs)) =
       min R (sum_list (map cl_ask (weighted cs)))"

lemma split_ok_with_shares: "split_ok (with_shares claims R) R' g \<longleftrightarrow> split_ok claims R' g"
  by (simp add: split_ok_def with_shares_def weighted_def filter_map comp_def image_image)

lemma split_ok_exhausted:
  assumes "claims_ok claims"
  shows "split_ok claims 0 (\<lambda>t. 0)"
proof -
  have "0 \<le> sum_list (map cl_ask (filter P claims))" for P
    using assms unfolding claims_ok_def by (intro sum_list_nonneg_int) force
  from this [of "\<lambda>_. True"] this [of "\<lambda>c. 0 < cl_weight c"] show ?thesis
    using assms by (auto simp: split_ok_def claims_ok_def weighted_def sum_list_0)
qed

lemma sum_weighted_le:
  assumes "claims_ok cs"
  shows "sum_list (map cl_ask (weighted cs)) \<le> sum_list (map cl_ask cs)"
proof -
  have "0 \<le> sum_list (map cl_ask (filter (\<lambda>c. \<not> 0 < cl_weight c) cs))"
    using assms unfolding claims_ok_def by (intro sum_list_nonneg_int) force
  with sum_list_filter_split [of cl_ask "\<lambda>c. 0 < cl_weight c" cs] show ?thesis
    unfolding weighted_def by linarith
qed

lemma split_ok_all_asks:
  assumes ok: "claims_ok cs" and R: "sum_list (map cl_ask cs) \<le> R"
  shows "split_ok cs R (granted (map (\<lambda>c. (cl_grantOut c, cl_ask c)) cs))"
proof -
  have g: "granted (map (\<lambda>c. (cl_grantOut c, cl_ask c)) cs) (cl_grantOut c) = cl_ask c"
    if "c \<in> set cs" for c
    using ok that unfolding claims_ok_def by (intro granted_map) auto
  then have sums: "sum_list (map (\<lambda>c. granted (map (\<lambda>c. (cl_grantOut c, cl_ask c)) cs)
      (cl_grantOut c)) ds) = sum_list (map cl_ask ds)" if "set ds \<subseteq> set cs" for ds
    using that by (intro arg_cong [where f = sum_list] map_cong) auto
  have "set (weighted cs) \<subseteq> set cs" by (auto simp: weighted_def)
  moreover have "granted (map (\<lambda>c. (cl_grantOut c, cl_ask c)) cs) t = 0"
    if "t \<notin> cl_grantOut ` set cs" for t
    using that by (intro granted_outside) force
  ultimately show ?thesis
    using R sum_weighted_le [OF ok] g ok sums unfolding split_ok_def claims_ok_def by force
qed

text \<open>Settling some claims at their ask and splitting the rest over the others.\<close>

lemma split_ok_settle:
  assumes ok: "claims_ok cs"
    and rest: "split_ok (filter (\<lambda>c. \<not> P c) cs) (R - sum_list (map cl_ask (filter P cs))) g"
    and nonneg: "0 \<le> R - sum_list (map cl_ask (filter P cs))"
    and weights: "\<And>c d. c \<in> set cs \<Longrightarrow> P c \<Longrightarrow> cl_weight c = 0 \<Longrightarrow> d \<in> set cs \<Longrightarrow> cl_weight d = 0"
  shows "split_ok cs R
    (\<lambda>t. granted (map (\<lambda>c. (cl_grantOut c, cl_ask c)) (filter P cs)) t + g t)"
proof -
  let ?S = "granted (map (\<lambda>c. (cl_grantOut c, cl_ask c)) (filter P cs))"
  let ?g = "\<lambda>t. ?S t + g t"
  have dist: "distinct (map cl_grantOut cs)" using ok by (simp add: claims_ok_def)
  have settled: "?g (cl_grantOut c) = cl_ask c" if "c \<in> set cs" "P c" for c
  proof -
    have "?S (cl_grantOut c) = cl_ask c"
      using dist that by (intro granted_map) (auto simp: distinct_map_filter)
    moreover have "cl_grantOut c \<notin> cl_grantOut ` set (filter (\<lambda>c. \<not> P c) cs)"
      using dist that by (auto simp: distinct_map inj_on_def)
    ultimately show ?thesis using rest by (simp add: split_ok_def)
  qed
  have active: "?g (cl_grantOut c) = g (cl_grantOut c)" if "c \<in> set cs" "\<not> P c" for c
  proof -
    have "cl_grantOut c \<notin> fst ` set (map (\<lambda>c. (cl_grantOut c, cl_ask c)) (filter P cs))"
      using dist that by (auto simp: distinct_map inj_on_def)
    then show ?thesis by (simp add: granted_outside)
  qed
  have sums: "sum_list (map (\<lambda>c. ?g (cl_grantOut c)) ds) =
      sum_list (map cl_ask (filter P ds)) +
      sum_list (map (\<lambda>c. g (cl_grantOut c)) (filter (\<lambda>c. \<not> P c) ds))" if "set ds \<subseteq> set cs" for ds
    using that by (induction ds) (auto simp: settled active)
  have ask_split: "sum_list (map cl_ask ds) = sum_list (map cl_ask (filter P ds)) +
      sum_list (map cl_ask (filter (\<lambda>c. \<not> P c) ds))" for ds
    by (simp add: sum_list_filter_split)
  have w: "filter (\<lambda>c. \<not> P c) (weighted cs) = weighted (filter (\<lambda>c. \<not> P c) cs)"
    "set (weighted cs) \<subseteq> set cs"
    by (auto simp: weighted_def conj_commute intro!: filter_cong)
  have total: "sum_list (map (\<lambda>c. ?g (cl_grantOut c)) cs) = min R (sum_list (map cl_ask cs))"
    using rest unfolding sums [OF order_refl] split_ok_def by (simp add: ask_split [of cs] min_def)
  have wtotal: "sum_list (map (\<lambda>c. ?g (cl_grantOut c)) (weighted cs)) =
      min R (sum_list (map cl_ask (weighted cs)))"
  proof (cases "\<exists>c \<in> set cs. P c \<and> cl_weight c = 0")
    case True
    then have "weighted cs = []"
      using weights by (fastforce simp: weighted_def filter_empty_conv)
    moreover have "0 \<le> sum_list (map cl_ask (filter P cs))"
      using ok unfolding claims_ok_def by (intro sum_list_nonneg_int) force
    ultimately show ?thesis using nonneg by simp
  next
    case False
    have "filter P (weighted cs) = filter P cs"
      unfolding weighted_def filter_filter using False ok unfolding claims_ok_def
      by (intro filter_cong) force+
    then show ?thesis
      using rest unfolding sums [OF w(2)] split_ok_def w(1)
      by (simp add: ask_split [of "weighted cs"] w(1) min_def)
  qed
  have "0 \<le> ?g (cl_grantOut c) \<and> ?g (cl_grantOut c) \<le> cl_ask c" if "c \<in> set cs" for c
    using that rest ok settled [OF that] active [OF that]
    unfolding split_ok_def claims_ok_def by (cases "P c") fastforce+
  moreover have "?g t = 0" if "t \<notin> cl_grantOut ` set cs" for t
  proof -
    have "?S t = 0" using that by (intro granted_outside) auto
    moreover have "g t = 0" using that rest unfolding split_ok_def by auto
    ultimately show ?thesis by simp
  qed
  ultimately show ?thesis unfolding split_ok_def using total wtotal by blast
qed

text \<open>The settled claims of one pass never take more than the remainder.\<close>

lemma settled_asks_le:
  assumes ok: "claims_ok claims" and ne: "claims \<noteq> []" and R: "0 \<le> R"
  defines "settled \<equiv> filter (\<lambda>c. cl_floorShare c \<ge> cl_ask c) (with_shares claims R)"
  shows "0 \<le> sum_list (map cl_ask settled)" and "sum_list (map cl_ask settled) \<le> R"
proof -
  let ?P = "\<lambda>c. cl_floorShare c \<ge> cl_ask c"
  let ?cs = "with_shares claims R"
  show "0 \<le> sum_list (map cl_ask settled)"
    using claims_ok_with_shares [OF ok, of R] unfolding claims_ok_def settled_def
    by (intro sum_list_nonneg_int) force
  have shares: "sum_list (map cl_floorShare ?cs) \<le> R"
    using exact_leftover(1) [OF ok ne R] by (simp add: with_shares_def comp_def)
  have "sum_list (map cl_ask settled) \<le> sum_list (map cl_floorShare settled)"
    unfolding settled_def by (intro sum_list_map_mono_int) simp
  moreover have "0 \<le> sum_list (map cl_floorShare (filter (\<lambda>c. \<not> ?P c) ?cs))"
    using exact_floor_share_bounds(1) [OF ok _ R]
    by (intro sum_list_nonneg_int) (auto simp: with_shares_def)
  ultimately show "sum_list (map cl_ask settled) \<le> R"
    using shares sum_list_filter_split [of cl_floorShare ?P ?cs] unfolding settled_def by linarith
qed

text \<open>A claim of weight zero settles only in a pass in which no claim has weight.\<close>

lemma settled_without_weight:
  assumes ok: "claims_ok claims"
    and c: "c \<in> set (with_shares claims R)" "cl_ask c \<le> cl_floorShare c" "cl_weight c = 0"
    and d: "d \<in> set (with_shares claims R)"
  shows "cl_weight d = 0"
proof -
  let ?cs = "with_shares claims R"
  have okc: "claims_ok ?cs" by (rule claims_ok_with_shares [OF ok])
  with c have "0 < cl_floorShare c" unfolding claims_ok_def by force
  then have "weight_for_share ?cs c \<noteq> 0"
    using floorShare_with_shares c(1) by (auto simp: exact_floor_share_def)
  with c(3) have "\<not> total_weight ?cs > 0" by (auto simp: weight_for_share_def)
  then show ?thesis
    using member_le_sum_int [of ?cs cl_weight d] d okc
    unfolding claims_ok_def total_weight_def by force
qed

context pg_qsort
begin

lemma split_ok_distribute:
  assumes ok: "claims_ok claims" and ne: "claims \<noteq> []" and R: "0 \<le> R"
    and fs: "\<forall>c \<in> set claims. cl_floorShare c = exact_floor_share claims R c"
    and below: "\<forall>c \<in> set claims. cl_floorShare c < cl_ask c"
  shows "split_ok claims R (granted (DistributeLeftover qp claims R))"
proof -
  let ?g = "granted (DistributeLeftover qp claims R)"
  have bounds: "0 \<le> ?g (cl_grantOut c) \<and> ?g (cl_grantOut c) \<le> cl_ask c" if "c \<in> set claims" for c
    using DistributeLeftover_near_share [OF ok R fs that] exact_floor_share_bounds [OF ok that R]
      fs below that by force
  have outside: "?g t = 0" if "t \<notin> cl_grantOut ` set claims" for t
    using that DistributeLeftover_total(2) [OF ok ne R fs] by (intro granted_outside) simp
  have total: "sum_list (map (\<lambda>c. ?g (cl_grantOut c)) claims) = R"
  proof -
    have targets: "fst ` set (DistributeLeftover qp claims R) \<subseteq> set (map cl_grantOut claims)"
      using DistributeLeftover_total(2) [OF ok ne R fs] by simp
    from sum_granted [OF _ targets] ok DistributeLeftover_total(1) [OF ok ne R fs] show ?thesis
      by (simp add: claims_ok_def comp_def)
  qed
  have "sum_list (map (\<lambda>c. ?g (cl_grantOut c)) claims) \<le> sum_list (map cl_ask claims)"
    using bounds by (intro sum_list_map_mono_int) auto
  moreover have "sum_list (map (\<lambda>c. ?g (cl_grantOut c)) (weighted claims)) =
      min R (sum_list (map cl_ask (weighted claims)))"
  proof (cases "total_weight claims > 0")
    case True
    have zero: "?g (cl_grantOut c) = 0" if "c \<in> set claims" "\<not> 0 < cl_weight c" for c
    proof -
      from that ok have "weight_for_share claims c = 0"
        using True unfolding claims_ok_def weight_for_share_def by fastforce
      then have "exact_frac claims R c = 0" "exact_floor_share claims R c = 0"
        by (simp_all add: exact_frac_def exact_floor_share_def)
      with DistributeLeftover_no_frac [OF ok R fs that(1)] show ?thesis by simp
    qed
    have "sum_list (map (\<lambda>c. ?g (cl_grantOut c)) (filter (\<lambda>c. \<not> 0 < cl_weight c) claims)) = 0"
      using zero by (intro sum_list_all_zero) auto
    then have w: "sum_list (map (\<lambda>c. ?g (cl_grantOut c)) (weighted claims)) = R"
      using sum_list_filter_split [of "\<lambda>c. ?g (cl_grantOut c)" "\<lambda>c. 0 < cl_weight c" claims] total
      unfolding weighted_def by linarith
    moreover have "sum_list (map (\<lambda>c. ?g (cl_grantOut c)) (weighted claims)) \<le>
        sum_list (map cl_ask (weighted claims))"
      using bounds by (intro sum_list_map_mono_int) (auto simp: weighted_def)
    ultimately show ?thesis by simp
  next
    case False
    have "cl_weight c = 0" if "c \<in> set claims" for c
      using member_le_sum_int [of claims cl_weight c] that ok False
      unfolding claims_ok_def total_weight_def by force
    then have "weighted claims = []" by (auto simp: weighted_def filter_empty_conv)
    with R show ?thesis by simp
  qed
  ultimately show ?thesis
    unfolding split_ok_def using bounds outside total by simp
qed

theorem ApportionRemainder_split_ok:
  assumes "claims_ok claims" and "0 \<le> R" and "R < 2 ^ 31"
  shows "split_ok claims R (granted (ApportionRemainder qp claims R))"
  using assms
proof (induction "length claims" arbitrary: claims R rule: less_induct)
  case less
  let ?cs = "with_shares claims R"
  let ?P = "\<lambda>c. cl_floorShare c \<ge> cl_ask c"
  note unfold = ApportionRemainder_unfold [OF less.prems(1,3), of qp]
  have okc: "claims_ok ?cs" by (rule claims_ok_with_shares [OF less.prems(1)])
  consider (stop) "claims = [] \<or> R = 0" | (all) "claims \<noteq> []" "R > 0" "R \<ge> sum_list (map cl_ask claims)"
    | (settle) "claims \<noteq> []" "R > 0" "R < sum_list (map cl_ask claims)"
        "length (filter (\<lambda>c. \<not> ?P c) ?cs) < length claims"
    | (last) "claims \<noteq> []" "R > 0" "R < sum_list (map cl_ask claims)"
        "\<not> length (filter (\<lambda>c. \<not> ?P c) ?cs) < length claims"
    using less.prems(2) by fastforce
  then show ?case
  proof cases
    case stop
    then have "ApportionRemainder qp claims R = []" using unfold by auto
    then have "granted (ApportionRemainder qp claims R) = (\<lambda>t. 0)" by auto
    with stop less.prems show ?thesis
      using split_ok_exhausted [OF less.prems(1)] by (auto simp: split_ok_def weighted_def)
  next
    case all
    with unfold split_ok_all_asks [OF less.prems(1)] show ?thesis by simp
  next
    case settle
    let ?S = "sum_list (map cl_ask (filter ?P ?cs))"
    note S = settled_asks_le [OF less.prems(1) settle(1) less.prems(2)]
    then have nonneg: "0 \<le> R - ?S" by simp
    have "split_ok (filter (\<lambda>c. \<not> ?P c) ?cs) (R - ?S)
        (granted (ApportionRemainder qp (filter (\<lambda>c. \<not> ?P c) ?cs) (R - ?S)))"
      using less.hyps [OF settle(4) claims_ok_filter [OF okc] nonneg] less.prems(3) S(1) by simp
    then have "split_ok ?cs R (\<lambda>t.
        granted (map (\<lambda>c. (cl_grantOut c, cl_ask c)) (filter ?P ?cs)) t +
        granted (ApportionRemainder qp (filter (\<lambda>c. \<not> ?P c) ?cs) (R - ?S)) t)"
      using settled_without_weight [OF less.prems(1)]
      by (intro split_ok_settle [OF okc _ nonneg]) blast+
    moreover have "ApportionRemainder qp claims R =
        map (\<lambda>c. (cl_grantOut c, cl_ask c)) (filter ?P ?cs) @
        ApportionRemainder qp (filter (\<lambda>c. \<not> ?P c) ?cs) (R - ?S)"
      using unfold settle by (simp add: Let_def)
    then have "granted (ApportionRemainder qp claims R) = (\<lambda>t.
        granted (map (\<lambda>c. (cl_grantOut c, cl_ask c)) (filter ?P ?cs)) t +
        granted (ApportionRemainder qp (filter (\<lambda>c. \<not> ?P c) ?cs) (R - ?S)) t)"
      by auto
    ultimately show ?thesis by (simp only: split_ok_with_shares)
  next
    case last
    have "\<forall>c \<in> set ?cs. cl_floorShare c < cl_ask c"
      using last(4) length_filter_less [of _ ?cs "\<lambda>c. \<not> ?P c"] by force
    moreover have "?cs \<noteq> []"
      using last(1) by (simp add: with_shares_def)
    ultimately have "split_ok ?cs R (granted (DistributeLeftover qp ?cs R))"
      using split_ok_distribute [OF okc _ less.prems(2) floorShare_with_shares] by blast
    moreover have "ApportionRemainder qp claims R = DistributeLeftover qp ?cs R"
      using unfold last by (simp add: Let_def)
    ultimately show ?thesis by (simp add: split_ok_with_shares)
  qed
qed

end

end
