(* ===== verification/Build_Requests.thy ===== *)
theory Build_Requests
  imports Launcher_Rows Cpu_Budget
begin

text \<open>
  Build-thread requests: the backend's side (\<open>svs_build_request_protocol.c\<close>,
  \<open>svs_build_thread_grant.c\<close>) and the launcher's (\<open>AppendPendingBuildRequests\<close> and
  \<open>PublishBuildGrant\<close> of \<open>vamanalauncher.c\<close>).  A pointer to a request is the position of its
  control block and the position in the block's table.
\<close>

section \<open>The backend's side\<close>

type_synonym request_ptr = "nat \<times> nat"

definition request_at :: "VamanaWorkerShmemHeader \<Rightarrow> request_ptr \<Rightarrow> SvsBuildRequest" where
  "request_at h = (\<lambda>(e, i). ws_buildRequests (hd_slots h ! e) ! i)"

definition put_request :: "VamanaWorkerShmemHeader \<Rightarrow> request_ptr \<Rightarrow> SvsBuildRequest \<Rightarrow> VamanaWorkerShmemHeader" where
  "put_request h = (\<lambda>(e, i) r.
     put_entry h e ((hd_slots h ! e)\<lparr>ws_buildRequests := (ws_buildRequests (hd_slots h ! e))[i := r]\<rparr>))"

text \<open>The compare-and-swap on each pid in turn takes the first free request.\<close>

definition SvsClaimBuildRequestSlot ::
    "oid \<Rightarrow> u32 \<Rightarrow> int \<Rightarrow> VamanaWorkerShmemHeader \<Rightarrow> request_ptr option \<times> VamanaWorkerShmemHeader" where
  "SvsClaimBuildRequestSlot MyDatabaseId me requested h =
     (case VamanaWorkerLookupSlot h MyDatabaseId of
        None \<Rightarrow> (None, h)
      | Some e \<Rightarrow>
          (case find_index (\<lambda>r. bq_pid r = 0) (take SVS_MAX_PENDING_BUILDS (ws_buildRequests (hd_slots h ! e))) of
             None \<Rightarrow> (None, h)
           | Some i \<Rightarrow>
               (Some (e, i), put_request h (e, i)
                  \<lparr>bq_pid = me, bq_status = SVS_BUILD_REQUEST_PENDING, bq_requested = requested, bq_granted = 0\<rparr>)))"

definition SvsReleaseBuildRequestSlot :: "request_ptr \<Rightarrow> VamanaWorkerShmemHeader \<Rightarrow> VamanaWorkerShmemHeader" where
  "SvsReleaseBuildRequestSlot req h = put_request h req
     \<lparr>bq_pid = 0, bq_status = SVS_BUILD_REQUEST_PENDING, bq_requested = 0, bq_granted = 0\<rparr>"

text \<open>
  One return of \<open>WaitLatch\<close>: whether the timeout was reached or the postmaster died, whether an
  interrupt is pending, and what other processes did to the shared memory meanwhile.
\<close>

record wakeup =
  wu_timeout :: bool
  wu_postmaster_death :: bool
  wu_interrupt :: bool
  wu_others :: "VamanaWorkerShmemHeader \<Rightarrow> VamanaWorkerShmemHeader"

datatype wait_end = Wait_over | Wait_raised errcode | Wait_on

text \<open>The wait loop; when the wake-ups run out the backend is still waiting.\<close>

fun wait_loop ::
    "request_ptr \<Rightarrow> int \<Rightarrow> int \<Rightarrow> wakeup list \<Rightarrow> VamanaWorkerShmemHeader \<Rightarrow> wait_end \<times> VamanaWorkerShmemHeader" where
  "wait_loop req timeout_ms total_waited_ms [] h =
     (if min 1000 (timeout_ms - total_waited_ms) \<le> 0 then (Wait_over, h) else (Wait_on, h))"
| "wait_loop req timeout_ms total_waited_ms (u # us) h =
     (let wait_ms = min 1000 (timeout_ms - total_waited_ms) in
      if wait_ms \<le> 0 then (Wait_over, h)
      else
        let h = wu_others u h in
        if wu_postmaster_death u then (Wait_raised ERRCODE_INTERNAL_ERROR, h)
        else if wu_interrupt u then (Wait_raised ERRCODE_QUERY_CANCELED, h)
        else if bq_status (request_at h req) = SVS_BUILD_REQUEST_GRANTED then (Wait_over, h)
        else if wu_timeout u then
          (if total_waited_ms + wait_ms \<ge> timeout_ms then (Wait_over, h)
           else wait_loop req timeout_ms (total_waited_ms + wait_ms) us h)
        else wait_loop req timeout_ms total_waited_ms us h)"

datatype grant_outcome = Grant_ok int | Grant_timeout | Grant_raised errcode | Grant_waiting

definition SvsWaitForBuildGrant ::
    "request_ptr \<Rightarrow> int \<Rightarrow> wakeup list \<Rightarrow> VamanaWorkerShmemHeader \<Rightarrow> grant_outcome \<times> VamanaWorkerShmemHeader" where
  "SvsWaitForBuildGrant req timeout_ms us h =
     (case wait_loop req timeout_ms 0 us h of
        (Wait_on, h) \<Rightarrow> (Grant_waiting, h)
      | (Wait_raised err, h) \<Rightarrow> (Grant_raised err, SvsReleaseBuildRequestSlot req h)
      | (Wait_over, h) \<Rightarrow>
          if bq_status (request_at h req) = SVS_BUILD_REQUEST_GRANTED then (Grant_ok (bq_granted (request_at h req)), h)
          else (Grant_timeout, SvsReleaseBuildRequestSlot req h))"

text \<open>
  A governed build.  The catalog value, the setting behind the default, the wake-ups, the answer of
  \<open>SvsLaunchParkedBuildWorkers\<close> (an error, no pool, or the number of workers launched), what the
  build itself does, and what other processes do during the build are inputs.
\<close>

record build_env =
  be_MyDatabaseId :: oid
  be_MyProcPid :: u32
  be_maintenance_num_threads :: int
  be_max_parallel_maintenance_workers :: int
  be_worker_timeout_ms :: int
  be_wakeups :: "wakeup list"
  be_launch :: "errcode + nat option"
  be_build :: "int \<Rightarrow> errcode option"
  be_others :: "VamanaWorkerShmemHeader \<Rightarrow> VamanaWorkerShmemHeader"

definition SVSDefaultBuildThreads :: "int \<Rightarrow> int" where
  "SVSDefaultBuildThreads max_parallel_maintenance_workers = SvsAtLeastOneThread max_parallel_maintenance_workers"

definition ResolveRequestedBuildThreads :: "build_env \<Rightarrow> int" where
  "ResolveRequestedBuildThreads E =
     (if be_maintenance_num_threads E = - 1 then SVSDefaultBuildThreads (be_max_parallel_maintenance_workers E)
      else SvsAtLeastOneThread (be_maintenance_num_threads E))"

text \<open>A pool that launched nothing is torn down at once and reported as none.\<close>

definition SvsLaunchParkedBuildWorkers :: "build_env \<Rightarrow> int \<Rightarrow> errcode + nat option" where
  "SvsLaunchParkedBuildWorkers E nworkers =
     (if nworkers \<le> 0 then Inr None
      else case be_launch E of
        Inr (Some launched) \<Rightarrow> if launched = 0 then Inr None else Inr (Some launched)
      | answer \<Rightarrow> answer)"

datatype build_end = Build_done | Build_raised errcode | Build_waiting

text \<open>The result: how it ended, the threads the build ran with, if it ran, and the shared memory.\<close>

definition SvsRunGovernedBuild ::
    "build_env \<Rightarrow> VamanaWorkerShmemHeader \<Rightarrow> build_end \<times> int option \<times> VamanaWorkerShmemHeader" where
  "SvsRunGovernedBuild E h =
     (case SvsClaimBuildRequestSlot (be_MyDatabaseId E) (be_MyProcPid E) (ResolveRequestedBuildThreads E) h of
        (None, h) \<Rightarrow> (Build_raised ERRCODE_INSUFFICIENT_RESOURCES, None, h)
      | (Some req, h) \<Rightarrow>
          (case SvsWaitForBuildGrant req (be_worker_timeout_ms E) (be_wakeups E) h of
             (Grant_waiting, h) \<Rightarrow> (Build_waiting, None, h)
           | (Grant_raised err, h) \<Rightarrow> (Build_raised err, None, h)
           | (Grant_timeout, h) \<Rightarrow> (Build_raised ERRCODE_INSUFFICIENT_RESOURCES, None, h)
           | (Grant_ok given, h) \<Rightarrow>
               (case SvsLaunchParkedBuildWorkers E given of
                  Inl err \<Rightarrow> (Build_raised err, None, SvsReleaseBuildRequestSlot req h)
                | Inr pcxt \<Rightarrow>
                    let threads = (case pcxt of None \<Rightarrow> 1 | Some started \<Rightarrow> min given (int started));
                        h = SvsReleaseBuildRequestSlot req (be_others E h)
                    in (case be_build E threads of Some err \<Rightarrow> Build_raised err | None \<Rightarrow> Build_done, Some threads, h))))"

section \<open>The launcher's side\<close>

text \<open>One request of the scan: freed when its process is gone, collected when it is pending.\<close>

definition scan_request ::
    "PgEnv \<Rightarrow> oid \<Rightarrow> nat \<Rightarrow> nat \<Rightarrow> SvsBuildCpuRequest list \<times> VamanaWorkerShmemHeader
     \<Rightarrow> SvsBuildCpuRequest list \<times> VamanaWorkerShmemHeader" where
  "scan_request env dbOid e i = (\<lambda>(builds, h).
     let req = request_at h (e, i); pid = sint (bq_pid req) in
     if pid = 0 then (builds, h)
     else if BackendPidGetProc env pid = None then (builds, SvsReleaseBuildRequestSlot (e, i) h)
     else if bq_status req \<noteq> SVS_BUILD_REQUEST_PENDING then (builds, h)
     else (builds @ [\<lparr>br_dbOid = dbOid, br_requestPid = pid, br_maintenanceNumThreads = bq_requested req\<rparr>], h))"

definition AppendPendingBuildRequests ::
    "PgEnv \<Rightarrow> oid \<Rightarrow> nat option \<Rightarrow> SvsBuildCpuRequest list \<times> VamanaWorkerShmemHeader
     \<Rightarrow> SvsBuildCpuRequest list \<times> VamanaWorkerShmemHeader" where
  "AppendPendingBuildRequests env dbOid entry acc =
     (case entry of
        None \<Rightarrow> acc
      | Some e \<Rightarrow> fold (scan_request env dbOid e) [0..<SVS_MAX_PENDING_BUILDS] acc)"

text \<open>The pid that is woken, if any; the block is checked to be still the same tenant's.\<close>

definition PublishBuildGrant ::
    "nat \<Rightarrow> oid \<Rightarrow> u32 \<Rightarrow> SvsBuildCpuGrant \<Rightarrow> VamanaWorkerShmemHeader \<Rightarrow> int option \<times> VamanaWorkerShmemHeader" where
  "PublishBuildGrant e dbOid generation grant h =
     (let entry = hd_slots h ! e in
      if ws_dbOid entry = dbOid \<and> ws_generation entry = generation then
        (case find_index (\<lambda>r. sint (bq_pid r) = bg_requestPid grant)
                (take SVS_MAX_PENDING_BUILDS (ws_buildRequests entry)) of
           None \<Rightarrow> (None, h)
         | Some i \<Rightarrow>
             (Some (bg_requestPid grant),
              put_request h (e, i) ((request_at h (e, i))\<lparr>bq_granted := bg_grantedThreads grant,
                bq_status := SVS_BUILD_REQUEST_GRANTED\<rparr>)))
      else (None, h))"

section \<open>Who holds which request\<close>

definition in_table :: "VamanaWorkerShmemHeader \<Rightarrow> request_ptr \<Rightarrow> bool" where
  "in_table h = (\<lambda>(e, i). e < length (hd_slots h) \<and> i < length (ws_buildRequests (hd_slots h ! e)))"

lemma request_at_put [simp]:
  assumes "in_table h req"
  shows "request_at (put_request h req r) req' = (if req' = req then r else request_at h req')"
  using assms by (cases req; cases req') (auto simp: request_at_def put_request_def in_table_def nth_list_update)

lemma in_table_put [simp]: "in_table (put_request h req r) req' = in_table h req'"
  by (cases req; cases req'; cases "fst req = fst req'") (auto simp: put_request_def in_table_def nth_list_update)

lemma put_request_outside:
  assumes "\<not> in_table h req"
  shows "put_request h req r = h"
  using assms by (cases req) (auto simp: put_request_def in_table_def put_entry_def not_less list_update_beyond)

lemma length_put_request [simp]:
  "length (hd_slots (put_request h req r)) = length (hd_slots h)"
  by (cases req) (simp add: put_request_def)

definition owns :: "u32 \<Rightarrow> request_ptr \<Rightarrow> VamanaWorkerShmemHeader \<Rightarrow> bool" where
  "owns p req h \<longleftrightarrow> in_table h req \<and> bq_pid (request_at h req) = p"

lemma claim_Some:
  assumes "SvsClaimBuildRequestSlot db p n h = (Some req, h')"
  shows "in_table h req" "bq_pid (request_at h req) = 0" "snd req < SVS_MAX_PENDING_BUILDS"
    "h' = put_request h req \<lparr>bq_pid = p, bq_status = SVS_BUILD_REQUEST_PENDING, bq_requested = n, bq_granted = 0\<rparr>"
proof -
  obtain e i where e: "VamanaWorkerLookupSlot h db = Some e" and
    i: "find_index (\<lambda>r. bq_pid r = 0) (take SVS_MAX_PENDING_BUILDS (ws_buildRequests (hd_slots h ! e))) = Some i" and
    req: "req = (e, i)" "h' = put_request h (e, i) \<lparr>bq_pid = p, bq_status = SVS_BUILD_REQUEST_PENDING, bq_requested = n, bq_granted = 0\<rparr>"
    using assms by (auto simp: SvsClaimBuildRequestSlot_def split: option.splits)
  have "e < length (hd_slots h)" using VamanaWorkerFindSlot_SomeD(1) e by (simp add: VamanaWorkerLookupSlot_def)
  with find_index_SomeD [OF i] req
  show "in_table h req" "bq_pid (request_at h req) = 0" "snd req < SVS_MAX_PENDING_BUILDS"
    "h' = put_request h req \<lparr>bq_pid = p, bq_status = SVS_BUILD_REQUEST_PENDING, bq_requested = n, bq_granted = 0\<rparr>"
    by (simp_all add: in_table_def request_at_def)
qed

text \<open>What another process may do to the table as far as \<open>p\<close> is concerned: it does not take a request of \<open>p\<close> away.\<close>

definition spares :: "u32 \<Rightarrow> (VamanaWorkerShmemHeader \<Rightarrow> VamanaWorkerShmemHeader) \<Rightarrow> bool" where
  "spares p f \<longleftrightarrow> (\<forall>h req. owns p req h \<longrightarrow> owns p req (f h))"

lemma sparesD: "spares p f \<Longrightarrow> owns p req h \<Longrightarrow> owns p req (f h)"
  unfolding spares_def by blast

lemma wait_loop_owns:
  assumes "owns p req h" and "list_all (\<lambda>u. spares p (wu_others u)) us" and "wait_loop req timeout waited us h = (w, h')"
  shows "owns p req h'"
  using assms
proof (induction us arbitrary: waited h)
  case (Cons u us)
  have own: "owns p req (wu_others u h)" using Cons.prems sparesD by simp
  show ?case
    using Cons.prems(1,3) own Cons.IH [OF own] Cons.prems(2) unfolding wait_loop.simps Let_def by (auto split: if_splits)
qed (auto split: if_splits)

text \<open>Without a timeout among the wake-ups the loop waits on, however long that takes.\<close>

definition only_latched :: "wakeup \<Rightarrow> bool" where
  "only_latched u \<longleftrightarrow> \<not> wu_timeout u \<and> \<not> wu_postmaster_death u \<and> \<not> wu_interrupt u \<and> wu_others u = id"

lemma wait_loop_latched:
  assumes "waited < timeout" and "list_all only_latched us" and "bq_status (request_at h req) \<noteq> SVS_BUILD_REQUEST_GRANTED"
  shows "wait_loop req timeout waited us h = (Wait_on, h)"
  using assms(2)
proof (induction us)
  case (Cons u us)
  then have u: "wu_timeout u = False" "wu_postmaster_death u = False" "wu_interrupt u = False" "wu_others u = id"
    by (simp_all add: only_latched_def)
  have "(min 1000 (timeout - waited) \<le> 0) = False" using assms(1) by simp
  moreover have "wait_loop req timeout waited us h = (Wait_on, h)" using Cons by simp
  ultimately show ?case using assms(3) by (simp only: wait_loop.simps Let_def u if_False id_apply)
qed (use assms(1) in simp)

lemma WaitForBuildGrant_cases:
  assumes "SvsWaitForBuildGrant req timeout us h = (r, h')" and "owns p req h" and "list_all (\<lambda>u. spares p (wu_others u)) us"
  shows "case r of
      Grant_waiting \<Rightarrow> owns p req h'
    | Grant_ok n \<Rightarrow> owns p req h' \<and> bq_status (request_at h' req) = SVS_BUILD_REQUEST_GRANTED \<and> bq_granted (request_at h' req) = n
    | _ \<Rightarrow> \<exists>h1. owns p req h1 \<and> h' = SvsReleaseBuildRequestSlot req h1"
proof -
  obtain w h1 where w: "wait_loop req timeout 0 us h = (w, h1)" by fastforce
  have "owns p req h1" by (rule wait_loop_owns [OF assms(2,3) w])
  then show ?thesis using assms(1) w by (cases w) (auto simp: SvsWaitForBuildGrant_def split: if_splits)
qed

lemma released_free:
  assumes "owns p req h"
  shows "request_at (SvsReleaseBuildRequestSlot req h) req = zero_build_request"
  using assms by (simp add: owns_def SvsReleaseBuildRequestSlot_def zero_build_request_def)

lemma launch_threads:
  assumes "SvsLaunchParkedBuildWorkers E n = Inr pcxt"
  shows "1 \<le> (case pcxt of None \<Rightarrow> 1 | Some started \<Rightarrow> min n (int started))"
    and "(case pcxt of None \<Rightarrow> 1 | Some started \<Rightarrow> min n (int started)) \<le> max 1 n"
  using assms by (auto simp: SvsLaunchParkedBuildWorkers_def split: if_splits sum.splits option.splits)

text \<open>What the other sides do spares a live process.\<close>

lemma owns_put:
  assumes "in_table h req'"
  shows "owns p req (put_request h req' r) \<longleftrightarrow> (if req = req' then in_table h req \<and> bq_pid r = p else owns p req h)"
  using assms by (auto simp: owns_def)

lemma spares_claim:
  assumes "p \<noteq> 0"
  shows "spares p (\<lambda>h. snd (SvsClaimBuildRequestSlot db q n h))"
  unfolding spares_def
proof (intro allI impI)
  fix h req
  assume own: "owns p req h"
  obtain c h' where c: "SvsClaimBuildRequestSlot db q n h = (c, h')" by fastforce
  show "owns p req (snd (SvsClaimBuildRequestSlot db q n h))"
  proof (cases c)
    case None
    then have "h' = h" using c by (auto simp: SvsClaimBuildRequestSlot_def split: option.splits)
    then show ?thesis using own c by simp
  next
    case (Some req')
    note s = claim_Some [OF c [unfolded Some]]
    have "req \<noteq> req'" using own s(2) assms by (auto simp: owns_def)
    then show ?thesis using own c s(1,4) by (simp add: owns_put)
  qed
qed

lemma PublishBuildGrant_cases:
  obtains (unpublished) "snd (PublishBuildGrant e db gen g h) = h"
  | (published) i where "find_index (\<lambda>r. sint (bq_pid r) = bg_requestPid g) (take SVS_MAX_PENDING_BUILDS (ws_buildRequests (hd_slots h ! e))) = Some i"
      "ws_dbOid (hd_slots h ! e) = db" "ws_generation (hd_slots h ! e) = gen"
      "snd (PublishBuildGrant e db gen g h) = put_request h (e, i) ((request_at h (e, i))\<lparr>bq_granted := bg_grantedThreads g, bq_status := SVS_BUILD_REQUEST_GRANTED\<rparr>)"
proof (cases "ws_dbOid (hd_slots h ! e) = db \<and> ws_generation (hd_slots h ! e) = gen")
  case True
  then show ?thesis
    using unpublished published
    by (cases "find_index (\<lambda>r. sint (bq_pid r) = bg_requestPid g) (take SVS_MAX_PENDING_BUILDS (ws_buildRequests (hd_slots h ! e)))")
      (simp_all add: PublishBuildGrant_def)
next
  case False
  then show ?thesis using unpublished by (auto simp: PublishBuildGrant_def)
qed

lemma owns_put_same_pid:
  assumes "bq_pid r = bq_pid (request_at h req')"
  shows "owns p req (put_request h req' r) = owns p req h"
proof (cases "in_table h req'")
  case False
  then show ?thesis by (simp add: put_request_outside)
qed (use assms in \<open>auto simp: owns_put owns_def\<close>)

lemma spares_publish: "spares p (\<lambda>h. snd (PublishBuildGrant e db gen g h))"
  unfolding spares_def
proof (intro allI impI)
  fix h req
  assume "owns p req h"
  then show "owns p req (snd (PublishBuildGrant e db gen g h))"
    by (cases rule: PublishBuildGrant_cases [of e db gen g h]) (simp_all add: owns_put_same_pid)
qed


section \<open>Several builds and the launcher\<close>

text \<open>
  Which process holds which request, as processes claim and release and the launcher scans and
  publishes, in any order.  A holder is a live process.
\<close>

inductive build_run :: "(u32 \<Rightarrow> request_ptr option) \<Rightarrow> VamanaWorkerShmemHeader \<Rightarrow> bool" where
  start: "(\<And>req. in_table h req \<Longrightarrow> bq_pid (request_at h req) = 0) \<Longrightarrow> build_run (\<lambda>_. None) h"
| claim: "build_run H h \<Longrightarrow> H p = None \<Longrightarrow> p \<noteq> 0 \<Longrightarrow> SvsClaimBuildRequestSlot db p n h = (Some req, h') \<Longrightarrow>
    build_run (H(p \<mapsto> req)) h'"
| release: "build_run H h \<Longrightarrow> H p = Some req \<Longrightarrow> build_run (H(p := None)) (SvsReleaseBuildRequestSlot req h)"
| scan: "build_run H h \<Longrightarrow> (\<And>p. H p \<noteq> None \<Longrightarrow> BackendPidGetProc env (sint p) \<noteq> None) \<Longrightarrow>
    build_run H (snd (AppendPendingBuildRequests env db entry (builds, h)))"
| publish: "build_run H h \<Longrightarrow> build_run H (snd (PublishBuildGrant e db gen g h))"

definition held_ok :: "(u32 \<Rightarrow> request_ptr option) \<Rightarrow> VamanaWorkerShmemHeader \<Rightarrow> bool" where
  "held_ok H h \<longleftrightarrow> (\<forall>p req. H p = Some req \<longrightarrow> p \<noteq> 0 \<and> owns p req h) \<and>
     (\<forall>req. in_table h req \<and> bq_pid (request_at h req) \<noteq> 0 \<longrightarrow> H (bq_pid (request_at h req)) = Some req)"

lemma held_okD:
  assumes "held_ok H h"
  shows "H p = Some req \<Longrightarrow> p \<noteq> 0" "H p = Some req \<Longrightarrow> in_table h req" "H p = Some req \<Longrightarrow> bq_pid (request_at h req) = p"
    "in_table h req \<Longrightarrow> bq_pid (request_at h req) \<noteq> 0 \<Longrightarrow> H (bq_pid (request_at h req)) = Some req"
  using assms unfolding held_ok_def owns_def by blast+

lemma held_okI:
  assumes "\<And>p req. H p = Some req \<Longrightarrow> p \<noteq> 0 \<and> owns p req h"
    and "\<And>req. in_table h req \<Longrightarrow> bq_pid (request_at h req) \<noteq> 0 \<Longrightarrow> H (bq_pid (request_at h req)) = Some req"
  shows "held_ok H h"
  using assms unfolding held_ok_def by blast

lemma held_ok_same_pids:
  assumes "held_ok H h" and "\<And>req. in_table h' req = in_table h req" and "\<And>req. in_table h req \<Longrightarrow> bq_pid (request_at h' req) = bq_pid (request_at h req)"
  shows "held_ok H h'"
  using assms unfolding held_ok_def owns_def by metis

lemma scan_request_held:
  assumes "held_ok H h" and "\<And>p. H p \<noteq> None \<Longrightarrow> BackendPidGetProc env (sint p) \<noteq> None" and "in_table h (e, i)"
  shows "snd (scan_request env db e i (bs, h)) = h"
proof -
  have "bq_pid (request_at h (e, i)) = 0 \<or> BackendPidGetProc env (sint (bq_pid (request_at h (e, i)))) \<noteq> None"
    using assms unfolding held_ok_def by (metis option.simps(3))
  then show ?thesis by (auto simp: scan_request_def Let_def)
qed

lemma scan_held:
  assumes "held_ok H h" and "\<And>p. H p \<noteq> None \<Longrightarrow> BackendPidGetProc env (sint p) \<noteq> None"
  shows "snd (fold (scan_request env db e) is' (bs, h)) = h"
proof (induction is' arbitrary: bs)
  case (Cons i is')
  have "snd (scan_request env db e i (bs, h)) = h"
  proof (cases "in_table h (e, i)")
    case True
    then show ?thesis using scan_request_held [OF assms] by blast
  next
    case False
    then show ?thesis by (auto simp: scan_request_def Let_def SvsReleaseBuildRequestSlot_def put_request_outside)
  qed
  then obtain bs' where "scan_request env db e i (bs, h) = (bs', h)" by (metis prod.collapse)
  then show ?case using Cons.IH [of bs'] by simp
qed simp

lemma build_run_held: "build_run H h \<Longrightarrow> held_ok H h"
proof (induction rule: build_run.induct)
  case (start h)
  then show ?case by (simp add: held_ok_def)
next
  case (claim H h p db n req h')
  note c = claim_Some [OF claim.hyps(4)]
  have fresh: "H q \<noteq> Some req" for q using held_okD(1,3) [OF claim.IH, of q req] c(2) by auto
  show ?case
  proof (rule held_okI)
    fix q req'
    assume "(H(p \<mapsto> req)) q = Some req'"
    then show "q \<noteq> 0 \<and> owns q req' h'"
      using held_okD(1-3) [OF claim.IH, of q req'] claim.hyps(3) c(1,4) fresh [of q] by (auto simp: owns_def split: if_splits)
  next
    fix req'
    assume "in_table h' req'" "bq_pid (request_at h' req') \<noteq> 0"
    then show "(H(p \<mapsto> req)) (bq_pid (request_at h' req')) = Some req'"
      using held_okD(4) [OF claim.IH, of req'] claim.hyps(2) c(1,4) by (auto split: if_splits)
  qed
next
  case (release H h p req)
  note own = held_okD(1-3) [OF release.IH release.hyps(2)]
  show ?case
    unfolding SvsReleaseBuildRequestSlot_def
  proof (rule held_okI)
    fix q req'
    assume "(H(p := None)) q = Some req'"
    then have q: "q \<noteq> p" "H q = Some req'" by (auto split: if_splits)
    then show "q \<noteq> 0 \<and> owns q req' (put_request h req \<lparr>bq_pid = 0, bq_status = SVS_BUILD_REQUEST_PENDING, bq_requested = 0, bq_granted = 0\<rparr>)"
      using held_okD(1-3) [OF release.IH q(2)] own by (auto simp: owns_def)
  next
    fix req'
    let ?h = "put_request h req \<lparr>bq_pid = 0, bq_status = SVS_BUILD_REQUEST_PENDING, bq_requested = 0, bq_granted = 0\<rparr>"
    assume used: "in_table ?h req'" "bq_pid (request_at ?h req') \<noteq> 0"
    then have "req' \<noteq> req" "H (bq_pid (request_at h req')) = Some req'"
      using held_okD(4) [OF release.IH, of req'] own(2) by (auto split: if_splits)
    then show "(H(p := None)) (bq_pid (request_at ?h req')) = Some req'" using own(2) release.hyps(2) by auto
  qed
next
  case (scan H h env db entry builds)
  then show ?case using scan_held [OF scan.IH scan.hyps(2)] by (cases entry) (simp_all add: AppendPendingBuildRequests_def)
next
  case (publish H h e db gen g)
  show ?case
  proof (cases rule: PublishBuildGrant_cases [of e db gen g h])
    case (published i)
    show ?thesis unfolding published(4)
      by (rule held_ok_same_pids [OF publish.IH]) (simp, cases "in_table h (e, i)", simp_all add: put_request_outside)
  qed (use publish.IH in simp)
qed


section \<open>A request of a block that was handed on\<close>

text \<open>
  The pointer a build keeps is not checked against the tenant of the block.  If the block was
  released and given to another database during the build, the release at the end frees whatever request
  stands there now.
\<close>

lemma stale_release_frees_other:
  assumes "owns q req (be_others E h1)" and "SvsWaitForBuildGrant req (be_worker_timeout_ms E) (be_wakeups E) h0 = (Grant_ok n, h1)"
    and "SvsClaimBuildRequestSlot (be_MyDatabaseId E) (be_MyProcPid E) (ResolveRequestedBuildThreads E) h = (Some req, h0)"
    and "SvsLaunchParkedBuildWorkers E n = Inr pcxt"
  shows "request_at (snd (snd (SvsRunGovernedBuild E h))) req = zero_build_request"
  using assms(2-4) released_free [OF assms(1)] by (simp add: SvsRunGovernedBuild_def Let_def)

section \<open>Examples\<close>

definition demo_blocks :: VamanaWorkerShmemHeader where
  "demo_blocks = snd (VamanaWorkerReserveSlot 7 (VamanaWorkerShmemStartup 2 4))"

definition demo_build :: build_env where
  "demo_build = \<lparr>be_MyDatabaseId = 7, be_MyProcPid = 901, be_maintenance_num_threads = 4, be_max_parallel_maintenance_workers = 2,
     be_worker_timeout_ms = 5000,
     be_wakeups = [\<lparr>wu_timeout = True, wu_postmaster_death = False, wu_interrupt = False, wu_others = id\<rparr>,
       \<lparr>wu_timeout = False, wu_postmaster_death = False, wu_interrupt = False,
        wu_others = (\<lambda>h. snd (PublishBuildGrant 0 7 1 \<lparr>bg_dbOid = 7, bg_requestPid = 901, bg_grantedThreads = 3\<rparr> h))\<rparr>],
     be_launch = Inr (Some 2), be_build = (\<lambda>_. None), be_others = id\<rparr>"

lemma demo_build_runs:
  "fst (SvsRunGovernedBuild demo_build demo_blocks) = Build_done" "fst (snd (SvsRunGovernedBuild demo_build demo_blocks)) = Some 2"
  "fst (SvsClaimBuildRequestSlot 7 901 4 demo_blocks) = Some (0, 0)" "ResolveRequestedBuildThreads demo_build = 4"
  by code_simp+


lemma demo_blocks_free: "in_table demo_blocks req \<Longrightarrow> bq_pid (request_at demo_blocks req) = 0"
proof -
  have "list_all (\<lambda>entry. list_all (\<lambda>r. bq_pid r = 0) (ws_buildRequests entry)) (hd_slots demo_blocks)" by code_simp
  then show "in_table demo_blocks req \<Longrightarrow> bq_pid (request_at demo_blocks req) = 0"
    by (cases req) (auto simp: in_table_def request_at_def list_all_length)
qed


end
