(* ===== verification/Cpu_Grants.thy ===== *)
theory Cpu_Grants
  imports Cpu_Budget
begin

text \<open>
  The whole of \<open>SvsComputeCpuGrants\<close> (\<open>svs_cpu_budget.c\<close>): what the published search and build
  grants add up to, how each lies between its floor and its ask, and who is served first.
\<close>

section \<open>The whole computation\<close>

text \<open>
  Inputs as the catalog and the GUC definitions allow them: no negative limit, no negative
  reservation (a \<open>CHECK\<close> constraint of \<open>vamana_databases\<close>), every limit an \<open>int32\<close>.
\<close>

definition cpu_input_ok :: "SvsCpuBudgetInput \<Rightarrow> bool" where
  "cpu_input_ok inp \<longleftrightarrow>
     0 \<le> maxParallelWorkers (in_gucs inp) \<and> maxParallelWorkers (in_gucs inp) < 2 ^ 31 \<and>
     0 \<le> maxTotalSearchThreads (in_gucs inp) \<and>
     0 \<le> maxSearchThreadsPerDb (in_gucs inp) \<and> maxSearchThreadsPerDb (in_gucs inp) < 2 ^ 31 \<and>
     (\<forall>db \<in> set (in_dbs inp). 0 \<le> rq_searchThreadsReserved db)"

definition input_pool :: "SvsCpuBudgetInput \<Rightarrow> int" where
  "input_pool inp = ComputeSearchPool (in_gucs inp)"

definition input_working :: "SvsCpuBudgetInput \<Rightarrow> SvsDbCpuWorking list" where
  "input_working inp = BuildDbWorkingSet inp
     (SvsSearchThreadsPerDbCeiling (maxSearchThreadsPerDb (in_gucs inp))
        (maxParallelWorkers (in_gucs inp)))"

text \<open>The threads everybody together asks for.\<close>

definition total_demand :: "SvsCpuBudgetInput \<Rightarrow> int" where
  "total_demand inp = sum_list (map dw_desired (input_working inp)) +
     sum_list (map (\<lambda>b. max 0 (br_maintenanceNumThreads b)) (in_builds inp))"

lemma input_pool_bounds:
  assumes "cpu_input_ok inp"
  shows "0 \<le> input_pool inp" and "input_pool inp < 2 ^ 31"
  using assms by (auto simp: input_pool_def ComputeSearchPool_def ResolveOrFallback_def cpu_input_ok_def)

lemma input_working_entry:
  assumes "cpu_input_ok inp" and "i < length (in_dbs inp)"
  shows "0 \<le> dw_floor (input_working inp ! i)"
    and "dw_floor (input_working inp ! i) \<le> dw_desired (input_working inp ! i)"
    and "dw_desired (input_working inp ! i) < 2 ^ 31"
    and "dw_elasticGrant (input_working inp ! i) = 0"
    and "dw_dbOid (input_working inp ! i) = rq_dbOid (in_dbs inp ! i)"
proof -
  have "0 \<le> rq_searchThreadsReserved (in_dbs inp ! i)"
    using assms by (simp add: cpu_input_ok_def)
  then show "0 \<le> dw_floor (input_working inp ! i)"
    "dw_floor (input_working inp ! i) \<le> dw_desired (input_working inp ! i)"
    "dw_desired (input_working inp ! i) < 2 ^ 31"
    "dw_elasticGrant (input_working inp ! i) = 0"
    "dw_dbOid (input_working inp ! i) = rq_dbOid (in_dbs inp ! i)"
    using assms
    by (auto simp: input_working_def BuildDbWorkingSet_def ComputeEffectiveDesired_def Let_def
        SvsAtLeastOneThread_def SvsSearchThreadsPerDbCeiling_def ResolveOrFallback_def
        cpu_input_ok_def min_def max_def)
qed

lemma length_input_working [simp]: "length (input_working inp) = length (in_dbs inp)"
  by (simp add: input_working_def BuildDbWorkingSet_def)

lemma input_working_range: "cpu_input_ok inp \<Longrightarrow> floors_in_range (input_working inp)"
  using input_working_entry unfolding floors_in_range_def by fastforce

lemma AddThrough_all:
  assumes "fold AddThrough gs (dbw, bw) = (dbw', bw')"
  shows "length dbw' = length dbw" and "length bw' = length bw"
    and "\<And>i. i < length dbw \<Longrightarrow>
      dbw' ! i = (dbw ! i)\<lparr>dw_elasticGrant := dw_elasticGrant (dbw ! i) + granted gs (ElasticGrantOf i)\<rparr>"
    and "\<And>i. i < length bw \<Longrightarrow>
      bw' ! i = (bw ! i)\<lparr>bw_grant := bw_grant (bw ! i) + granted gs (BuildGrantOf i)\<rparr>"
proof -
  have "length dbw' = length dbw \<and> length bw' = length bw \<and>
    (\<forall>i < length dbw. dbw' ! i =
      (dbw ! i)\<lparr>dw_elasticGrant := dw_elasticGrant (dbw ! i) + granted gs (ElasticGrantOf i)\<rparr>) \<and>
    (\<forall>i < length bw. bw' ! i =
      (bw ! i)\<lparr>bw_grant := bw_grant (bw ! i) + granted gs (BuildGrantOf i)\<rparr>)"
    using assms
  proof (induction gs arbitrary: dbw bw)
    case (Cons x gs)
    obtain t a where x: "x = (t, a)" by (cases x)
    have step: "granted (x # gs) u = (if t = u then a else 0) + granted gs u" for u
      by (simp add: granted_def x)
    show ?case
    proof (cases t)
      case (ElasticGrantOf k)
      with Cons.IH [of "dbw[k := (dbw ! k)\<lparr>dw_elasticGrant := dw_elasticGrant (dbw ! k) + a\<rparr>]" bw]
        Cons.prems x show ?thesis
        unfolding step by (auto simp: nth_list_update)
    next
      case (BuildGrantOf k)
      with Cons.IH [of dbw "bw[k := (bw ! k)\<lparr>bw_grant := bw_grant (bw ! k) + a\<rparr>]"]
        Cons.prems x show ?thesis
        unfolding step by (auto simp: nth_list_update)
    qed
  qed simp
  then show "length dbw' = length dbw" and "length bw' = length bw"
    and "\<And>i. i < length dbw \<Longrightarrow>
      dbw' ! i = (dbw ! i)\<lparr>dw_elasticGrant := dw_elasticGrant (dbw ! i) + granted gs (ElasticGrantOf i)\<rparr>"
    and "\<And>i. i < length bw \<Longrightarrow>
      bw' ! i = (bw ! i)\<lparr>bw_grant := bw_grant (bw ! i) + granted gs (BuildGrantOf i)\<rparr>"
    by auto
qed

text \<open>The claims are exactly the positive asks, one per target.\<close>

lemma BuildClaims_ok:
  assumes "\<And>i. i < length dbw \<Longrightarrow> 0 \<le> dw_floor (dbw ! i)"
  shows "claims_ok (BuildClaims dbw builds bw)"
proof -
  have "distinct (map cl_grantOut (BuildClaims dbw builds bw))"
    by (auto simp: BuildClaims_def comp_def distinct_map inj_on_def)
  then show ?thesis
    using assms unfolding claims_ok_def by (auto simp: BuildClaims_def)
qed

lemma BuildClaims_sum:
  fixes g :: "GrantOut \<Rightarrow> int"
  assumes "\<And>t. t \<notin> cl_grantOut ` set (BuildClaims dbw builds bw) \<Longrightarrow> g t = 0"
  shows "sum_list (map (\<lambda>c. g (cl_grantOut c)) (BuildClaims dbw builds bw)) =
    sum_list (map (\<lambda>i. g (ElasticGrantOf i)) [0..<length dbw]) +
    sum_list (map (\<lambda>i. g (BuildGrantOf i)) [0..<length builds])"
proof -
  let ?A = "\<lambda>i. \<not> dw_desired (dbw ! i) - dw_floor (dbw ! i) \<le> 0"
  let ?B = "\<lambda>i. \<not> br_maintenanceNumThreads (builds ! i) \<le> 0"
  have noask: "g (ElasticGrantOf i) = 0" if "\<not> ?A i" for i
    using that by (intro assms) (auto simp: BuildClaims_def)
  have "sum_list (map (\<lambda>i. g (ElasticGrantOf i)) (filter (\<lambda>i. \<not> ?A i) [0..<length dbw])) = 0"
    by (rule sum_list_all_zero) (simp add: noask)
  moreover have nobuild: "g (BuildGrantOf i) = 0" if "\<not> ?B i" for i
    using that by (intro assms) (auto simp: BuildClaims_def)
  have "sum_list (map (\<lambda>i. g (BuildGrantOf i)) (filter (\<lambda>i. \<not> ?B i) [0..<length builds])) = 0"
    by (rule sum_list_all_zero) (simp add: nobuild)
  ultimately show ?thesis
    using sum_list_filter_split [of "\<lambda>i. g (ElasticGrantOf i)" ?A "[0..<length dbw]"]
      sum_list_filter_split [of "\<lambda>i. g (BuildGrantOf i)" ?B "[0..<length builds]"]
    by (simp add: BuildClaims_def comp_def)
qed

lemma BuildClaims_asks:
  assumes "\<And>i. i < length dbw \<Longrightarrow> dw_floor (dbw ! i) \<le> dw_desired (dbw ! i)"
  shows "sum_list (map cl_ask (BuildClaims dbw builds bw)) =
    sum_list (map dw_desired dbw) - sum_list (map dw_floor dbw) +
    sum_list (map (\<lambda>b. max 0 (br_maintenanceNumThreads b)) builds)"
proof -
  let ?ask = "\<lambda>i. dw_desired (dbw ! i) - dw_floor (dbw ! i)"
  let ?m = "\<lambda>i. br_maintenanceNumThreads (builds ! i)"
  have "sum_list (map ?ask (filter (\<lambda>i. \<not> ?ask i \<le> 0) [0..<length dbw])) =
      sum_list (map ?ask [0..<length dbw])"
    using sum_list_filter_split [of ?ask "\<lambda>i. \<not> ?ask i \<le> 0" "[0..<length dbw]"]
      sum_list_all_zero [of "filter (\<lambda>i. ?ask i \<le> 0) [0..<length dbw]" ?ask] assms by force
  also have "\<dots> = sum_list (map (\<lambda>w. dw_desired w - dw_floor w) dbw)"
    by (simp only: map_upt_nth [of "\<lambda>w. dw_desired w - dw_floor w"])
  also have "\<dots> = sum_list (map dw_desired dbw) - sum_list (map dw_floor dbw)"
    by (rule sum_list_subtractf)
  moreover have "sum_list (map ?m (filter (\<lambda>i. \<not> ?m i \<le> 0) xs)) =
      sum_list (map (\<lambda>i. max 0 (?m i)) xs)" for xs
    by (induction xs) auto
  then have "sum_list (map ?m (filter (\<lambda>i. \<not> ?m i \<le> 0) [0..<length builds])) =
      sum_list (map (\<lambda>b. max 0 (br_maintenanceNumThreads b)) builds)"
    by (simp only: map_upt_nth [of "\<lambda>b. max 0 (br_maintenanceNumThreads b)"])
  ultimately show ?thesis
    by (simp add: BuildClaims_def comp_def)
qed

text \<open>
  The result in terms of the clamped working set and one split of the remainder: everything the
  properties below need.
\<close>

context pg_qsort
begin

lemma SvsComputeCpuGrants_split:
  assumes ok: "cpu_input_ok inp"
  obtains exceed w g where
    "ClampFloorsToPool qp (input_working inp) (input_pool inp) = (exceed, w)"
    "split_ok (BuildClaims w (in_builds inp) (BuildBuildWorkingSet inp))
       (input_pool inp - sum_list (map dw_floor w)) g"
    "dbGrants (SvsComputeCpuGrants qp inp) =
       map (\<lambda>i. \<lparr>dg_dbOid = dw_dbOid (w ! i), dg_desiredSearchThreads = dw_desired (w ! i),
                dg_grantedSearchThreads = dw_floor (w ! i) + g (ElasticGrantOf i),
                dg_reservedSearchThreads = dw_floor (w ! i)\<rparr>) [0..<length (in_dbs inp)]"
    "buildGrants (SvsComputeCpuGrants qp inp) =
       map (\<lambda>i. \<lparr>bg_dbOid = br_dbOid (in_builds inp ! i), bg_requestPid = br_requestPid (in_builds inp ! i),
                bg_grantedThreads = g (BuildGrantOf i)\<rparr>) [0..<length (in_builds inp)]"
    "reservedFloorsExceedPool (SvsComputeCpuGrants qp inp) = exceed"
proof -
  obtain exceed w where w: "ClampFloorsToPool qp (input_working inp) (input_pool inp) = (exceed, w)"
    by force
  note pool = input_pool_bounds [OF ok]
  note spec = ClampFloorsToPool_spec [OF input_working_range [OF ok] pool(1) w]
  let ?bw = "BuildBuildWorkingSet inp"
  let ?R = "input_pool inp - sum_list (map dw_floor w)"
  let ?gs = "ApportionRemainder qp (BuildClaims w (in_builds inp) ?bw) ?R"
  have len: "length w = length (in_dbs inp)"
    using floors_lowered_length [OF spec(1)] by simp
  have entry: "0 \<le> dw_floor (w ! i)" "dw_elasticGrant (w ! i) = 0" if "i < length w" for i
    using floors_loweredD [OF spec(1), of i] input_working_entry(4) [OF ok, of i] that len
    by (simp_all, metis SvsDbCpuWorking.select_convs(4) SvsDbCpuWorking.surjective
        SvsDbCpuWorking.update_convs(3))
  have "0 \<le> sum_list (map dw_floor w)"
    using entry(1) by (intro sum_list_nonneg_int) (auto simp: in_set_conv_nth)
  then have R: "0 \<le> ?R" "?R < 2 ^ 31"
    using spec(2) pool by auto
  then have cast: "cast_i32 ?R = ?R" by simp
  have split: "split_ok (BuildClaims w (in_builds inp) ?bw) ?R (granted ?gs)"
    by (rule ApportionRemainder_split_ok [OF BuildClaims_ok R]) (simp add: entry)
  obtain dbw bw where through: "fold AddThrough ?gs (w, ?bw) = (dbw, bw)" by force
  note add = AddThrough_all [OF through]
  have res: "SvsComputeCpuGrants qp inp =
      \<lparr>dbGrants = map (\<lambda>w. \<lparr>dg_dbOid = dw_dbOid w, dg_desiredSearchThreads = dw_desired w,
          dg_grantedSearchThreads = dw_floor w + dw_elasticGrant w,
          dg_reservedSearchThreads = dw_floor w\<rparr>) dbw,
       buildGrants = map (\<lambda>w. \<lparr>bg_dbOid = bw_dbOid w, bg_requestPid = bw_requestPid w,
          bg_grantedThreads = bw_grant w\<rparr>) bw,
       reservedFloorsExceedPool = exceed\<rparr>"
    using w through cast
    by (simp add: SvsComputeCpuGrants_def input_working_def input_pool_def Let_def)
  show thesis
    by (rule that [OF w split]; unfold res)
       (auto intro!: nth_equalityI simp: add len entry BuildBuildWorkingSet_def)
qed

end

section \<open>Properties of the published budget\<close>

lemma sum_list_split_upt:
  fixes f :: "nat \<Rightarrow> int"
  shows "sum_list (map (\<lambda>i. f i + g i) [0..<n]) = sum_list (map f [0..<n]) + sum_list (map g [0..<n])"
  by (rule sum_list_addf)

lemma floors_lowered_same:
  assumes "floors_lowered w w'" and "i < length w"
  shows "dw_desired (w' ! i) = dw_desired (w ! i)" and "dw_dbOid (w' ! i) = dw_dbOid (w ! i)"
    and "dw_floor (w' ! i) \<le> dw_floor (w ! i)" and "0 \<le> dw_floor (w' ! i)"
  using floors_loweredD [OF assms]
  by (metis SvsDbCpuWorking.select_convs(1,2) SvsDbCpuWorking.surjective
      SvsDbCpuWorking.update_convs(3))+

lemma grants_total:
  assumes "pg_qsort qp" and "cpu_input_ok inp"
  shows "sum_list (map dg_grantedSearchThreads (dbGrants (SvsComputeCpuGrants qp inp))) +
    sum_list (map bg_grantedThreads (buildGrants (SvsComputeCpuGrants qp inp))) =
    min (ComputeSearchPool (in_gucs inp)) (total_demand inp)"
proof -
  obtain exceed w g where w: "ClampFloorsToPool qp (input_working inp) (input_pool inp) = (exceed, w)"
    and split: "split_ok (BuildClaims w (in_builds inp) (BuildBuildWorkingSet inp))
       (input_pool inp - sum_list (map dw_floor w)) g"
    and res: "dbGrants (SvsComputeCpuGrants qp inp) =
       map (\<lambda>i. \<lparr>dg_dbOid = dw_dbOid (w ! i), dg_desiredSearchThreads = dw_desired (w ! i),
                dg_grantedSearchThreads = dw_floor (w ! i) + g (ElasticGrantOf i),
                dg_reservedSearchThreads = dw_floor (w ! i)\<rparr>) [0..<length (in_dbs inp)]"
    "buildGrants (SvsComputeCpuGrants qp inp) =
       map (\<lambda>i. \<lparr>bg_dbOid = br_dbOid (in_builds inp ! i), bg_requestPid = br_requestPid (in_builds inp ! i),
                bg_grantedThreads = g (BuildGrantOf i)\<rparr>) [0..<length (in_builds inp)]"
    by (rule pg_qsort.SvsComputeCpuGrants_split [OF assms])
  note spec = pg_qsort.ClampFloorsToPool_spec
    [OF assms(1) input_working_range [OF assms(2)] input_pool_bounds(1) [OF assms(2)] w]
  have len: "length w = length (in_dbs inp)"
    using floors_lowered_length [OF spec(1)] by simp
  note same = floors_lowered_same [OF spec(1), unfolded length_input_working]
  have le: "dw_floor (w ! i) \<le> dw_desired (w ! i)" if "i < length w" for i
    using same(1,3) [of i] input_working_entry(2) [OF assms(2), of i] that len by simp
  have des: "map dw_desired w = map dw_desired (input_working inp)"
    by (rule nth_equalityI) (simp_all add: len same)
  have "sum_list (map (\<lambda>i. g (ElasticGrantOf i)) [0..<length w]) +
      sum_list (map (\<lambda>i. g (BuildGrantOf i)) [0..<length (in_builds inp)]) =
      min (input_pool inp - sum_list (map dw_floor w)) (total_demand inp - sum_list (map dw_floor w))"
    using split BuildClaims_sum [of w "in_builds inp" "BuildBuildWorkingSet inp" g]
      BuildClaims_asks [OF le, of "in_builds inp" "BuildBuildWorkingSet inp"]
    by (simp add: split_ok_def des total_demand_def)
  then show ?thesis
    using map_upt_nth [of dw_floor w]
    by (simp add: res comp_def len sum_list_split_upt input_pool_def min_def split: if_splits)
qed

text \<open>
  C1: the search grants and the build grants of one budget add up to exactly the smaller of the
  search pool and the total demand. So the cluster never hands out more threads than the pool
  has, and never leaves one idle while somebody still wants it.
\<close>

theorem SvsComputeCpuGrants_total:
  assumes "pg_qsort qp" and "cpu_input_ok inp"
  shows "sum_list (map dg_grantedSearchThreads (dbGrants (SvsComputeCpuGrants qp inp))) +
    sum_list (map bg_grantedThreads (buildGrants (SvsComputeCpuGrants qp inp))) =
    min (ComputeSearchPool (in_gucs inp)) (total_demand inp)"
  by (rule grants_total [OF assms])

text \<open>A cluster with two databases and a build, for the concrete cases.\<close>

definition demo_input :: SvsCpuBudgetInput where
  "demo_input =
     \<lparr>in_gucs = \<lparr>searchNumThreadsDefault = 4, maxSearchThreadsPerDb = 0,
                 maxTotalSearchThreads = 8, maxParallelWorkers = 16\<rparr>,
      in_dbs = [\<lparr>rq_dbOid = 10, rq_live = True, rq_hasIndexes = True,
                 rq_searchNumThreads = 5, rq_searchThreadsReserved = 2\<rparr>,
                \<lparr>rq_dbOid = 11, rq_live = True, rq_hasIndexes = True,
                 rq_searchNumThreads = -1, rq_searchThreadsReserved = 1\<rparr>],
      in_builds = [\<lparr>br_dbOid = 10, br_requestPid = 77, br_maintenanceNumThreads = 3\<rparr>]\<rparr>"

lemma demo_input_ok: "cpu_input_ok demo_input"
  by (simp add: demo_input_def cpu_input_ok_def)

lemma demo_working: "input_working demo_input =
  [\<lparr>dw_dbOid = 10, dw_desired = 5, dw_floor = 2, dw_elasticGrant = 0\<rparr>,
   \<lparr>dw_dbOid = 11, dw_desired = 4, dw_floor = 1, dw_elasticGrant = 0\<rparr>]"
  by (simp add: demo_input_def input_working_def BuildDbWorkingSet_def ComputeEffectiveDesired_def
      SvsAtLeastOneThread_def SvsSearchThreadsPerDbCeiling_def ResolveOrFallback_def)

lemma demo_pool: "ComputeSearchPool (in_gucs demo_input) = 8"
  by (simp add: demo_input_def ComputeSearchPool_def ResolveOrFallback_def)

theorem SvsComputeCpuGrants_total_witness:
  "sum_list (map dg_grantedSearchThreads (dbGrants (SvsComputeCpuGrants insertion_qp demo_input))) +
   sum_list (map bg_grantedThreads (buildGrants (SvsComputeCpuGrants insertion_qp demo_input))) = 8"
  using SvsComputeCpuGrants_total [OF insertion_sort.pg_qsort_axioms demo_input_ok]
  by (simp add: demo_pool total_demand_def demo_working) (simp add: demo_input_def)

lemma split_ok_out:
  assumes "split_ok (BuildClaims w builds bw) R g"
  shows "0 \<le> g (ElasticGrantOf i)" and "0 \<le> g (BuildGrantOf k)"
    and "\<lbrakk>i < length w; dw_floor (w ! i) \<le> dw_desired (w ! i)\<rbrakk> \<Longrightarrow>
      g (ElasticGrantOf i) \<le> dw_desired (w ! i) - dw_floor (w ! i)"
    and "k < length builds \<Longrightarrow> g (BuildGrantOf k) \<le> max 0 (br_maintenanceNumThreads (builds ! k))"
proof -
  have out: "g t = 0 \<or> (\<exists>c \<in> set (BuildClaims w builds bw). cl_grantOut c = t \<and> 0 \<le> g t \<and> g t \<le> cl_ask c)" for t
  proof (cases "t \<in> cl_grantOut ` set (BuildClaims w builds bw)")
    case True
    then obtain c where "c \<in> set (BuildClaims w builds bw)" "t = cl_grantOut c" by blast
    with assms show ?thesis unfolding split_ok_def by blast
  next
    case False
    with assms show ?thesis unfolding split_ok_def by blast
  qed
  show "0 \<le> g (ElasticGrantOf i)" "0 \<le> g (BuildGrantOf k)"
    using out by force+
  show "g (ElasticGrantOf i) \<le> dw_desired (w ! i) - dw_floor (w ! i)"
    if "i < length w" "dw_floor (w ! i) \<le> dw_desired (w ! i)"
    using out [of "ElasticGrantOf i"] that by (auto simp: BuildClaims_def)
  show "g (BuildGrantOf k) \<le> max 0 (br_maintenanceNumThreads (builds ! k))" if "k < length builds"
    using out [of "BuildGrantOf k"] that by (auto simp: BuildClaims_def)
qed

lemma grants_bounds:
  assumes "pg_qsort qp" and "cpu_input_ok inp"
  shows "list_all2 (\<lambda>w d. dg_dbOid d = dw_dbOid w \<and> dg_desiredSearchThreads d = dw_desired w \<and>
        0 \<le> dg_reservedSearchThreads d \<and> dg_reservedSearchThreads d \<le> dw_floor w \<and>
        dg_reservedSearchThreads d \<le> dg_grantedSearchThreads d \<and>
        dg_grantedSearchThreads d \<le> dg_desiredSearchThreads d)
      (input_working inp) (dbGrants (SvsComputeCpuGrants qp inp)) \<and>
    list_all2 (\<lambda>b d. bg_dbOid d = br_dbOid b \<and> bg_requestPid d = br_requestPid b \<and>
        0 \<le> bg_grantedThreads d \<and> bg_grantedThreads d \<le> max 0 (br_maintenanceNumThreads b))
      (in_builds inp) (buildGrants (SvsComputeCpuGrants qp inp))"
proof -
  obtain exceed w g where w: "ClampFloorsToPool qp (input_working inp) (input_pool inp) = (exceed, w)"
    and split: "split_ok (BuildClaims w (in_builds inp) (BuildBuildWorkingSet inp))
       (input_pool inp - sum_list (map dw_floor w)) g"
    and res: "dbGrants (SvsComputeCpuGrants qp inp) =
       map (\<lambda>i. \<lparr>dg_dbOid = dw_dbOid (w ! i), dg_desiredSearchThreads = dw_desired (w ! i),
                dg_grantedSearchThreads = dw_floor (w ! i) + g (ElasticGrantOf i),
                dg_reservedSearchThreads = dw_floor (w ! i)\<rparr>) [0..<length (in_dbs inp)]"
    "buildGrants (SvsComputeCpuGrants qp inp) =
       map (\<lambda>i. \<lparr>bg_dbOid = br_dbOid (in_builds inp ! i), bg_requestPid = br_requestPid (in_builds inp ! i),
                bg_grantedThreads = g (BuildGrantOf i)\<rparr>) [0..<length (in_builds inp)]"
    by (rule pg_qsort.SvsComputeCpuGrants_split [OF assms])
  note spec = pg_qsort.ClampFloorsToPool_spec
    [OF assms(1) input_working_range [OF assms(2)] input_pool_bounds(1) [OF assms(2)] w]
  have len: "length w = length (in_dbs inp)"
    using floors_lowered_length [OF spec(1)] by simp
  note same = floors_lowered_same [OF spec(1), unfolded length_input_working]
  note entry = input_working_entry [OF assms(2)]
  have le: "dw_floor (w ! i) \<le> dw_desired (w ! i)" if "i < length (in_dbs inp)" for i
    using same(1,3) [of i] entry(2) [of i] that by simp
  note out = split_ok_out [OF split, unfolded len]
  show ?thesis
    unfolding res list_all2_conv_all_nth
    using same out(1,2,4) out(3) [OF _ le] by (auto simp: algebra_simps)
qed

text \<open>
  C5: the budget answers every request, in the order of the requests. A database is granted at
  least the floor it was reserved, at most the threads it wants, and its honoured floor is never
  above the one it asked for; a build is granted at most what it asked for, and nothing negative.
\<close>

theorem SvsComputeCpuGrants_bounds:
  assumes "pg_qsort qp" and "cpu_input_ok inp"
  shows "list_all2 (\<lambda>w d. dg_dbOid d = dw_dbOid w \<and> dg_desiredSearchThreads d = dw_desired w \<and>
        0 \<le> dg_reservedSearchThreads d \<and> dg_reservedSearchThreads d \<le> dw_floor w \<and>
        dg_reservedSearchThreads d \<le> dg_grantedSearchThreads d \<and>
        dg_grantedSearchThreads d \<le> dg_desiredSearchThreads d)
      (input_working inp) (dbGrants (SvsComputeCpuGrants qp inp)) \<and>
    list_all2 (\<lambda>b d. bg_dbOid d = br_dbOid b \<and> bg_requestPid d = br_requestPid b \<and>
        0 \<le> bg_grantedThreads d \<and> bg_grantedThreads d \<le> max 0 (br_maintenanceNumThreads b))
      (in_builds inp) (buildGrants (SvsComputeCpuGrants qp inp))"
  by (rule grants_bounds [OF assms])

theorem SvsComputeCpuGrants_bounds_witness:
  "length (dbGrants (SvsComputeCpuGrants insertion_qp demo_input)) = 2 \<and>
   length (buildGrants (SvsComputeCpuGrants insertion_qp demo_input)) = 1 \<and>
   dg_grantedSearchThreads (dbGrants (SvsComputeCpuGrants insertion_qp demo_input) ! 0) \<le> 5 \<and>
   bg_requestPid (buildGrants (SvsComputeCpuGrants insertion_qp demo_input) ! 0) = 77"
proof -
  note w = SvsComputeCpuGrants_bounds [OF insertion_sort.pg_qsort_axioms demo_input_ok,
      unfolded demo_working]
  then show ?thesis
    by (auto simp: list_all2_Cons1) (simp_all add: demo_input_def list_all2_Cons1, auto)
qed

text \<open>
  C6: reserved floors. The flag of the budget says exactly that the floors the databases ask for
  do not fit the pool together. While they fit, every database is reserved its full floor; once
  they do not, the honoured floors use the pool up exactly, and a database loses any part of its
  floor only after every database with a smaller OID has lost all of it.
\<close>

theorem SvsComputeCpuGrants_floors:
  assumes "pg_qsort qp" and "cpu_input_ok inp"
    and "asked = sum_list (map dw_floor (input_working inp))"
    and "honoured = map dg_reservedSearchThreads (dbGrants (SvsComputeCpuGrants qp inp))"
  shows "(reservedFloorsExceedPool (SvsComputeCpuGrants qp inp) \<longleftrightarrow>
      ComputeSearchPool (in_gucs inp) < asked) \<and>
    sum_list honoured = min (ComputeSearchPool (in_gucs inp)) asked \<and>
    (asked \<le> ComputeSearchPool (in_gucs inp) \<longrightarrow> honoured = map dw_floor (input_working inp)) \<and>
    (\<forall>i < length honoured. \<forall>j < length honoured.
       rq_dbOid (in_dbs inp ! i) < rq_dbOid (in_dbs inp ! j) \<and>
       honoured ! j < dw_floor (input_working inp ! j) \<longrightarrow> honoured ! i = 0)"
proof -
  obtain exceed w g where w: "ClampFloorsToPool qp (input_working inp) (input_pool inp) = (exceed, w)"
    and res: "dbGrants (SvsComputeCpuGrants qp inp) =
       map (\<lambda>i. \<lparr>dg_dbOid = dw_dbOid (w ! i), dg_desiredSearchThreads = dw_desired (w ! i),
                dg_grantedSearchThreads = dw_floor (w ! i) + g (ElasticGrantOf i),
                dg_reservedSearchThreads = dw_floor (w ! i)\<rparr>) [0..<length (in_dbs inp)]"
    "reservedFloorsExceedPool (SvsComputeCpuGrants qp inp) = exceed"
    by (rule pg_qsort.SvsComputeCpuGrants_split [OF assms(1,2)])
  note range = input_working_range [OF assms(2)]
  note pool = input_pool_bounds [OF assms(2)]
  note spec = pg_qsort.ClampFloorsToPool_spec [OF assms(1) range pool(1) w]
  have len: "length w = length (in_dbs inp)"
    using floors_lowered_length [OF spec(1)] by simp
  have honoured: "honoured = map dw_floor w"
    unfolding assms(4) res using map_upt_nth [of dw_floor w] by (simp add: comp_def len)
  have cut: "dw_floor (w ! i) = 0"
    if "i < length w" "j < length w" "rq_dbOid (in_dbs inp ! i) < rq_dbOid (in_dbs inp ! j)"
      "dw_floor (w ! j) < dw_floor (input_working inp ! j)" for i j
    using pg_qsort.ClampFloorsToPool_lowest_oid_first [OF assms(1) range pool(1) w, of i j] that
    by (simp add: len input_working_entry [OF assms(2)])
  show ?thesis
    using spec(2-4) cut unfolding honoured res assms(3) input_pool_def by auto
qed

theorem SvsComputeCpuGrants_floors_witness:
  "\<not> reservedFloorsExceedPool (SvsComputeCpuGrants insertion_qp demo_input) \<and>
   map dg_reservedSearchThreads (dbGrants (SvsComputeCpuGrants insertion_qp demo_input)) = [2, 1]"
  using SvsComputeCpuGrants_floors [OF insertion_sort.pg_qsort_axioms demo_input_ok refl refl]
  by (simp add: demo_pool demo_working)

text \<open>Who carries weight: the databases with an honoured floor.\<close>

lemma weighted_BuildClaims_sums:
  fixes g :: "GrantOut \<Rightarrow> int"
  assumes "split_ok (BuildClaims w builds bw) R g"
    and "\<And>i. i < length w \<Longrightarrow> dw_floor (w ! i) \<le> dw_desired (w ! i)"
  shows "sum_list (map (\<lambda>i. g (ElasticGrantOf i)) (filter (\<lambda>i. 0 < dw_floor (w ! i)) [0..<length w])) =
    min R (sum_list (map (\<lambda>i. dw_desired (w ! i) - dw_floor (w ! i))
      (filter (\<lambda>i. 0 < dw_floor (w ! i)) [0..<length w])))"
proof -
  let ?ask = "\<lambda>i. dw_desired (w ! i) - dw_floor (w ! i)"
  let ?fl = "filter (\<lambda>i. 0 < dw_floor (w ! i)) [0..<length w]"
  have weighted: "map h (weighted (BuildClaims w builds bw)) =
      map (\<lambda>i. h \<lparr>cl_dbOid = dw_dbOid (w ! i), cl_requestPid = 0, cl_weight = dw_floor (w ! i),
          cl_ask = ?ask i, cl_grantOut = ElasticGrantOf i, cl_floorShare = 0, cl_fracNumerator = 0\<rparr>)
        (filter (\<lambda>i. \<not> ?ask i \<le> 0) ?fl)" for h :: "SvsCpuClaim \<Rightarrow> int"
    by (simp add: weighted_def BuildClaims_def filter_map comp_def conj_commute)
  have drop: "sum_list (map h (filter (\<lambda>i. \<not> ?ask i \<le> 0) ?fl)) = sum_list (map h ?fl)"
    if "\<And>i. i < length w \<Longrightarrow> ?ask i \<le> 0 \<Longrightarrow> h i = 0" for h :: "nat \<Rightarrow> int"
    using sum_list_filter_split [of h "\<lambda>i. \<not> ?ask i \<le> 0" ?fl]
      sum_list_all_zero [of "filter (\<lambda>i. \<not> \<not> ?ask i \<le> 0) ?fl" h] that by force
  have none: "g (ElasticGrantOf i) = 0" if "i < length w" "?ask i \<le> 0" for i
    using split_ok_out(1,3) [OF assms(1), of i] assms(2) [of i] that by linarith
  have "sum_list (map (\<lambda>i. g (ElasticGrantOf i)) ?fl) =
      sum_list (map (\<lambda>c. g (cl_grantOut c)) (weighted (BuildClaims w builds bw)))"
    unfolding weighted SvsCpuClaim.select_convs
    by (rule drop [of "\<lambda>i. g (ElasticGrantOf i)", OF none, symmetric])
  also have "\<dots> = min R (sum_list (map cl_ask (weighted (BuildClaims w builds bw))))"
    using assms(1) by (simp add: split_ok_def)
  also have "sum_list (map cl_ask (weighted (BuildClaims w builds bw))) = sum_list (map ?ask ?fl)"
    unfolding weighted SvsCpuClaim.select_convs
    by (rule drop [of ?ask]) (use assms(2) in force)
  finally show ?thesis .
qed

lemma grants_floored_first:
  assumes "pg_qsort qp" and "cpu_input_ok inp"
    and "floored = filter (\<lambda>d. 0 < dg_reservedSearchThreads d) (dbGrants (SvsComputeCpuGrants qp inp))"
  shows "sum_list (map dg_grantedSearchThreads floored) =
    min (ComputeSearchPool (in_gucs inp)) (sum_list (map dg_desiredSearchThreads floored))"
proof -
  obtain exceed w g where w: "ClampFloorsToPool qp (input_working inp) (input_pool inp) = (exceed, w)"
    and split: "split_ok (BuildClaims w (in_builds inp) (BuildBuildWorkingSet inp))
       (input_pool inp - sum_list (map dw_floor w)) g"
    and res: "dbGrants (SvsComputeCpuGrants qp inp) =
       map (\<lambda>i. \<lparr>dg_dbOid = dw_dbOid (w ! i), dg_desiredSearchThreads = dw_desired (w ! i),
                dg_grantedSearchThreads = dw_floor (w ! i) + g (ElasticGrantOf i),
                dg_reservedSearchThreads = dw_floor (w ! i)\<rparr>) [0..<length (in_dbs inp)]"
    by (rule pg_qsort.SvsComputeCpuGrants_split [OF assms(1,2)])
  note spec = pg_qsort.ClampFloorsToPool_spec
    [OF assms(1) input_working_range [OF assms(2)] input_pool_bounds(1) [OF assms(2)] w]
  have len: "length w = length (in_dbs inp)"
    using floors_lowered_length [OF spec(1)] by simp
  note same = floors_lowered_same [OF spec(1), unfolded length_input_working]
  have le: "dw_floor (w ! i) \<le> dw_desired (w ! i)" if "i < length w" for i
    using same(1,3) [of i] input_working_entry(2) [OF assms(2), of i] that len by simp
  let ?fl = "filter (\<lambda>i. 0 < dw_floor (w ! i)) [0..<length w]"
  have floored: "map h floored = map (\<lambda>i. h \<lparr>dg_dbOid = dw_dbOid (w ! i),
      dg_desiredSearchThreads = dw_desired (w ! i),
      dg_grantedSearchThreads = dw_floor (w ! i) + g (ElasticGrantOf i),
      dg_reservedSearchThreads = dw_floor (w ! i)\<rparr>) ?fl" for h :: "SvsDbCpuGrant \<Rightarrow> int"
    by (simp add: assms(3) res filter_map comp_def len)
  have "sum_list (map dw_floor w) = sum_list (map (\<lambda>i. dw_floor (w ! i)) ?fl)"
    using sum_list_filter_split [of "\<lambda>i. dw_floor (w ! i)" "\<lambda>i. 0 < dw_floor (w ! i)" "[0..<length w]"]
      sum_list_all_zero [of "filter (\<lambda>i. \<not> 0 < dw_floor (w ! i)) [0..<length w]" "\<lambda>i. dw_floor (w ! i)"]
      same(4) map_upt_nth [of dw_floor w] by (force simp: len)
  then show ?thesis
    using weighted_BuildClaims_sums [OF split le]
    by (simp add: floored sum_list_addf sum_list_subtractf input_pool_def min_def split: if_splits)
qed

text \<open>
  C36: databases with an honoured floor are served before everybody else. Together they get the
  whole pool or everything they want, whichever is smaller; only what they leave is divided
  among databases without a floor and index builds.
\<close>

theorem SvsComputeCpuGrants_floored_first:
  assumes "pg_qsort qp" and "cpu_input_ok inp"
    and "floored = filter (\<lambda>d. 0 < dg_reservedSearchThreads d) (dbGrants (SvsComputeCpuGrants qp inp))"
  shows "sum_list (map dg_grantedSearchThreads floored) =
    min (ComputeSearchPool (in_gucs inp)) (sum_list (map dg_desiredSearchThreads floored))"
  by (rule grants_floored_first [OF assms])

theorem SvsComputeCpuGrants_floored_first_witness:
  "sum_list (map dg_grantedSearchThreads (filter (\<lambda>d. 0 < dg_reservedSearchThreads d)
     (dbGrants (SvsComputeCpuGrants insertion_qp demo_input)))) =
   min 8 (sum_list (map dg_desiredSearchThreads (filter (\<lambda>d. 0 < dg_reservedSearchThreads d)
     (dbGrants (SvsComputeCpuGrants insertion_qp demo_input)))))"
  using SvsComputeCpuGrants_floored_first [OF insertion_sort.pg_qsort_axioms demo_input_ok refl]
  by (simp add: demo_pool)

lemma sum_list_zero_member:
  fixes f :: "'a \<Rightarrow> int"
  assumes "\<And>x. x \<in> set xs \<Longrightarrow> 0 \<le> f x" and "sum_list (map f xs) \<le> 0" and "x \<in> set xs"
  shows "f x = 0"
  using member_le_sum_int [of xs f x] assms by force

text \<open>
  Starvation. As soon as the databases with an honoured floor want the whole pool between
  them, every index build and every database without a floor is granted nothing at all, however
  small its ask: redistribution of surplus does not keep a claim of weight zero above zero.
\<close>

theorem SvsComputeCpuGrants_unfloored_starve:
  assumes "pg_qsort qp" and "cpu_input_ok inp"
    and "ComputeSearchPool (in_gucs inp) \<le> sum_list (map dg_desiredSearchThreads
       (filter (\<lambda>d. 0 < dg_reservedSearchThreads d) (dbGrants (SvsComputeCpuGrants qp inp))))"
  shows "(\<forall>b \<in> set (buildGrants (SvsComputeCpuGrants qp inp)). bg_grantedThreads b = 0) \<and>
    (\<forall>d \<in> set (dbGrants (SvsComputeCpuGrants qp inp)).
       dg_reservedSearchThreads d = 0 \<longrightarrow> dg_grantedSearchThreads d = 0)"
proof -
  let ?B = "SvsComputeCpuGrants qp inp"
  let ?rest = "filter (\<lambda>d. \<not> 0 < dg_reservedSearchThreads d) (dbGrants ?B)"
  note bounds = grants_bounds [OF assms(1,2), unfolded list_all2_conv_all_nth]
  have db: "0 \<le> dg_grantedSearchThreads d" if "d \<in> set (dbGrants ?B)" for d
    using that bounds unfolding in_set_conv_nth by fastforce
  have bu: "0 \<le> bg_grantedThreads b" if "b \<in> set (buildGrants ?B)" for b
    using that bounds unfolding in_set_conv_nth by fastforce
  have "sum_list (map dg_grantedSearchThreads ?rest) + sum_list (map bg_grantedThreads (buildGrants ?B)) \<le> 0"
    using grants_total [OF assms(1,2)] grants_floored_first [OF assms(1,2) refl] assms(3)
      sum_list_filter_split [of dg_grantedSearchThreads "\<lambda>d. 0 < dg_reservedSearchThreads d" "dbGrants ?B"]
    by linarith
  moreover have "0 \<le> sum_list (map dg_grantedSearchThreads ?rest)"
    "0 \<le> sum_list (map bg_grantedThreads (buildGrants ?B))"
    using db bu by (auto intro!: sum_list_nonneg_int)
  ultimately have zero: "sum_list (map dg_grantedSearchThreads ?rest) \<le> 0"
    "sum_list (map bg_grantedThreads (buildGrants ?B)) \<le> 0" by linarith+
  show ?thesis
    using sum_list_zero_member [OF bu zero(2)]
      sum_list_zero_member [of ?rest dg_grantedSearchThreads, OF _ zero(1)] db by auto
qed

lemma demo_budget: "SvsComputeCpuGrants insertion_qp demo_input =
  \<lparr>dbGrants = [\<lparr>dg_dbOid = 10, dg_desiredSearchThreads = 5, dg_grantedSearchThreads = 5,
                dg_reservedSearchThreads = 2\<rparr>,
               \<lparr>dg_dbOid = 11, dg_desiredSearchThreads = 4, dg_grantedSearchThreads = 3,
                dg_reservedSearchThreads = 1\<rparr>],
   buildGrants = [\<lparr>bg_dbOid = 10, bg_requestPid = 77, bg_grantedThreads = 0\<rparr>],
   reservedFloorsExceedPool = False\<rparr>"
  by code_simp

theorem SvsComputeCpuGrants_unfloored_starve_witness:
  "map bg_grantedThreads (buildGrants (SvsComputeCpuGrants insertion_qp demo_input)) = [0]"
  using SvsComputeCpuGrants_unfloored_starve [OF insertion_sort.pg_qsort_axioms demo_input_ok]
  by (simp add: demo_pool demo_budget)

text \<open>
  Fairness of the last round. Every claim gets the integer part of its exact proportional
  share or one thread more, and a claim that is rounded up has a fractional part at least as
  large as one that is not (the largest remainder method).
\<close>

theorem DistributeLeftover_fair:
  assumes "pg_qsort qp" and "claims_ok claims" and "0 \<le> R"
    and "\<forall>c \<in> set claims. cl_floorShare c = exact_floor_share claims R c"
    and "c \<in> set claims" and "d \<in> set claims"
    and "got = granted (DistributeLeftover qp claims R)"
  shows "exact_floor_share claims R c \<le> got (cl_grantOut c) \<and>
    got (cl_grantOut c) \<le> exact_floor_share claims R c + 1 \<and>
    (exact_floor_share claims R c < got (cl_grantOut c) \<and>
     got (cl_grantOut d) = exact_floor_share claims R d \<longrightarrow>
       exact_frac claims R d \<le> exact_frac claims R c)"
  using pg_qsort.DistributeLeftover_near_share [OF assms(1-5)]
    pg_qsort.DistributeLeftover_largest_remainder [OF assms(1-6)] assms(7) by auto

definition demo_claim :: "nat \<Rightarrow> int \<Rightarrow> int \<Rightarrow> SvsCpuClaim" where
  "demo_claim i weight share = \<lparr>cl_dbOid = 0, cl_requestPid = 0, cl_weight = weight, cl_ask = 9,
     cl_grantOut = BuildGrantOf i, cl_floorShare = share, cl_fracNumerator = 0\<rparr>"

theorem DistributeLeftover_fair_witness:
  "granted (DistributeLeftover insertion_qp [demo_claim 0 2 3, demo_claim 1 1 1] 5) (BuildGrantOf 0) \<in> {3, 4}"
proof -
  let ?cs = "[demo_claim 0 2 3, demo_claim 1 1 1]"
  have "claims_ok ?cs" and "\<forall>c \<in> set ?cs. cl_floorShare c = exact_floor_share ?cs 5 c"
    by (simp_all add: claims_ok_def demo_claim_def exact_floor_share_def weight_for_share_def
        share_denom_def total_weight_def)
  from DistributeLeftover_fair [OF insertion_sort.pg_qsort_axioms this(1) _ this(2), of "demo_claim 0 2 3"
      "demo_claim 0 2 3", OF _ _ _ refl]
  show ?thesis
    by (auto simp: demo_claim_def exact_floor_share_def weight_for_share_def
        share_denom_def total_weight_def)
qed

end
