(* ===== verification/Launcher_Cpu.thy ===== *)
theory Launcher_Cpu
  imports Build_Requests Cpu_Grants
begin

text \<open>
  Publishing CPU grants (\<open>PublishCpuGrants\<close> of \<open>vamanalauncher.c\<close>): the requests are gathered from
  the rows and the control blocks, the budget is computed once, and the grants are written back to
  the blocks that still belong to the same tenant.
\<close>

section \<open>Gathering and writing back\<close>

record GatheredDbEntry =
  ga_dbOid :: oid
  ga_entry :: "nat option"
  ga_generation :: u32

definition FindGatheredEntry :: "GatheredDbEntry list \<Rightarrow> oid \<Rightarrow> GatheredDbEntry option" where
  "FindGatheredEntry entries dbOid = find (\<lambda>g. ga_dbOid g = dbOid) entries"

type_synonym gathered = "SvsDbCpuRequest list \<times> GatheredDbEntry list \<times> SvsBuildCpuRequest list \<times> VamanaWorkerShmemHeader"

definition gather_row :: "PgEnv \<Rightarrow> bool \<Rightarrow> VamanaDatabaseRow \<Rightarrow> gathered \<Rightarrow> gathered" where
  "gather_row env RecoveryInProgress db = (\<lambda>(dbs, entries, builds, h).
     let slot = VamanaWorkerLookupSlotGeneration h (dr_dbOid db);
         entry = map_option fst slot;
         generation = (case slot of None \<Rightarrow> 0 | Some (e, g) \<Rightarrow> g);
         live = (case entry of None \<Rightarrow> False | Some e \<Rightarrow> VamanaWorkerEntryIsLive env (hd_slots h ! e));
         hasIndexes = (\<not> VamanaIndexCountIsMaintained RecoveryInProgress \<or>
           (case entry of None \<Rightarrow> False | Some e \<Rightarrow> ws_indexCount (hd_slots h ! e) > 0));
         (builds, h) = AppendPendingBuildRequests env (dr_dbOid db) entry (builds, h)
     in (dbs @ [\<lparr>rq_dbOid = dr_dbOid db, rq_live = live, rq_hasIndexes = hasIndexes,
                rq_searchNumThreads = cc_searchNumThreads (dr_cpu db),
                rq_searchThreadsReserved = cc_searchThreadsReserved (dr_cpu db)\<rparr>],
         entries @ [\<lparr>ga_dbOid = dr_dbOid db, ga_entry = entry, ga_generation = generation\<rparr>],
         builds, h))"

definition gather_requests :: "PgEnv \<Rightarrow> bool \<Rightarrow> VamanaDatabaseRow list \<Rightarrow> VamanaWorkerShmemHeader \<Rightarrow> gathered" where
  "gather_requests env RecoveryInProgress rows h =
     fold (gather_row env RecoveryInProgress) (EnabledRowsOf rows) ([], [], [], h)"

text \<open>The result of a write: the blocks whose latch is set, and the shared memory.\<close>

definition publish_search_grant ::
    "GatheredDbEntry list \<Rightarrow> SvsDbCpuGrant \<Rightarrow> nat list \<times> VamanaWorkerShmemHeader \<Rightarrow> nat list \<times> VamanaWorkerShmemHeader" where
  "publish_search_grant entries grant = (\<lambda>(latches, h).
     case FindGatheredEntry entries (dg_dbOid grant) of
       None \<Rightarrow> (latches, h)
     | Some g \<Rightarrow>
         (case ga_entry g of
            None \<Rightarrow> (latches, h)
          | Some e \<Rightarrow>
              let entry = hd_slots h ! e in
              if ws_dbOid entry = ga_dbOid g \<and> ws_generation entry = ga_generation g then
                (let new = word_of_int (dg_grantedSearchThreads grant);
                     changed = (new \<noteq> ws_grantedSearchThreads entry);
                     entry = entry\<lparr>ws_desiredSearchThreads := word_of_int (dg_desiredSearchThreads grant),
                                   ws_reservedSearchThreads := word_of_int (dg_reservedSearchThreads grant)\<rparr>;
                     entry = (if changed then entry\<lparr>ws_grantedSearchThreads := new\<rparr> else entry)
                 in (if changed then latches @ [e] else latches, put_entry h e entry))
              else (latches, h)))"

definition publish_build_grant ::
    "GatheredDbEntry list \<Rightarrow> SvsBuildCpuGrant \<Rightarrow> int list \<times> VamanaWorkerShmemHeader \<Rightarrow> int list \<times> VamanaWorkerShmemHeader" where
  "publish_build_grant entries grant = (\<lambda>(woken, h).
     case FindGatheredEntry entries (bg_dbOid grant) of
       None \<Rightarrow> (woken, h)
     | Some g \<Rightarrow>
         (case ga_entry g of
            None \<Rightarrow> (woken, h)
          | Some e \<Rightarrow>
              let (pid, h) = PublishBuildGrant e (ga_dbOid g) (ga_generation g) grant h
              in (case pid of None \<Rightarrow> woken | Some p \<Rightarrow> woken @ [p], h)))"

definition cpu_input :: "SvsCpuGucs \<Rightarrow> PgEnv \<Rightarrow> bool \<Rightarrow> VamanaDatabaseRow list \<Rightarrow> VamanaWorkerShmemHeader \<Rightarrow> SvsCpuBudgetInput" where
  "cpu_input gucs env RecoveryInProgress rows h =
     (let (dbs, entries, builds, h) = gather_requests env RecoveryInProgress rows h
      in \<lparr>in_gucs = gucs, in_dbs = dbs, in_builds = builds\<rparr>)"

text \<open>
  \<open>others\<close> is what other processes do to the shared memory while the budget is computed.  The result:
  the latches set, the pids woken, whether the clamped floors are logged, and the shared memory.
\<close>

definition PublishCpuGrants ::
    "qperm \<Rightarrow> SvsCpuGucs \<Rightarrow> PgEnv \<Rightarrow> bool \<Rightarrow> (VamanaWorkerShmemHeader \<Rightarrow> VamanaWorkerShmemHeader)
     \<Rightarrow> VamanaDatabaseRow list \<Rightarrow> VamanaWorkerShmemHeader \<Rightarrow> nat list \<times> int list \<times> bool \<times> VamanaWorkerShmemHeader" where
  "PublishCpuGrants qp gucs env RecoveryInProgress others rows h =
     (let (dbs, entries, builds, h) = gather_requests env RecoveryInProgress rows h;
          budget = SvsComputeCpuGrants qp \<lparr>in_gucs = gucs, in_dbs = dbs, in_builds = builds\<rparr>;
          (latches, h) = fold (publish_search_grant entries) (dbGrants budget) ([], others h);
          (woken, h) = fold (publish_build_grant entries) (buildGrants budget) ([], h)
      in (latches, woken, reservedFloorsExceedPool budget, h))"

section \<open>Gathering leaves the directory alone\<close>

text \<open>Everything of the control blocks but their request tables.\<close>

definition block_core :: "VamanaWorkerShmem \<Rightarrow> VamanaWorkerShmem" where
  "block_core entry = entry\<lparr>ws_buildRequests := []\<rparr>"

lemma block_core_fields:
  assumes "block_core w = block_core w'"
  shows "ws_dbOid w = ws_dbOid w'" "ws_generation w = ws_generation w'" "ws_grantedSearchThreads w = ws_grantedSearchThreads w'"
    "ws_workerPid w = ws_workerPid w'" "ws_heartbeat_ts w = ws_heartbeat_ts w'" "ws_indexCount w = ws_indexCount w'"
  using assms by (cases w; cases w'; simp add: block_core_def)+

definition same_blocks :: "VamanaWorkerShmemHeader \<Rightarrow> VamanaWorkerShmemHeader \<Rightarrow> bool" where
  "same_blocks h h' \<longleftrightarrow> map block_core (hd_slots h') = map block_core (hd_slots h)"

lemma same_blocks_refl [simp]: "same_blocks h h"
  by (simp add: same_blocks_def)

lemma same_blocks_trans: "same_blocks a b \<Longrightarrow> same_blocks b c \<Longrightarrow> same_blocks a c"
  by (simp add: same_blocks_def)

lemma same_blocks_put: "same_blocks h (put_request h req r)"
proof (cases "in_table h req")
  case True
  obtain e i where req: "req = (e, i)" by fastforce
  have "block_core ((hd_slots h ! e)\<lparr>ws_buildRequests := (ws_buildRequests (hd_slots h ! e))[i := r]\<rparr>) = map block_core (hd_slots h) ! e"
    using True by (simp add: block_core_def req in_table_def)
  then show ?thesis unfolding same_blocks_def req put_request_def by (simp add: map_update)
qed (simp add: put_request_outside)

lemma same_blocks_length: "same_blocks h h' \<Longrightarrow> length (hd_slots h') = length (hd_slots h)"
  unfolding same_blocks_def by (metis length_map)

lemma same_blocks_nth:
  assumes "same_blocks h h'" and "e < length (hd_slots h)"
  shows "block_core (hd_slots h' ! e) = block_core (hd_slots h ! e)"
  using assms same_blocks_length [OF assms(1)] unfolding same_blocks_def by (metis nth_map)

lemmas same_blocksD = block_core_fields [OF same_blocks_nth]

lemma same_blocks_find:
  assumes "same_blocks h h'"
  shows "VamanaWorkerFindSlot h' db = VamanaWorkerFindSlot h db"
proof -
  have eq: "map ws_dbOid (hd_slots h') = map ws_dbOid (hd_slots h)"
    by (rule nth_equalityI) (simp_all add: same_blocks_length [OF assms] same_blocksD(1) [OF assms])
  have "find_index (\<lambda>w. ws_dbOid w = db) xs = find_index (\<lambda>d. d = db) (map ws_dbOid xs)" for xs
    by (induction xs) auto
  then show ?thesis unfolding VamanaWorkerFindSlot_def using eq by metis
qed

lemma scan_same_blocks: "same_blocks h (snd (scan_request env db e i (bs, h)))"
  by (auto simp: scan_request_def Let_def SvsReleaseBuildRequestSlot_def same_blocks_put)

lemma scans_same_blocks: "same_blocks h (snd (fold (scan_request env db e) js (bs, h)))"
proof (induction js arbitrary: bs h)
  case (Cons j js)
  obtain bs' h' where s: "scan_request env db e j (bs, h) = (bs', h')" by fastforce
  then show ?case using same_blocks_trans [OF scan_same_blocks [of h env db e j bs, unfolded s snd_conv] Cons.IH [of h' bs']] by simp
qed simp

lemma Append_same_blocks: "same_blocks h (snd (AppendPendingBuildRequests env db entry (bs, h)))"
  by (cases entry) (simp_all add: AppendPendingBuildRequests_def scans_same_blocks)

text \<open>What is gathered for a row, read off the shared memory as it was.\<close>

definition row_entry :: "VamanaWorkerShmemHeader \<Rightarrow> VamanaDatabaseRow \<Rightarrow> GatheredDbEntry" where
  "row_entry h db = \<lparr>ga_dbOid = dr_dbOid db, ga_entry = VamanaWorkerFindSlot h (dr_dbOid db),
     ga_generation = (case VamanaWorkerFindSlot h (dr_dbOid db) of None \<Rightarrow> 0 | Some e \<Rightarrow> ws_generation (hd_slots h ! e))\<rparr>"

definition row_request :: "PgEnv \<Rightarrow> bool \<Rightarrow> VamanaWorkerShmemHeader \<Rightarrow> VamanaDatabaseRow \<Rightarrow> SvsDbCpuRequest" where
  "row_request env recovery h db =
     (let entry = VamanaWorkerFindSlot h (dr_dbOid db) in
      \<lparr>rq_dbOid = dr_dbOid db,
       rq_live = (case entry of None \<Rightarrow> False | Some e \<Rightarrow> VamanaWorkerEntryIsLive env (hd_slots h ! e)),
       rq_hasIndexes = (\<not> VamanaIndexCountIsMaintained recovery \<or>
         (case entry of None \<Rightarrow> False | Some e \<Rightarrow> ws_indexCount (hd_slots h ! e) > 0)),
       rq_searchNumThreads = cc_searchNumThreads (dr_cpu db),
       rq_searchThreadsReserved = cc_searchThreadsReserved (dr_cpu db)\<rparr>)"

lemma row_entry_same: "same_blocks h h' \<Longrightarrow> row_entry h' db = row_entry h db"
  using same_blocksD(2) [of h h'] VamanaWorkerFindSlot_SomeD(1) [of h "dr_dbOid db"]
  by (auto simp: row_entry_def same_blocks_find split: option.splits)

lemma row_request_same:
  assumes "same_blocks h h'"
  shows "row_request env recovery h' db = row_request env recovery h db"
proof (cases "VamanaWorkerFindSlot h (dr_dbOid db)")
  case (Some e)
  note d = same_blocksD [OF assms VamanaWorkerFindSlot_SomeD(1) [OF Some]]
  have "VamanaWorkerEntryIsLive env (hd_slots h' ! e) = VamanaWorkerEntryIsLive env (hd_slots h ! e)"
    by (simp add: VamanaWorkerEntryIsLive_def VamanaWorkerHeartbeatStale_def d)
  then show ?thesis using Some d by (simp add: row_request_def same_blocks_find [OF assms] Let_def)
qed (simp add: row_request_def same_blocks_find [OF assms])

lemma gather_row_step:
  "\<exists>builds' h'. gather_row env recovery db (dbs, entries, builds, h) =
     (dbs @ [row_request env recovery h db], entries @ [row_entry h db], builds', h') \<and> same_blocks h h'"
proof -
  obtain bs h' where a: "AppendPendingBuildRequests env (dr_dbOid db) (VamanaWorkerFindSlot h (dr_dbOid db)) (builds, h) = (bs, h')"
    by fastforce
  have "same_blocks h h'"
    using Append_same_blocks [of h env "dr_dbOid db" "VamanaWorkerFindSlot h (dr_dbOid db)" builds] a by simp
  then show ?thesis
    using a by (cases "VamanaWorkerFindSlot h (dr_dbOid db)")
      (auto simp: gather_row_def VamanaWorkerLookupSlotGeneration_def row_request_def row_entry_def Let_def)
qed

lemma gather_rows:
  "\<exists>builds' h'. fold (gather_row env recovery) rows (dbs, entries, builds, h) =
     (dbs @ map (row_request env recovery h) rows, entries @ map (row_entry h) rows, builds', h') \<and> same_blocks h h'"
proof (induction rows arbitrary: dbs entries builds h)
  case (Cons db rows)
  obtain b1 h1 where s: "gather_row env recovery db (dbs, entries, builds, h) =
      (dbs @ [row_request env recovery h db], entries @ [row_entry h db], b1, h1)" "same_blocks h h1"
    using gather_row_step by blast
  obtain b2 h2 where r: "fold (gather_row env recovery) rows (dbs @ [row_request env recovery h db], entries @ [row_entry h db], b1, h1) =
      ((dbs @ [row_request env recovery h db]) @ map (row_request env recovery h1) rows, (entries @ [row_entry h db]) @ map (row_entry h1) rows, b2, h2)"
      "same_blocks h1 h2"
    using Cons.IH by blast
  have "map (row_request env recovery h1) rows = map (row_request env recovery h) rows" "map (row_entry h1) rows = map (row_entry h) rows"
    using row_request_same [OF s(2)] row_entry_same [OF s(2)] by simp_all
  then show ?case using s r same_blocks_trans [OF s(2) r(2)] by simp
qed simp

section \<open>Writing back\<close>

text \<open>The block a grant is written to: the one gathered for its database, if the tenant is still the same.\<close>

definition grant_target :: "GatheredDbEntry list \<Rightarrow> VamanaWorkerShmemHeader \<Rightarrow> SvsDbCpuGrant \<Rightarrow> nat option" where
  "grant_target entries h grant =
     (case FindGatheredEntry entries (dg_dbOid grant) of
        None \<Rightarrow> None
      | Some g \<Rightarrow>
          (case ga_entry g of
             None \<Rightarrow> None
           | Some e \<Rightarrow> if ws_dbOid (hd_slots h ! e) = ga_dbOid g \<and> ws_generation (hd_slots h ! e) = ga_generation g then Some e else None))"

definition set_grants :: "SvsDbCpuGrant \<Rightarrow> VamanaWorkerShmem \<Rightarrow> VamanaWorkerShmem" where
  "set_grants grant entry = entry\<lparr>ws_desiredSearchThreads := word_of_int (dg_desiredSearchThreads grant),
     ws_reservedSearchThreads := word_of_int (dg_reservedSearchThreads grant),
     ws_grantedSearchThreads := word_of_int (dg_grantedSearchThreads grant)\<rparr>"

lemma set_grants_simps [simp]:
  "ws_dbOid (set_grants g w) = ws_dbOid w" "ws_generation (set_grants g w) = ws_generation w"
  "ws_grantedSearchThreads (set_grants g w) = word_of_int (dg_grantedSearchThreads g)"
  by (simp_all add: set_grants_def)

lemma publish_search_grant_eq:
  "snd (publish_search_grant entries g (l, h)) =
     (case grant_target entries h g of None \<Rightarrow> h | Some e \<Rightarrow> put_entry h e (set_grants g (hd_slots h ! e)))"
proof -
  have "w = w\<lparr>ws_grantedSearchThreads := ws_grantedSearchThreads w\<rparr>" for w :: VamanaWorkerShmem by simp
  then show ?thesis
    by (cases "FindGatheredEntry entries (dg_dbOid g)"; cases "ga_entry (the (FindGatheredEntry entries (dg_dbOid g)))")
      (auto simp: publish_search_grant_def grant_target_def Let_def set_grants_def)
qed

lemma FindGatheredEntry_db: "FindGatheredEntry entries db = Some g \<Longrightarrow> ga_dbOid g = db"
  by (auto simp: FindGatheredEntry_def find_Some_iff)

lemma grant_target_db: "grant_target entries h g = Some e \<Longrightarrow> ws_dbOid (hd_slots h ! e) = dg_dbOid g"
  by (auto simp: grant_target_def dest: FindGatheredEntry_db split: option.splits if_splits)

lemma grant_target_same:
  assumes "\<And>e. ws_dbOid (hd_slots h' ! e) = ws_dbOid (hd_slots h ! e) \<and> ws_generation (hd_slots h' ! e) = ws_generation (hd_slots h ! e)"
  shows "grant_target entries h' g = grant_target entries h g"
  using assms by (auto simp: grant_target_def split: option.splits)

lemma set_grants_tenants:
  "ws_dbOid (xs[e := set_grants g (xs ! e)] ! e') = ws_dbOid (xs ! e')"
  "ws_generation (xs[e := set_grants g (xs ! e)] ! e') = ws_generation (xs ! e')"
  by (cases "e' = e"; cases "e < length xs"; simp add: list_update_beyond)+

lemma publish_search_length:
  "length (hd_slots (snd (fold (publish_search_grant entries) gs (l, h)))) = length (hd_slots h)"
proof (induction gs arbitrary: h l)
  case (Cons g gs)
  obtain l' h' where p: "publish_search_grant entries g (l, h) = (l', h')" by fastforce
  have "length (hd_slots h') = length (hd_slots h)"
    using publish_search_grant_eq [of entries g l h] p by (simp split: option.splits)
  then show ?case using Cons.IH [of l' h'] p by simp
qed simp

lemma publish_searches:
  assumes "distinct (map dg_dbOid gs)" and "e < length (hd_slots h)"
  shows "hd_slots (snd (fold (publish_search_grant entries) gs (l, h))) ! e =
     (case find (\<lambda>g. grant_target entries h g = Some e) gs of None \<Rightarrow> hd_slots h ! e | Some g \<Rightarrow> set_grants g (hd_slots h ! e))"
  using assms
proof (induction gs arbitrary: h l)
  case (Cons g gs)
  obtain l' h' where p: "publish_search_grant entries g (l, h) = (l', h')" by fastforce
  have h': "h' = (case grant_target entries h g of None \<Rightarrow> h | Some e \<Rightarrow> put_entry h e (set_grants g (hd_slots h ! e)))"
    using publish_search_grant_eq [of entries g l h] p by simp
  have len: "length (hd_slots h') = length (hd_slots h)"
    by (simp add: h' split: option.split)
  have same: "grant_target entries h' g' = grant_target entries h g'" for g'
    by (rule grant_target_same) (simp add: h' set_grants_tenants split: option.split)
  have at: "hd_slots h' ! e = (if grant_target entries h g = Some e then set_grants g (hd_slots h ! e) else hd_slots h ! e)"
    using Cons.prems(2) by (simp add: h' nth_list_update split: option.split)
  have none: "find (\<lambda>g'. grant_target entries h g' = Some e) gs = None" if "grant_target entries h g = Some e"
    unfolding find_None_iff using Cons.prems(1) grant_target_db [OF that] by (auto dest!: grant_target_db simp: image_iff)
  note IH = Cons.IH [of h' l', unfolded same at]
  show ?case
    using Cons.prems IH len none p by (simp split: option.splits)
qed simp

lemma publish_build_same: "same_blocks h (snd (publish_build_grant entries g (w, h)))"
proof -
  have "same_blocks h (snd (PublishBuildGrant e db gen g h))" for e db gen
    by (cases rule: PublishBuildGrant_cases [of e db gen g h]) (simp_all add: same_blocks_put)
  then show ?thesis by (auto simp: publish_build_grant_def Let_def case_prod_beta split: option.split)
qed

lemma publish_builds_same: "same_blocks h (snd (fold (publish_build_grant entries) gs (w, h)))"
proof (induction gs arbitrary: w h)
  case (Cons g gs)
  obtain w' h' where s: "publish_build_grant entries g (w, h) = (w', h')" by fastforce
  then show ?case
    using same_blocks_trans [OF publish_build_same [of h entries g w, unfolded s snd_conv] Cons.IH [of h' w']] by simp
qed simp

section \<open>Properties\<close>

lemma PublishCpuGrants_steps:
  assumes "PublishCpuGrants qp gucs env recovery others rows h = (latches, woken, exceed, h')"
  obtains builds h1 l where
    "cpu_input gucs env recovery rows h = \<lparr>in_gucs = gucs, in_dbs = map (row_request env recovery h) (EnabledRowsOf rows), in_builds = builds\<rparr>"
    "gather_requests env recovery rows h = (map (row_request env recovery h) (EnabledRowsOf rows), map (row_entry h) (EnabledRowsOf rows), builds, h1)"
    "same_blocks h h1"
    "same_blocks (snd (fold (publish_search_grant (map (row_entry h) (EnabledRowsOf rows)))
       (dbGrants (SvsComputeCpuGrants qp (cpu_input gucs env recovery rows h))) (l, others h1))) h'"
proof -
  obtain builds h1 where g: "gather_requests env recovery rows h =
      (map (row_request env recovery h) (EnabledRowsOf rows), map (row_entry h) (EnabledRowsOf rows), builds, h1)" "same_blocks h h1"
    using gather_rows [of env recovery "EnabledRowsOf rows" "[]" "[]" "[]" h] by (auto simp: gather_requests_def)
  let ?E = "map (row_entry h) (EnabledRowsOf rows)"
  let ?B = "SvsComputeCpuGrants qp (cpu_input gucs env recovery rows h)"
  have inp: "cpu_input gucs env recovery rows h = \<lparr>in_gucs = gucs, in_dbs = map (row_request env recovery h) (EnabledRowsOf rows), in_builds = builds\<rparr>"
    by (simp add: cpu_input_def g)
  obtain l2 h2 where s: "fold (publish_search_grant ?E) (dbGrants ?B) ([], others h1) = (l2, h2)" by fastforce
  have "h' = snd (fold (publish_build_grant ?E) (buildGrants ?B) ([], h2))"
    using assms s by (auto simp: PublishCpuGrants_def g inp Let_def split: prod.splits)
  then have "same_blocks h2 h'" by (simp add: publish_builds_same)
  then show thesis using that [OF inp g, of "[]"] s by simp
qed

lemma find_the:
  assumes "k < length xs" and "P (xs ! k)" and "\<And>i. i < length xs \<Longrightarrow> P (xs ! i) \<Longrightarrow> i = k"
  shows "find P xs = Some (xs ! k)"
  unfolding find_Some_iff using assms by (intro exI [of _ k]) (metis less_irrefl order_less_trans)

lemma FindGathered_row:
  assumes "distinct (map dr_dbOid R)" and "k < length R"
  shows "FindGatheredEntry (map (row_entry h) R) (dr_dbOid (R ! k)) = Some (row_entry h (R ! k))"
proof -
  have "find (\<lambda>g. ga_dbOid g = dr_dbOid (R ! k)) (map (row_entry h) R) = Some (map (row_entry h) R ! k)"
    by (rule find_the) (use assms in \<open>auto simp: row_entry_def distinct_conv_nth\<close>)
  then show ?thesis using assms(2) by (simp add: FindGatheredEntry_def)
qed

text \<open>The budget of a gathered input, database by database.\<close>

lemma row_grants:
  fixes qp
  assumes "pg_qsort qp" and "cpu_input_ok inp" and "in_dbs inp = map (row_request env recovery h) R"
  defines "G \<equiv> dbGrants (SvsComputeCpuGrants qp inp)"
  shows "map dg_dbOid G = map dr_dbOid R"
    and "\<And>k. k < length R \<Longrightarrow> 0 \<le> dg_grantedSearchThreads (G ! k) \<and> dg_grantedSearchThreads (G ! k) < 2 ^ 31"
    and "\<And>k. k < length R \<Longrightarrow> VamanaWorkerFindSlot h (dr_dbOid (R ! k)) = None \<Longrightarrow> dg_grantedSearchThreads (G ! k) = 0"
proof -
  note b = grants_bounds [OF assms(1,2), THEN conjunct1, folded G_def]
  have len: "length G = length R" using list_all2_lengthD [OF b] assms(3) by simp
  have at: "dg_dbOid (G ! k) = dr_dbOid (R ! k) \<and> 0 \<le> dg_grantedSearchThreads (G ! k) \<and>
      dg_grantedSearchThreads (G ! k) \<le> dw_desired (input_working inp ! k) \<and> dw_desired (input_working inp ! k) < 2 ^ 31"
    if "k < length R" for k
    using list_all2_nthD [OF b, of k] input_working_entry(3,5) [OF assms(2), of k] that assms(3)
    by (simp add: row_request_def Let_def)
  show "map dg_dbOid G = map dr_dbOid R"
    by (rule nth_equalityI) (simp_all add: len at)
  fix k assume k: "k < length R"
  show "0 \<le> dg_grantedSearchThreads (G ! k) \<and> dg_grantedSearchThreads (G ! k) < 2 ^ 31"
    using at [OF k] by linarith
  assume "VamanaWorkerFindSlot h (dr_dbOid (R ! k)) = None"
  then have "dw_desired (input_working inp ! k) = 0"
    using k assms(3) by (simp add: input_working_def BuildDbWorkingSet_def ComputeEffectiveDesired_def row_request_def Let_def)
  then show "dg_grantedSearchThreads (G ! k) = 0" using at [OF k] by linarith
qed

lemma grant_target_row:
  assumes "distinct (map dr_dbOid R)" and "k < length R" and "dg_dbOid g = dr_dbOid (R ! k)"
  shows "grant_target (map (row_entry h) R) h' g = (case VamanaWorkerFindSlot h (dr_dbOid (R ! k)) of None \<Rightarrow> None
      | Some e \<Rightarrow> if ws_dbOid (hd_slots h' ! e) = ws_dbOid (hd_slots h ! e) \<and> ws_generation (hd_slots h' ! e) = ws_generation (hd_slots h ! e)
          then Some e else None)"
  using VamanaWorkerFindSlot_SomeD(2) [of h "dr_dbOid (R ! k)"]
  by (auto simp: grant_target_def assms(3) FindGathered_row [OF assms(1,2)] row_entry_def split: option.split)

text \<open>The grant found in the block of a database, after the grants \<open>G\<close> were written back.\<close>

lemma written_back:
  assumes dist: "distinct (map dr_dbOid R)" and dbs: "map dg_dbOid G = map dr_dbOid R" and k: "k < length R"
    and some: "VamanaWorkerFindSlot h (dr_dbOid (R ! k)) = Some e"
    and tenant: "ws_dbOid (hd_slots h' ! e) = ws_dbOid (hd_slots h ! e)" "ws_generation (hd_slots h' ! e) = ws_generation (hd_slots h ! e)"
    and len: "length (hd_slots h') = length (hd_slots h)"
  shows "ws_grantedSearchThreads (hd_slots (snd (fold (publish_search_grant (map (row_entry h) R)) G (l, h'))) ! e) =
     word_of_int (dg_grantedSearchThreads (G ! k))"
proof -
  have lenG: "length G = length R" using dbs by (metis length_map)
  have db: "dg_dbOid (G ! i) = dr_dbOid (R ! i)" if "i < length R" for i
    using arg_cong [OF dbs, of "\<lambda>xs. xs ! i"] that lenG by simp
  have e: "e < length (hd_slots h')" "ws_dbOid (hd_slots h ! e) = dr_dbOid (R ! k)"
    using VamanaWorkerFindSlot_SomeD [OF some] len by simp_all
  have "find (\<lambda>g. grant_target (map (row_entry h) R) h' g = Some e) G = Some (G ! k)"
  proof (rule find_the)
    show "grant_target (map (row_entry h) R) h' (G ! k) = Some e"
      by (simp add: grant_target_row [OF dist k db [OF k]] some tenant)
    fix i assume i: "i < length G" "grant_target (map (row_entry h) R) h' (G ! i) = Some e"
    then have "dr_dbOid (R ! i) = dr_dbOid (R ! k)"
      using grant_target_db [OF i(2)] db [of i] e(2) tenant(1) lenG by simp
    then show "i = k" using dist i(1) k lenG by (simp add: distinct_conv_nth) metis
  qed (simp add: lenG k)
  then show ?thesis
    using publish_searches [of G e h' "map (row_entry h) R" l] e(1) dist dbs by simp
qed

lemma not_written_back:
  assumes dist: "distinct (map dr_dbOid R)" and dbs: "map dg_dbOid G = map dr_dbOid R" and e: "e < length (hd_slots h')"
    and other: "\<not> (ws_dbOid (hd_slots h' ! e) = ws_dbOid (hd_slots h ! e) \<and> ws_generation (hd_slots h' ! e) = ws_generation (hd_slots h ! e))"
  shows "hd_slots (snd (fold (publish_search_grant (map (row_entry h) R)) G (l, h'))) ! e = hd_slots h' ! e"
proof -
  have "grant_target (map (row_entry h) R) h' g \<noteq> Some e" if "g \<in> set G" for g
  proof -
    have "dg_dbOid g \<in> set (map dr_dbOid R)" using that dbs [symmetric] by simp
    then obtain k where "k < length R" "dg_dbOid g = dr_dbOid (R ! k)" by (metis in_set_conv_nth length_map nth_map)
    then show ?thesis using other by (auto simp: grant_target_row [OF dist] split: option.split)
  qed
  then have "find (\<lambda>g. grant_target (map (row_entry h) R) h' g = Some e) G = None" by (simp add: find_None_iff)
  then show ?thesis using publish_searches [of G e h' "map (row_entry h) R" l] e dist dbs by simp
qed

text \<open>
  C10: what is published adds up.  A block that was handed to another tenant while the budget was computed keeps its
  grant.  If no block was, the search grants found in the blocks of the enabled databases and the build grants of the
  budget together are exactly the smaller of the search pool and the demand, so the launcher never
  publishes more threads than the pool has.
\<close>

theorem published_grants_add_up:
  assumes "pg_qsort qp" and "rows_ok rows" and "cpu_input_ok (cpu_input gucs env recovery rows h)"
    and "PublishCpuGrants qp gucs env recovery others rows h = (latches, woken, exceed, h')"
    and "h1 = snd (snd (snd (gather_requests env recovery rows h)))" and "length (hd_slots (others h1)) = length (hd_slots h1)"
    and "tenant = (\<lambda>h e. (ws_dbOid (hd_slots h ! e), ws_generation (hd_slots h ! e)))"
  shows "(\<forall>e < length (hd_slots h). tenant (others h1) e \<noteq> tenant h e \<longrightarrow>
      ws_grantedSearchThreads (hd_slots h' ! e) = ws_grantedSearchThreads (hd_slots (others h1) ! e)) \<and>
    ((\<forall>e < length (hd_slots h). tenant (others h1) e = tenant h e) \<longrightarrow>
      sum_list (map (\<lambda>db. case VamanaWorkerFindSlot h (dr_dbOid db) of None \<Rightarrow> 0
          | Some e \<Rightarrow> uint (ws_grantedSearchThreads (hd_slots h' ! e))) (EnabledRowsOf rows)) +
        sum_list (map bg_grantedThreads (buildGrants (SvsComputeCpuGrants qp (cpu_input gucs env recovery rows h)))) =
      min (ComputeSearchPool gucs) (total_demand (cpu_input gucs env recovery rows h)))"
proof -
  let ?R = "EnabledRowsOf rows" let ?inp = "cpu_input gucs env recovery rows h"
  let ?G = "dbGrants (SvsComputeCpuGrants qp ?inp)"
  obtain builds h1' l where inp: "?inp = \<lparr>in_gucs = gucs, in_dbs = map (row_request env recovery h) ?R, in_builds = builds\<rparr>"
    and g: "gather_requests env recovery rows h = (map (row_request env recovery h) ?R, map (row_entry h) ?R, builds, h1')"
    and b: "same_blocks h h1'"
    and p: "same_blocks (snd (fold (publish_search_grant (map (row_entry h) ?R)) ?G (l, others h1'))) h'"
    using PublishCpuGrants_steps [OF assms(4)] by blast
  have h1': "h1' = h1" using assms(5) g by simp
  note b = b [unfolded h1'] and p = p [unfolded h1']
  have len: "length (hd_slots (others h1)) = length (hd_slots h)" using assms(6) same_blocks_length [OF b] by simp
  have dist: "distinct (map dr_dbOid ?R)"
    using assms(2) by (auto simp: rows_ok_def EnabledRowsOf_def distinct_map inj_on_def)
  note rg = row_grants [OF assms(1,3), of env recovery h ?R, unfolded inp, simplified, folded inp]
  have after: "ws_grantedSearchThreads (hd_slots h' ! e) =
      ws_grantedSearchThreads (hd_slots (snd (fold (publish_search_grant (map (row_entry h) ?R)) ?G (l, others h1))) ! e)"
    if "e < length (hd_slots h)" for e
    by (rule same_blocksD(3) [OF p]) (simp add: that publish_search_length len)
  have kept: "ws_grantedSearchThreads (hd_slots h' ! e) = ws_grantedSearchThreads (hd_slots (others h1) ! e)"
    if "e < length (hd_slots h)" "tenant (others h1) e \<noteq> tenant h e" for e
    using not_written_back [OF dist rg(1), of e "others h1" h l] that after [OF that(1)] len by (simp add: assms(7))
  let ?f = "\<lambda>db. case VamanaWorkerFindSlot h (dr_dbOid db) of None \<Rightarrow> 0 | Some e \<Rightarrow> uint (ws_grantedSearchThreads (hd_slots h' ! e))"
  have "?f (?R ! k) = dg_grantedSearchThreads (?G ! k)"
    if k: "k < length ?R" and same: "\<forall>e < length (hd_slots h). tenant (others h1) e = tenant h e" for k
  proof (cases "VamanaWorkerFindSlot h (dr_dbOid (?R ! k))")
    case (Some e)
    have e: "e < length (hd_slots h)" by (rule VamanaWorkerFindSlot_SomeD(1) [OF Some])
    have "ws_grantedSearchThreads (hd_slots h' ! e) = word_of_int (dg_grantedSearchThreads (?G ! k))"
      using written_back [OF dist rg(1) k Some, of "others h1" l] same e len after [OF e] by (simp add: assms(7))
    then show ?thesis using Some rg(2) [OF k] by (simp add: uint_word_of_int_eq take_bit_eq_mod)
  qed (simp add: rg(3) [OF k])
  moreover have "length ?G = length ?R" using rg(1) by (metis length_map)
  ultimately have sum: "map ?f ?R = map dg_grantedSearchThreads ?G" if "\<forall>e < length (hd_slots h). tenant (others h1) e = tenant h e"
    using that by (intro nth_equalityI) simp_all
  show ?thesis using kept sum grants_total [OF assms(1,3)] inp by simp
qed

section \<open>Example\<close>

definition demo_env :: PgEnv where
  "demo_env = \<lparr>MyProcPid = 1, GetCurrentTimestamp = 5000, BackendPidGetProc = (\<lambda>p. if p = 50 then Some 3 else None),
     beentry_start_timestamp = (\<lambda>_. None)\<rparr>"

definition demo_rows :: "VamanaDatabaseRow list" where
  "demo_rows = [\<lparr>dr_dbOid = 7, dr_datname = ''db'', dr_restart_generation = 1, dr_enabled = True,
     dr_cpu = \<lparr>cc_searchNumThreads = 5, cc_searchThreadsReserved = 2, cc_maintenanceNumThreads = -1\<rparr>,
     dr_memory = \<lparr>mc_residencyMemoryMbOverride = 0, mc_searchWorkMemMbOverride = 0\<rparr>\<rparr>]"

definition demo_live :: VamanaWorkerShmemHeader where
  "demo_live = put_entry demo_blocks 0 ((hd_slots demo_blocks ! 0)\<lparr>ws_workerPid := 50, ws_heartbeat_ts := 4000, ws_indexCount := 1\<rparr>)"

abbreviation demo_gucs :: SvsCpuGucs where
  "demo_gucs \<equiv> in_gucs demo_input"

lemma demo_publish:
  "rows_ok demo_rows" "VamanaWorkerFindSlot demo_live 7 = Some 0"
  "gather_requests demo_env False demo_rows demo_live =
     ([\<lparr>rq_dbOid = 7, rq_live = True, rq_hasIndexes = True, rq_searchNumThreads = 5, rq_searchThreadsReserved = 2\<rparr>],
      [\<lparr>ga_dbOid = 7, ga_entry = Some 0, ga_generation = 1\<rparr>], [], demo_live)"
  by code_simp+

lemma demo_cpu_input: "cpu_input demo_gucs demo_env False demo_rows demo_live = \<lparr>in_gucs = demo_gucs,
     in_dbs = [\<lparr>rq_dbOid = 7, rq_live = True, rq_hasIndexes = True, rq_searchNumThreads = 5, rq_searchThreadsReserved = 2\<rparr>],
     in_builds = []\<rparr>"
  by (simp add: cpu_input_def demo_publish)

lemma demo_cpu_input_ok: "cpu_input_ok (cpu_input demo_gucs demo_env False demo_rows demo_live)"
  unfolding demo_cpu_input by (simp add: cpu_input_ok_def demo_input_def)

lemma demo_demand: "total_demand (cpu_input demo_gucs demo_env False demo_rows demo_live) = 5"
  unfolding demo_cpu_input by (simp add: total_demand_def input_working_def BuildDbWorkingSet_def ComputeEffectiveDesired_def
      SvsAtLeastOneThread_def SvsSearchThreadsPerDbCeiling_def ResolveOrFallback_def demo_input_def)

theorem published_grants_add_up_witness:
  "uint (ws_grantedSearchThreads (hd_slots (snd (snd (snd
     (PublishCpuGrants insertion_qp demo_gucs demo_env False id demo_rows demo_live)))) ! 0)) = 5"
proof -
  obtain l w x h' where run: "PublishCpuGrants insertion_qp demo_gucs demo_env False id demo_rows demo_live = (l, w, x, h')"
    by (metis prod.collapse)
  have rows: "EnabledRowsOf demo_rows = demo_rows" by (simp add: EnabledRowsOf_def demo_rows_def)
  have "buildGrants (SvsComputeCpuGrants insertion_qp (cpu_input demo_gucs demo_env False demo_rows demo_live)) = []"
    using grants_bounds [OF insertion_sort.pg_qsort_axioms demo_cpu_input_ok, THEN conjunct2] by (simp add: demo_cpu_input)
  then show ?thesis
    using published_grants_add_up [OF insertion_sort.pg_qsort_axioms demo_publish(1) demo_cpu_input_ok run refl _ refl, THEN conjunct2]
    by (simp add: run rows demo_publish demo_demand demo_pool) (simp add: demo_rows_def demo_publish)
qed

end
