(* ===== verification/Shmem_Slots.thy ===== *)
theory Shmem_Slots
  imports Worker_Shmem
begin

text \<open>
  The array of control blocks as a directory of databases: reservation, release and recycling of
  blocks, and the memory accounting across them.
\<close>

section \<open>The directory invariant\<close>

definition reserved_dbs :: "VamanaWorkerShmemHeader \<Rightarrow> oid list" where
  "reserved_dbs h = filter OidIsValid (map ws_dbOid (hd_slots h))"

definition slots_ok :: "VamanaWorkerShmemHeader \<Rightarrow> bool" where
  "slots_ok h \<longleftrightarrow> distinct (reserved_dbs h) \<and> hd_numActive h = int (length (reserved_dbs h))"

lemma FindSlot_None_iff: "VamanaWorkerFindSlot h d = None \<longleftrightarrow> d \<notin> ws_dbOid ` set (hd_slots h)"
  by (auto simp: VamanaWorkerFindSlot_def find_index_None_iff)

lemma distinct_reserved_nth:
  assumes "distinct (reserved_dbs h)" and "i < length (hd_slots h)" and "j < length (hd_slots h)"
    and "ws_dbOid (hd_slots h ! i) = ws_dbOid (hd_slots h ! j)" and "OidIsValid (ws_dbOid (hd_slots h ! i))"
  shows "i = j"
proof -
  have "xs ! i = xs ! j \<Longrightarrow> OidIsValid (xs ! i) \<Longrightarrow> i < length xs \<Longrightarrow> j < length xs \<Longrightarrow>
      distinct (filter OidIsValid xs) \<Longrightarrow> i = j" for xs :: "oid list"
  proof (induction xs arbitrary: i j)
    case (Cons x xs)
    show ?case
    proof (cases i; cases j)
      fix i' j' assume "i = Suc i'" "j = Suc j'"
      with Cons show ?thesis by (auto split: if_splits)
    qed (use Cons.prems in \<open>auto split: if_splits simp: nth_mem\<close>)
  qed simp
  from this [of "map ws_dbOid (hd_slots h)"] assms show ?thesis
    by (simp add: reserved_dbs_def)
qed

lemma FindSlot_eq_iff:
  assumes "slots_ok h" and "OidIsValid d"
  shows "VamanaWorkerFindSlot h d = Some e \<longleftrightarrow> e < length (hd_slots h) \<and> ws_dbOid (hd_slots h ! e) = d"
proof
  assume "VamanaWorkerFindSlot h d = Some e"
  then show "e < length (hd_slots h) \<and> ws_dbOid (hd_slots h ! e) = d"
    using VamanaWorkerFindSlot_SomeD by blast
next
  assume r: "e < length (hd_slots h) \<and> ws_dbOid (hd_slots h ! e) = d"
  then obtain e' where e': "VamanaWorkerFindSlot h d = Some e'"
    using FindSlot_None_iff [of h d] nth_mem by (cases "VamanaWorkerFindSlot h d") force+
  with distinct_reserved_nth [of h e e'] VamanaWorkerFindSlot_SomeD [OF e'] r assms
  show "VamanaWorkerFindSlot h d = Some e" by (simp add: slots_ok_def)
qed

lemma length_filter_update:
  assumes "i < length xs"
  shows "int (length (filter P (xs[i := v]))) =
    int (length (filter P xs)) - (if P (xs ! i) then 1 else 0) + (if P v then 1 else 0)"
proof -
  have "int (length (filter P ys)) = sum_list (map (\<lambda>x. if P x then 1 else 0) ys)" for ys
    by (induction ys) auto
  then show ?thesis by (simp add: sum_list_map_update_int [OF assms])
qed

lemma slots_ok_put:
  assumes "slots_ok h" and e: "e < length (hd_slots h)"
    and "hd_slots h' = (hd_slots h)[e := entry']"
    and "hd_numActive h' = hd_numActive h - (if OidIsValid (ws_dbOid (hd_slots h ! e)) then 1 else 0)
      + (if OidIsValid (ws_dbOid entry') then 1 else 0)"
    and "ws_dbOid entry' = InvalidOid \<or> ws_dbOid entry' = ws_dbOid (hd_slots h ! e) \<or>
      ws_dbOid entry' \<notin> ws_dbOid ` set (hd_slots h)"
  shows "slots_ok h'"
proof -
  have "distinct (reserved_dbs h')"
    unfolding reserved_dbs_def assms(3)
  proof (rule distinct_filter_update)
    show "\<not> OidIsValid (ws_dbOid entry') \<or> ws_dbOid entry' = ws_dbOid (hd_slots h ! e) \<or>
      (\<forall>x \<in> set (hd_slots h). ws_dbOid x \<noteq> ws_dbOid entry')"
      using assms(5) by (metis imageI)
  qed (use assms in \<open>auto simp: slots_ok_def reserved_dbs_def\<close>)
  moreover have "hd_numActive h' = int (length (reserved_dbs h'))"
    using assms(1,3,4) e length_filter_update [of e "map ws_dbOid (hd_slots h)" OidIsValid "ws_dbOid entry'"]
    by (simp add: slots_ok_def reserved_dbs_def map_update)
  ultimately show ?thesis by (simp add: slots_ok_def)
qed

section \<open>Reset\<close>

lemma Reset_fields:
  assumes "VamanaWorkerResetEntryState (entry, h) = (entry', h')"
  shows "ws_dbOid entry' = ws_dbOid entry" and "ws_generation entry' = ws_generation entry"
    and "hd_slots h' = hd_slots h" and "hd_numActive h' = hd_numActive h"
  using assms by (auto simp: VamanaWorkerResetEntryState_def SvsMemoryResetDatabaseAccounting_def)

lemma Reset_mem_acct:
  assumes "mem_acct K B h" and "e < length (hd_slots h)"
    and "VamanaWorkerResetEntryState ((hd_slots h ! e)\<lparr>ws_dbOid := d, ws_generation := gen, ws_slots := ss\<rparr>, h) = (entry', h')"
  shows "mem_acct (K(e := 0)) (B(e := 0)) (put_entry h' e entry')"
  using assms(3) unfolding VamanaWorkerResetEntryState_def
  by (intro ResetDatabaseAccounting_acct [OF assms(1,2)]) simp_all

text \<open>The baseline a released block is left with, for the next database that reserves it.\<close>

definition tenant_baseline :: "VamanaWorkerShmem \<Rightarrow> bool" where
  "tenant_baseline entry \<longleftrightarrow>
     ws_workerPid entry = 0 \<and> \<not> ws_accepting entry \<and> \<not> ws_evict_all entry \<and> \<not> ws_stopRequested entry \<and>
     ws_dbEnabled entry \<and> ws_heartbeat_ts entry = 0 \<and> ws_servicedRestartGeneration entry = 0 \<and>
     ws_indexCount entry = 0 \<and> ws_desiredSearchThreads entry = 0 \<and> ws_grantedSearchThreads entry = 0 \<and>
     ws_reservedSearchThreads entry = 0 \<and> ws_registeredSearchSlots entry = 0 \<and>
     ws_backoff entry = \<lparr>last_attempt_time = 0, consecutive_failures = 0\<rparr> \<and>
     list_all (\<lambda>r. r = 0) (ws_reloadRequests entry) \<and> list_all (\<lambda>r. r = 0) (ws_pendingSlotDrops entry) \<and>
     list_all (\<lambda>r. r = 0) (ws_indexLocks entry) \<and>
     list_all (\<lambda>q. q = zero_build_request) (ws_buildRequests entry) \<and>
     list_all (\<lambda>s. sl_status s = VAMANA_SLOT_EMPTY) (ws_slots entry) \<and>
     ws_residencyBudget entry = 0 \<and> ws_residencyBytesCommitted entry = 0 \<and>
     ws_buildBytesCommitted entry = 0 \<and> ws_searchScratchBytesInFlight entry = 0 \<and>
     list_all (\<lambda>r. mr_relid r = InvalidOid) (ws_reservations entry) \<and>
     list_all (\<lambda>r. ir_relid r = InvalidOid) (ws_insertReservations entry) \<and>
     ws_residencyMemoryMbOverride entry = 0 \<and> ws_searchWorkMemMbOverride entry = 0"

lemma Reset_baseline:
  assumes "VamanaWorkerResetEntryState (entry, h) = (entry', h')"
  shows "tenant_baseline entry'"
  using assms
  by (auto simp: VamanaWorkerResetEntryState_def SvsMemoryResetDatabaseAccounting_def tenant_baseline_def
      list_all_length)

section \<open>Reservation and release\<close>

lemma ReserveSlot_cases:
  obtains (existing) e where "VamanaWorkerFindSlot h d = Some e"
      "VamanaWorkerReserveSlot d h = ((Some e, False), h)"
    | (full) "VamanaWorkerFindSlot h d = None" "VamanaWorkerFindSlot h InvalidOid = None"
      "VamanaWorkerReserveSlot d h = ((None, False), h)"
    | (created) e where "VamanaWorkerFindSlot h d = None" "VamanaWorkerFindSlot h InvalidOid = Some e"
      "VamanaWorkerReserveSlot d h = ((Some e, True),
         put_entry (h\<lparr>hd_numActive := hd_numActive h + 1\<rparr>) e
           ((hd_slots h ! e)\<lparr>ws_dbOid := d, ws_generation := ws_generation (hd_slots h ! e) + 1\<rparr>))"
  by (cases "VamanaWorkerFindSlot h d"; cases "VamanaWorkerFindSlot h InvalidOid")
    (auto simp: VamanaWorkerReserveSlot_def Let_def)

lemma ReleaseSlot_cases:
  obtains (absent) "VamanaWorkerFindSlot h d = None" "VamanaWorkerReleaseSlot d h = h"
    | (released) e entry' h' where "VamanaWorkerFindSlot h d = Some e"
      "VamanaWorkerResetEntryState ((hd_slots h ! e)\<lparr>ws_dbOid := InvalidOid,
         ws_generation := ws_generation (hd_slots h ! e) + 1\<rparr>, h) = (entry', h')"
      "VamanaWorkerReleaseSlot d h = put_entry (h'\<lparr>hd_numActive := hd_numActive h' - 1\<rparr>) e entry'"
proof (cases "VamanaWorkerFindSlot h d")
  case (Some e)
  obtain entry' h' where "VamanaWorkerResetEntryState ((hd_slots h ! e)\<lparr>ws_dbOid := InvalidOid,
         ws_generation := ws_generation (hd_slots h ! e) + 1\<rparr>, h) = (entry', h')" by force
  with Some released show ?thesis by (simp add: VamanaWorkerReleaseSlot_def Let_def)
qed (use absent in \<open>simp add: VamanaWorkerReleaseSlot_def\<close>)

lemma ReserveSlot_slots_ok:
  assumes "slots_ok h" and "OidIsValid d"
  shows "slots_ok (snd (VamanaWorkerReserveSlot d h))"
proof (cases rule: ReserveSlot_cases [of h d])
  case (created e)
  note e = VamanaWorkerFindSlot_SomeD [OF created(2)]
  show ?thesis
    unfolding created(3) snd_conv
    by (rule slots_ok_put [OF assms(1) e(1)]) (use assms e created(1) in \<open>auto simp: FindSlot_None_iff\<close>)
qed (use assms in auto)

lemma ReleaseSlot_slots_ok:
  assumes "slots_ok h" and "OidIsValid d"
  shows "slots_ok (VamanaWorkerReleaseSlot d h)"
proof (cases rule: ReleaseSlot_cases [of h d])
  case (released e entry' h')
  note e = VamanaWorkerFindSlot_SomeD [OF released(1)]
  note r = Reset_fields [OF released(2)]
  show ?thesis
    unfolding released(3) by (rule slots_ok_put [OF assms(1) e(1), where entry' = entry'])
      (use assms e r in auto)
qed (use assms in auto)

lemma mem_acct_cong:
  assumes "mem_acct K B h" and "hd_slots h' = hd_slots h"
    and "hd_totalBuildCommittedGlobal h' = hd_totalBuildCommittedGlobal h"
    and "hd_totalResidencyCommittedGlobal h' = hd_totalResidencyCommittedGlobal h"
  shows "mem_acct K B h'"
  using assms by (simp add: mem_acct_def rollups_ok_def)

lemma ReserveSlot_mem_acct:
  assumes "mem_acct K B h"
  shows "mem_acct K B (snd (VamanaWorkerReserveSlot d h))"
proof (cases rule: ReserveSlot_cases [of h d])
  case (created e)
  note e = VamanaWorkerFindSlot_SomeD(1) [OF created(2)]
  show ?thesis
    unfolding created(3) snd_conv
    by (rule mem_acct_put_entry [OF assms e])
      (use entry_acct_cong [OF mem_acct_entry [OF assms e]] in simp_all)
qed (use assms in auto)

lemma ReleaseSlot_mem_acct:
  assumes "mem_acct K B h"
  shows "\<exists>e. mem_acct (K(e := 0)) (B(e := 0)) (VamanaWorkerReleaseSlot d h) \<or>
    mem_acct K B (VamanaWorkerReleaseSlot d h)"
proof (cases rule: ReleaseSlot_cases [of h d])
  case (released e entry' h')
  note e = VamanaWorkerFindSlot_SomeD(1) [OF released(1)]
  have "mem_acct (K(e := 0)) (B(e := 0)) (put_entry h' e entry')"
    by (rule Reset_mem_acct [OF assms e, where ss = "ws_slots (hd_slots h ! e)"]) (use released(2) in simp)
  then have "mem_acct (K(e := 0)) (B(e := 0)) (VamanaWorkerReleaseSlot d h)"
    unfolding released(3) by (rule mem_acct_cong) simp_all
  then show ?thesis by blast
qed (use assms in auto)

section \<open>The directory contract\<close>

text \<open>A sequence of reservations (\<open>True\<close>) and releases (\<open>False\<close>).\<close>

fun dir_run ::
    "(oid \<Rightarrow> 'h \<Rightarrow> 'r \<times> 'h) \<Rightarrow> (oid \<Rightarrow> 'h \<Rightarrow> 'h) \<Rightarrow> (bool \<times> oid) list \<Rightarrow> 'h \<Rightarrow> 'h" where
  "dir_run reserve release [] h = h"
| "dir_run reserve release ((b, d) # ops) h =
     dir_run reserve release ops (if b then snd (reserve d h) else release d h)"

text \<open>What the users of the control blocks rely on.\<close>

locale slot_directory =
  fixes dir_ok :: "'h \<Rightarrow> bool"
    and lookup :: "'h \<Rightarrow> oid \<Rightarrow> nat option"
    and reserve :: "oid \<Rightarrow> 'h \<Rightarrow> (nat option \<times> bool) \<times> 'h"
    and release :: "oid \<Rightarrow> 'h \<Rightarrow> 'h"
  assumes reserve_ok: "\<lbrakk>dir_ok h; OidIsValid d\<rbrakk> \<Longrightarrow> dir_ok (snd (reserve d h))"
    and release_ok: "\<lbrakk>dir_ok h; OidIsValid d\<rbrakk> \<Longrightarrow> dir_ok (release d h)"
    and reserve_lookup: "\<lbrakk>dir_ok h; OidIsValid d\<rbrakk> \<Longrightarrow> lookup (snd (reserve d h)) d = fst (fst (reserve d h))"
    and reserve_other: "\<lbrakk>dir_ok h; OidIsValid d; OidIsValid d'; d' \<noteq> d\<rbrakk> \<Longrightarrow>
      lookup (snd (reserve d h)) d' = lookup h d'"
    and reserve_created: "\<lbrakk>dir_ok h; OidIsValid d; snd (fst (reserve d h))\<rbrakk> \<Longrightarrow> lookup h d = None"
    and release_lookup: "\<lbrakk>dir_ok h; OidIsValid d\<rbrakk> \<Longrightarrow> lookup (release d h) d = None"
    and release_other: "\<lbrakk>dir_ok h; OidIsValid d; OidIsValid d'; d' \<noteq> d\<rbrakk> \<Longrightarrow>
      lookup (release d h) d' = lookup h d'"
    and exclusive: "\<lbrakk>dir_ok h; OidIsValid d; OidIsValid d'; lookup h d = Some e; lookup h d' = Some e\<rbrakk> \<Longrightarrow> d = d'"
begin

lemma dir_run_ok:
  assumes "dir_ok h" and "\<forall>(b, d) \<in> set ops. OidIsValid d"
  shows "dir_ok (dir_run reserve release ops h)"
  using assms by (induction ops arbitrary: h) (auto simp: reserve_ok release_ok)

lemma dir_run_untouched:
  assumes "dir_ok h" and "\<forall>(b, d) \<in> set ops. OidIsValid d \<and> d \<noteq> d'" and "OidIsValid d'"
  shows "lookup (dir_run reserve release ops h) d' = lookup h d'"
  using assms
  by (induction ops arbitrary: h) (auto simp: reserve_ok release_ok reserve_other release_other)

lemma dir_run_release:
  assumes "dir_ok h" and "\<forall>(b, d) \<in> set ops. OidIsValid d \<and> d \<noteq> d'" and "OidIsValid d'"
  shows "lookup (dir_run reserve release ops (release d' h)) d' = None"
  using dir_run_untouched [OF release_ok [OF assms(1,3)] assms(2,3)] release_lookup [OF assms(1,3)] by simp

lemma dir_run_reserve:
  assumes "dir_ok h" and "\<forall>(b, d) \<in> set ops. OidIsValid d \<and> d \<noteq> d'" and "OidIsValid d'"
    and "fst (fst (reserve d' h)) = Some e"
  shows "lookup (dir_run reserve release ops (snd (reserve d' h))) d' = Some e"
  using dir_run_untouched [OF reserve_ok [OF assms(1,3)] assms(2,3)] reserve_lookup [OF assms(1,3)] assms(4)
  by simp

end

lemma LookupSlot_put:
  assumes "slots_ok h'" and "OidIsValid d'" and "hd_slots h' = (hd_slots h)[e := entry']"
    and "slots_ok h" and "ws_dbOid entry' \<noteq> d'" and "ws_dbOid (hd_slots h ! e) \<noteq> d'"
  shows "VamanaWorkerFindSlot h' d' = VamanaWorkerFindSlot h d'"
proof -
  have "VamanaWorkerFindSlot h' d' = Some i \<longleftrightarrow> VamanaWorkerFindSlot h d' = Some i" for i
    using assms by (cases "i = e") (auto simp: FindSlot_eq_iff)
  then show ?thesis by (metis not_None_eq)
qed

interpretation shmem_slots: slot_directory slots_ok VamanaWorkerLookupSlot VamanaWorkerReserveSlot
  VamanaWorkerReleaseSlot
proof
  fix h and d :: oid
  assume h: "slots_ok h" and d: "OidIsValid d"
  show res: "slots_ok (snd (VamanaWorkerReserveSlot d h))" by (rule ReserveSlot_slots_ok [OF h d])
  show rel: "slots_ok (VamanaWorkerReleaseSlot d h)" by (rule ReleaseSlot_slots_ok [OF h d])
  show "VamanaWorkerLookupSlot (snd (VamanaWorkerReserveSlot d h)) d = fst (fst (VamanaWorkerReserveSlot d h))"
  proof (cases rule: ReserveSlot_cases [of h d])
    case (created e)
    with res d VamanaWorkerFindSlot_SomeD [OF created(2)] show ?thesis
      by (simp add: VamanaWorkerLookupSlot_def FindSlot_eq_iff)
  qed (auto simp: VamanaWorkerLookupSlot_def)
  show "VamanaWorkerLookupSlot (VamanaWorkerReleaseSlot d h) d = None"
  proof (cases rule: ReleaseSlot_cases [of h d])
    case (released e entry' h')
    note e = VamanaWorkerFindSlot_SomeD [OF released(1)]
    have "\<not> (j < length (hd_slots h) \<and> ws_dbOid ((hd_slots h)[e := entry'] ! j) = d)" for j
      using distinct_reserved_nth [of h e j] h e d Reset_fields(1) [OF released(2)]
      by (auto simp: nth_list_update slots_ok_def)
    then have "\<not> VamanaWorkerFindSlot (VamanaWorkerReleaseSlot d h) d = Some j" for j
      using rel d Reset_fields(3) [OF released(2)] by (simp add: FindSlot_eq_iff released(3))
    then show ?thesis by (metis VamanaWorkerLookupSlot_def not_None_eq)
  qed (simp add: VamanaWorkerLookupSlot_def)
next
  fix h and d :: oid
  assume "snd (fst (VamanaWorkerReserveSlot d h))"
  then show "VamanaWorkerLookupSlot h d = None"
    by (cases rule: ReserveSlot_cases [of h d]) (auto simp: VamanaWorkerLookupSlot_def)
next
  fix h and d d' :: oid
  assume h: "slots_ok h" and d: "OidIsValid d" "OidIsValid d'" "d' \<noteq> d"
  show "VamanaWorkerLookupSlot (snd (VamanaWorkerReserveSlot d h)) d' = VamanaWorkerLookupSlot h d'"
  proof (cases rule: ReserveSlot_cases [of h d])
    case (created e)
    note e = VamanaWorkerFindSlot_SomeD [OF created(2)]
    show ?thesis
      unfolding VamanaWorkerLookupSlot_def
      by (rule LookupSlot_put [OF ReserveSlot_slots_ok [OF h d(1)] d(2) _ h])
        (use created e d in auto)
  qed auto
  show "VamanaWorkerLookupSlot (VamanaWorkerReleaseSlot d h) d' = VamanaWorkerLookupSlot h d'"
  proof (cases rule: ReleaseSlot_cases [of h d])
    case (released e entry' h')
    note e = VamanaWorkerFindSlot_SomeD [OF released(1)]
    show ?thesis
      unfolding VamanaWorkerLookupSlot_def
      by (rule LookupSlot_put [OF ReleaseSlot_slots_ok [OF h d(1)] d(2) _ h, where e = e and entry' = entry'])
        (use released e d Reset_fields [OF released(2)] in auto)
  qed auto
next
  fix h and d d' :: oid and e
  assume "VamanaWorkerLookupSlot h d = Some e" "VamanaWorkerLookupSlot h d' = Some e"
  then show "d = d'"
    using VamanaWorkerFindSlot_SomeD(2) unfolding VamanaWorkerLookupSlot_def by blast
qed

section \<open>Startup\<close>

lemma zero_entry_acct: "entry_acct 0 0 zero_entry"
  by (simp add: entry_acct_def zero_entry_def residency_held_def peaks_held_def list_all_length
      zero_reservation_def zero_insert_reservation_def sum_list_replicate)

lemma Startup_ok:
  "mem_exact (VamanaWorkerShmemStartup n maxBackends) \<and> slots_ok (VamanaWorkerShmemStartup n maxBackends) \<and>
   length (hd_slots (VamanaWorkerShmemStartup n maxBackends)) = n"
proof -
  define P where "P h \<longleftrightarrow> mem_acct (\<lambda>_. 0) (\<lambda>_. 0) h \<and> hd_numActive h = 0 \<and> length (hd_slots h) = n \<and>
    (\<forall>e < n. ws_dbOid (hd_slots h ! e) = InvalidOid)" for h
  define init where "init = (\<lambda>db h. let (entry, h') = VamanaWorkerInitSlot maxBackends (hd_slots h ! db, h)
    in put_entry h' db entry)"
  have step: "P (init db h)" if h: "P h" and db: "db < n" for db h
  proof -
    obtain entry' h' where r: "VamanaWorkerInitSlot maxBackends (hd_slots h ! db, h) = (entry', h')" by force
    then have r': "VamanaWorkerResetEntryState ((hd_slots h ! db)\<lparr>ws_dbOid := InvalidOid,
        ws_generation := ws_generation (hd_slots h ! db), ws_slots := replicate maxBackends zero_slot\<rparr>, h) =
        (entry', h')"
      by (simp add: VamanaWorkerInitSlot_def)
    have "mem_acct ((\<lambda>_. 0)(db := 0)) ((\<lambda>_. 0)(db := 0)) (put_entry h' db entry')"
      by (rule Reset_mem_acct [OF _ _ r']) (use h db in \<open>auto simp: P_def\<close>)
    with h db r Reset_fields [OF r'] show ?thesis
      by (auto simp: P_def init_def nth_list_update fun_upd_idem)
  qed
  have loop: "P (fold init xs h)" if "P h" "\<forall>db \<in> set xs. db < n" for xs h
    using that by (induction xs arbitrary: h) (simp_all add: step)
  have "P (VamanaWorkerShmemStartup n maxBackends)"
    unfolding VamanaWorkerShmemStartup_def init_def [symmetric]
    by (rule loop) (auto simp: P_def mem_acct_def rollups_ok_def zero_entry_acct sum_list_replicate
        zero_entry_def [THEN arg_cong, of ws_dbOid] zero_entry_def [THEN arg_cong, of ws_buildBytesCommitted]
        zero_entry_def [THEN arg_cong, of ws_residencyBudget])
  then have "P (VamanaWorkerShmemStartup n maxBackends)"
    "reserved_dbs (VamanaWorkerShmemStartup n maxBackends) = []"
    by (auto simp: P_def reserved_dbs_def filter_empty_conv in_set_conv_nth)
  then show ?thesis by (simp add: P_def mem_exact_acct slots_ok_def)
qed

section \<open>Recycling\<close>

lemma dir_step_generation:
  assumes "e < length (hd_slots h)"
    and "h' = snd (VamanaWorkerReserveSlot d h) \<or> h' = VamanaWorkerReleaseSlot d h"
  shows "length (hd_slots h') = length (hd_slots h)"
    and "ws_generation (hd_slots h' ! e) = ws_generation (hd_slots h ! e) \<and>
        ws_dbOid (hd_slots h' ! e) = ws_dbOid (hd_slots h ! e) \<or>
      ws_generation (hd_slots h' ! e) = ws_generation (hd_slots h ! e) + 1"
proof -
  consider (res) "h' = snd (VamanaWorkerReserveSlot d h)" | (rel) "h' = VamanaWorkerReleaseSlot d h"
    using assms(2) by blast
  then have "length (hd_slots h') = length (hd_slots h) \<and>
     (ws_generation (hd_slots h' ! e) = ws_generation (hd_slots h ! e) \<and>
        ws_dbOid (hd_slots h' ! e) = ws_dbOid (hd_slots h ! e) \<or>
      ws_generation (hd_slots h' ! e) = ws_generation (hd_slots h ! e) + 1)"
  proof cases
    case res
    then show ?thesis
    proof (cases rule: ReserveSlot_cases [of h d])
      case (created e')
      with res assms(1) show ?thesis by (cases "e = e'") auto
    qed auto
  next
    case rel
    then show ?thesis
    proof (cases rule: ReleaseSlot_cases [of h d])
      case (released e' entry' h'')
      with rel assms(1) Reset_fields [OF released(2)] show ?thesis by (cases "e = e'") auto
    qed simp
  qed
  then show "length (hd_slots h') = length (hd_slots h)"
    and "ws_generation (hd_slots h' ! e) = ws_generation (hd_slots h ! e) \<and>
        ws_dbOid (hd_slots h' ! e) = ws_dbOid (hd_slots h ! e) \<or>
      ws_generation (hd_slots h' ! e) = ws_generation (hd_slots h ! e) + 1"
    by auto
qed

text \<open>A generation that has advanced by fewer than \<open>2 ^ 32\<close> steps and is back is one that never moved.\<close>

lemma dir_run_generation:
  assumes "e < length (hd_slots h)"
  shows "\<exists>k \<le> length ops. ws_generation (hd_slots (dir_run VamanaWorkerReserveSlot VamanaWorkerReleaseSlot ops h) ! e) =
      ws_generation (hd_slots h ! e) + of_nat k \<and>
    (k = 0 \<longrightarrow> ws_dbOid (hd_slots (dir_run VamanaWorkerReserveSlot VamanaWorkerReleaseSlot ops h) ! e) =
       ws_dbOid (hd_slots h ! e))"
  using assms
proof (induction ops arbitrary: h)
  case (Cons op ops)
  obtain b d where op: "op = (b, d)" by force
  define h1 where "h1 = (if b then snd (VamanaWorkerReserveSlot d h) else VamanaWorkerReleaseSlot d h)"
  have h1: "h1 = snd (VamanaWorkerReserveSlot d h) \<or> h1 = VamanaWorkerReleaseSlot d h"
    by (simp add: h1_def)
  note gen = dir_step_generation [OF Cons.prems h1]
  obtain k where k: "k \<le> length ops"
    "ws_generation (hd_slots (dir_run VamanaWorkerReserveSlot VamanaWorkerReleaseSlot ops h1) ! e) =
      ws_generation (hd_slots h1 ! e) + of_nat k"
    "k = 0 \<longrightarrow> ws_dbOid (hd_slots (dir_run VamanaWorkerReserveSlot VamanaWorkerReleaseSlot ops h1) ! e) =
      ws_dbOid (hd_slots h1 ! e)"
    using Cons.IH [of h1] gen(1) Cons.prems by auto
  have run: "dir_run VamanaWorkerReserveSlot VamanaWorkerReleaseSlot (op # ops) h =
      dir_run VamanaWorkerReserveSlot VamanaWorkerReleaseSlot ops h1"
    by (simp add: op h1_def)
  from gen(2) show ?case
  proof
    assume "ws_generation (hd_slots h1 ! e) = ws_generation (hd_slots h ! e) \<and>
        ws_dbOid (hd_slots h1 ! e) = ws_dbOid (hd_slots h ! e)"
    with k show ?thesis unfolding run by (intro exI [of _ k]) auto
  next
    assume "ws_generation (hd_slots h1 ! e) = ws_generation (hd_slots h ! e) + 1"
    with k show ?thesis unfolding run by (intro exI [of _ "Suc k"]) auto
  qed
qed (auto intro!: exI [of _ 0])

text \<open>
  C20: the array of control blocks is a directory of databases. From the state at startup on,
  whatever other databases reserve and release: a database that was given a block keeps exactly
  that block until it releases it, a database that released its block has none until it reserves
  again, and two databases never share a block.
\<close>

theorem shmem_slot_directory:
  assumes "slots_ok h" and "\<forall>(b, d) \<in> set ops. OidIsValid d \<and> d \<noteq> dbOid" and "OidIsValid dbOid"
    and "run = dir_run VamanaWorkerReserveSlot VamanaWorkerReleaseSlot"
  shows "VamanaWorkerLookupSlot (run ops (VamanaWorkerReleaseSlot dbOid h)) dbOid = None \<and>
    (\<forall>e. fst (fst (VamanaWorkerReserveSlot dbOid h)) = Some e \<longrightarrow>
       VamanaWorkerLookupSlot (run ops (snd (VamanaWorkerReserveSlot dbOid h))) dbOid = Some e \<and>
       (\<forall>d. OidIsValid d \<and> VamanaWorkerLookupSlot (run ops (snd (VamanaWorkerReserveSlot dbOid h))) d = Some e
          \<longrightarrow> d = dbOid))"
proof -
  have valid: "\<forall>(b, d) \<in> set ops. OidIsValid d" using assms(2) by auto
  have ok: "slots_ok (run ops (snd (VamanaWorkerReserveSlot dbOid h)))"
    unfolding assms(4) by (rule shmem_slots.dir_run_ok [OF shmem_slots.reserve_ok [OF assms(1,3)] valid])
  have kept: "VamanaWorkerLookupSlot (run ops (snd (VamanaWorkerReserveSlot dbOid h))) dbOid = Some e"
    if "fst (fst (VamanaWorkerReserveSlot dbOid h)) = Some e" for e
    unfolding assms(4) by (rule shmem_slots.dir_run_reserve [OF assms(1-3) that])
  show ?thesis
    using shmem_slots.dir_run_release [OF assms(1-3)] kept
      shmem_slots.exclusive [OF ok] assms(3,4) by blast
qed

lemma startup_dir:
  "slots_ok (VamanaWorkerShmemStartup 2 4)" "length (hd_slots (VamanaWorkerShmemStartup 2 4)) = 2"
  "mem_exact (VamanaWorkerShmemStartup 2 4)"
  using Startup_ok [of 2 4] by simp_all

theorem shmem_slot_directory_witness:
  "VamanaWorkerLookupSlot (VamanaWorkerReleaseSlot 7 (VamanaWorkerShmemStartup 2 4)) 7 = None"
  using shmem_slot_directory [OF startup_dir(1), of "[]" 7, OF _ _ refl] by simp



text \<open>
  No tenant inherits another's state. Releasing a database's block leaves it with every
  counter, grant, queue, lock, reservation, override and backoff figure at its baseline, with no
  database, and with the accounting of all the other blocks still exact.
\<close>

theorem shmem_release_resets:
  assumes "mem_exact h" and "VamanaWorkerFindSlot h dbOid = Some e"
  shows "tenant_baseline (hd_slots (VamanaWorkerReleaseSlot dbOid h) ! e) \<and>
    ws_dbOid (hd_slots (VamanaWorkerReleaseSlot dbOid h) ! e) = InvalidOid \<and>
    mem_exact (VamanaWorkerReleaseSlot dbOid h)"
proof -
  note e = VamanaWorkerFindSlot_SomeD(1) [OF assms(2)]
  obtain entry' h' where rel: "VamanaWorkerResetEntryState ((hd_slots h ! e)\<lparr>ws_dbOid := InvalidOid,
         ws_generation := ws_generation (hd_slots h ! e) + 1\<rparr>, h) = (entry', h')"
      "VamanaWorkerReleaseSlot dbOid h = put_entry (h'\<lparr>hd_numActive := hd_numActive h' - 1\<rparr>) e entry'"
    using assms(2) by (cases rule: ReleaseSlot_cases [of h dbOid]) auto
  have "mem_exact (VamanaWorkerReleaseSlot dbOid h)"
    using ReleaseSlot_mem_acct [OF assms(1) [unfolded mem_exact_acct], of dbOid]
    by (auto simp: mem_exact_acct fun_upd_idem)
  with e show ?thesis
    using Reset_baseline [OF rel(1)] Reset_fields [OF rel(1)] by (simp add: rel(2))
qed

theorem shmem_release_resets_witness:
  "tenant_baseline (hd_slots (VamanaWorkerReleaseSlot 7
     (snd (VamanaWorkerReserveSlot 7 (VamanaWorkerShmemStartup 2 4)))) ! 0)"
proof -
  let ?h = "snd (VamanaWorkerReserveSlot 7 (VamanaWorkerShmemStartup 2 4))"
  have "mem_exact ?h"
    using ReserveSlot_mem_acct [OF startup_dir(3) [unfolded mem_exact_acct]] by (simp add: mem_exact_acct)
  moreover have "VamanaWorkerFindSlot ?h 7 = Some 0" by code_simp
  ultimately show ?thesis using shmem_release_resets by blast
qed

end
