(* ===== verification/Shmem_Queues.thy ===== *)
theory Shmem_Queues
  imports Shmem_Slots
begin

text \<open>
  The per-database queues and tables of \<open>vamanaworkershmem.c\<close>: index-count deltas at commit, the
  slot-drop queue, the index-lock table, the error codec and the layout of the slot region.
\<close>

section \<open>Index-count deltas\<close>

definition index_count :: "VamanaWorkerShmemHeader \<Rightarrow> oid \<Rightarrow> u32 option" where
  "index_count h d = map_option (\<lambda>e. ws_indexCount (hd_slots h ! e)) (VamanaWorkerFindSlot h d)"

text \<open>The sum of the live deltas queued for a database from a position on.\<close>

definition live_delta :: "oid \<Rightarrow> (oid \<times> int) \<times> subxid \<Rightarrow> int" where
  "live_delta d x = (if fst (fst x) = d \<and> snd x \<noteq> InvalidSubTransactionId then snd (fst x) else 0)"

definition queued_delta :: "oid \<Rightarrow> (PendingIndexCountDelta \<times> subxid) list \<Rightarrow> int" where
  "queued_delta d es = sum_list (map (live_delta d) es)"

lemma find_index_update_same:
  assumes "P y = P (xs ! e)" and "e < length xs"
  shows "find_index P (xs[e := y]) = find_index P xs"
  using assms by (induction xs arbitrary: e) (auto split: nat.splits)

lemma FindSlot_put_same_db:
  assumes "ws_dbOid entry' = ws_dbOid (hd_slots h ! e)"
  shows "VamanaWorkerFindSlot (put_entry h e entry') d = VamanaWorkerFindSlot h d"
  using assms find_index_update_same [of "\<lambda>entry. ws_dbOid entry = d" entry' "hd_slots h" e]
  by (cases "e < length (hd_slots h)") (simp_all add: VamanaWorkerFindSlot_def list_update_beyond)

lemma ApplyIndexCountDelta_count:
  assumes "ApplyIndexCountDelta d delta h = (k, h')" and "slots_ok h" and "OidIsValid d" and "OidIsValid d'"
  shows "index_count h' d' =
    (if d' = d then map_option (\<lambda>c. c + word_of_int delta) (index_count h d) else index_count h d')"
    and "slots_ok h'"
proof -
  have "index_count h' d' = (if d' = d then map_option (\<lambda>c. c + word_of_int delta) (index_count h d)
      else index_count h d') \<and> slots_ok h'"
  proof (cases "delta = 0")
    case True
    with assms show ?thesis by (auto simp: ApplyIndexCountDelta_def option.map_id0 [unfolded id_def])
  next
    case False
    show ?thesis
    proof (cases "VamanaWorkerFindSlot h d")
      case None
      with assms False show ?thesis
        by (auto simp: ApplyIndexCountDelta_def VamanaWorkerWithEntry_def index_count_def)
    next
      case (Some e)
      note e = VamanaWorkerFindSlot_SomeD [OF Some]
      let ?entry = "(hd_slots h ! e)\<lparr>ws_indexCount := ws_indexCount (hd_slots h ! e) + word_of_int delta\<rparr>"
      have h': "h' = put_entry h e ?entry"
        using assms(1) False Some
        by (auto simp: ApplyIndexCountDelta_def VamanaWorkerWithEntry_def ApplyIndexCountDeltaCb_def Let_def
            split: if_splits)
      have find: "VamanaWorkerFindSlot h' d'' = VamanaWorkerFindSlot h d''" for d''
        unfolding h' by (rule FindSlot_put_same_db) simp
      have "slots_ok h'"
        unfolding h' by (rule slots_ok_put [OF assms(2) e(1), where entry' = ?entry]) auto
      moreover have "index_count h' d' = (if d' = d then map_option (\<lambda>c. c + word_of_int delta) (index_count h d)
          else index_count h d')"
      proof (cases "d' = d")
        case True
        with Some e show ?thesis by (simp add: index_count_def find) (simp add: h')
      next
        case ne: False
        have "hd_slots h' ! i = hd_slots h ! i" if "VamanaWorkerFindSlot h d' = Some i" for i
          using VamanaWorkerFindSlot_SomeD(2) [OF that] e ne by (cases "i = e") (auto simp: h')
        with ne show ?thesis
          by (cases "VamanaWorkerFindSlot h d'") (simp_all add: index_count_def find)
      qed
      ultimately show ?thesis by simp
    qed
  qed
  then show "index_count h' d' = (if d' = d then map_option (\<lambda>c. c + word_of_int delta) (index_count h d)
      else index_count h d')" and "slots_ok h'" by auto
qed

text \<open>The inner loop takes exactly the live deltas of its database out of the queue.\<close>

lemma FoldIndexCountDeltas_spec:
  assumes "FoldIndexCountDeltas d js (net, es) = (net', es')" and "OidIsValid d" and "distinct js"
    and "\<forall>j \<in> set js. j < length es"
  shows "length es' = length es \<and>
    net' = net + sum_list (map (\<lambda>j. live_delta d (es ! j)) js) \<and>
    (\<forall>j < length es. \<forall>d'. OidIsValid d' \<longrightarrow>
       live_delta d' (es' ! j) = (if d' = d \<and> j \<in> set js then 0 else live_delta d' (es ! j)))"
  using assms
proof (induction js arbitrary: net es)
  case (Cons j js)
  define x where "x = es ! j"
  define es1 where "es1 = (if fst (fst x) \<noteq> d \<or> snd x = InvalidSubTransactionId then es
    else es[j := ((InvalidOid, snd (fst x)), snd x)])"
  have run: "FoldIndexCountDeltas d js (net + live_delta d x, es1) = (net', es')"
    using Cons.prems(1)
    by (auto simp: FoldIndexCountDeltas_def x_def [symmetric] es1_def live_delta_def case_prod_unfold
        split: if_splits)
  have j: "j < length es" using Cons.prems(4) by simp
  have len: "length es1 = length es" by (simp add: es1_def)
  have one: "live_delta d' (es1 ! i) = (if d' = d \<and> i = j then 0 else live_delta d' (es ! i))"
    if "i < length es" "OidIsValid d'" for i d'
    using that j by (auto simp: es1_def x_def live_delta_def nth_list_update)
  have "map (\<lambda>j. live_delta d (es1 ! j)) js = map (\<lambda>j. live_delta d (es ! j)) js"
    using Cons.prems one by (intro map_cong) auto
  with Cons.IH [OF run Cons.prems(2)] Cons.prems(3,4) one show ?case
    by (auto simp: len x_def)
qed (simp add: FoldIndexCountDeltas_def)

text \<open>The outer loop: what is still queued plus what is already applied does not change.\<close>

definition ApplyIndexCountStep ::
    "nat \<Rightarrow> nat \<Rightarrow> (PendingIndexCountDelta \<times> subxid) list \<times> bool \<times> VamanaWorkerShmemHeader
     \<Rightarrow> (PendingIndexCountDelta \<times> subxid) list \<times> bool \<times> VamanaWorkerShmemHeader" where
  "ApplyIndexCountStep n i = (\<lambda>(es, kicked, h).
     let ((db, delta), s) = es ! i in
     if db = InvalidOid \<or> s = InvalidSubTransactionId then (es, kicked, h)
     else
       let (net, es') = FoldIndexCountDeltas db [i..<n] (0, es);
           (k, h') = ApplyIndexCountDelta db net h
       in (es', kicked \<or> k, h'))"

definition owed :: "oid \<Rightarrow> nat \<Rightarrow> (PendingIndexCountDelta \<times> subxid) list \<Rightarrow> int" where
  "owed d i es = sum_list (map (\<lambda>j. live_delta d (es ! j)) [i..<length es])"

lemma ApplyIndexCountStep_spec:
  assumes step: "ApplyIndexCountStep n i (es, kicked, h) = (es', kicked', h')"
    and i: "i < n" and n: "n = length es" and h: "slots_ok h" and d: "OidIsValid d"
  shows "slots_ok h' \<and> length es' = n \<and>
    (\<exists>x. index_count h' d = map_option (\<lambda>c. c + word_of_int x) (index_count h d) \<and>
         owed d i es = x + owed d (Suc i) es')"
proof (cases "fst (fst (es ! i)) = InvalidOid \<or> snd (es ! i) = InvalidSubTransactionId")
  case True
  then have "(es', kicked', h') = (es, kicked, h)"
    using step by (auto simp: ApplyIndexCountStep_def case_prod_unfold Let_def split: if_splits)
  moreover have "live_delta d (es ! i) = 0" using True d by (auto simp: live_delta_def)
  ultimately show ?thesis
    using h i n by (auto intro!: exI [of _ 0] simp: owed_def upt_conv_Cons option.map_id0 [unfolded id_def])
next
  case False
  let ?db = "fst (fst (es ! i))"
  obtain net es1 where f: "FoldIndexCountDeltas ?db [i..<n] (0, es) = (net, es1)" by force
  obtain k h1 where a: "ApplyIndexCountDelta ?db net h = (k, h1)" by force
  have r: "es' = es1" "h' = h1"
    using step False f a by (auto simp: ApplyIndexCountStep_def case_prod_unfold Let_def split: if_splits)
  have F: "length es1 = length es" "net = owed ?db i es"
    "\<And>j. j < length es \<Longrightarrow>
       live_delta d (es1 ! j) = (if d = ?db \<and> j \<in> set [i..<n] then 0 else live_delta d (es ! j))"
    using FoldIndexCountDeltas_spec [OF f] False i n d by (auto simp: owed_def)
  note C = ApplyIndexCountDelta_count [OF a h _ d]
  show ?thesis
  proof (cases "d = ?db")
    case True
    have "owed d (Suc i) es1 = 0"
      unfolding owed_def by (rule sum_list_all_zero) (use F True n in auto)
    with C F True False r n show ?thesis by (intro conjI exI [of _ net]) auto
  next
    case ne: False
    have same: "map (\<lambda>j. live_delta d (es1 ! j)) [Suc i..<n] = map (\<lambda>j. live_delta d (es ! j)) [Suc i..<n]"
      using F(3) ne n by (intro map_cong) auto
    have "live_delta d (es ! i) = 0" using ne by (simp add: live_delta_def)
    then have "owed d i es = sum_list (map (\<lambda>j. live_delta d (es ! j)) [Suc i..<n])"
      using i n by (simp add: owed_def upt_conv_Cons)
    then have "owed d i es = owed d (Suc i) es1"
      unfolding owed_def F(1) n [symmetric] same .
    with C ne False r F(1) n show ?thesis
      by (intro conjI exI [of _ 0]) (auto simp: option.map_id0 [unfolded id_def])
  qed
qed

lemma ApplyIndexCountSteps_spec:
  assumes "fold (ApplyIndexCountStep n) [i..<n] (es, kicked, h) = (es', kicked', h')"
    and "i \<le> n" and "n = length es" and "slots_ok h" and "OidIsValid d"
  shows "slots_ok h' \<and> index_count h' d = map_option (\<lambda>c. c + word_of_int (owed d i es)) (index_count h d)"
  using assms
proof (induction "n - i" arbitrary: i es kicked h)
  case 0
  then show ?case by (simp add: owed_def option.map_id0 [unfolded id_def])
next
  case (Suc m)
  then have i: "i < n" by simp
  obtain es1 k1 h1 where one: "ApplyIndexCountStep n i (es, kicked, h) = (es1, k1, h1)" by (metis prod_cases3)
  obtain x where x: "slots_ok h1" "length es1 = n"
    "index_count h1 d = map_option (\<lambda>c. c + word_of_int x) (index_count h d)"
    "owed d i es = x + owed d (Suc i) es1"
    using ApplyIndexCountStep_spec [OF one i Suc.prems(3-5)] by blast
  have rest: "fold (ApplyIndexCountStep n) [Suc i..<n] (es1, k1, h1) = (es', kicked', h')"
    using Suc.prems(1) one i by (simp add: upt_conv_Cons)
  have "slots_ok h' \<and> index_count h' d = map_option (\<lambda>c. c + word_of_int (owed d (Suc i) es1)) (index_count h1 d)"
    by (rule Suc.hyps(1) [OF _ rest]) (use Suc i x in auto)
  with x show ?case
    by (simp add: option.map_comp comp_def add.assoc)
qed

lemma ApplyPending_eq:
  "ApplyPendingIndexCountDeltas (Some array) h =
    (let (es, kicked, h') = fold (ApplyIndexCountStep (length (pa_entries array)))
       [0..<length (pa_entries array)] (pa_entries array, False, h) in (kicked, h'))"
  by (simp add: ApplyPendingIndexCountDeltas_def ApplyIndexCountStep_def [abs_def] Let_def)

text \<open>
  C26: the live-index counter follows committed catalog truth. At commit every database's counter
  moves by the sum of the deltas its transaction still has live (those of rolled back savepoints
  excluded), whatever order and however many databases they belong to; at abort no counter moves;
  a transaction with live deltas cannot be prepared.
\<close>

theorem index_count_commit:
  assumes "slots_ok h" and "OidIsValid dbOid"
    and "VamanaIndexCountXactCallback XACT_EVENT_COMMIT (Some array, h) = Inr (cur, h')"
  shows "index_count h' dbOid =
      map_option (\<lambda>c. c + word_of_int (queued_delta dbOid (pa_entries array))) (index_count h dbOid) \<and>
    VamanaIndexCountXactCallback XACT_EVENT_ABORT (Some array, h) = Inr (None, h) \<and>
    (VamanaSubxidPendingArrayHasLiveEntries array \<longrightarrow>
       VamanaIndexCountXactCallback XACT_EVENT_PRE_PREPARE (Some array, h) = Inl ERRCODE_FEATURE_NOT_SUPPORTED)"
proof -
  obtain es k h1 where f: "fold (ApplyIndexCountStep (length (pa_entries array))) [0..<length (pa_entries array)]
      (pa_entries array, False, h) = (es, k, h1)" by (metis prod_cases3)
  have "h' = h1"
    using assms(3) f by (auto simp: VamanaIndexCountXactCallback_def ApplyPending_eq)
  moreover have "owed dbOid 0 (pa_entries array) = queued_delta dbOid (pa_entries array)"
    by (simp add: owed_def queued_delta_def map_upt_nth)
  ultimately show ?thesis
    using ApplyIndexCountSteps_spec [OF f _ _ assms(1,2)] by (simp add: VamanaIndexCountXactCallback_def)
qed

definition demo_deltas :: IndexCountDeltas where
  "demo_deltas = \<lparr>pa_entries = [((7, 1), 1), ((8, 1), 1), ((7, 1), 0), ((7, 1), 1)], pa_capacity = 16\<rparr>"

theorem index_count_commit_witness:
  "index_count (snd (ApplyPendingIndexCountDeltas (Some demo_deltas)
     (snd (VamanaWorkerReserveSlot 7 (VamanaWorkerShmemStartup 2 4))))) 7 = Some 2"
proof -
  let ?h = "snd (VamanaWorkerReserveSlot 7 (VamanaWorkerShmemStartup 2 4))"
  have ok: "slots_ok ?h" by (rule ReserveSlot_slots_ok [OF startup_dir(1)]) simp
  have "index_count ?h 7 = Some 0" by code_simp
  with index_count_commit [OF ok, of 7 demo_deltas] show ?thesis
    by (simp add: VamanaIndexCountXactCallback_def queued_delta_def live_delta_def demo_deltas_def)
qed

section \<open>The slot-drop queue\<close>

definition queued_drops :: "VamanaWorkerShmemHeader \<Rightarrow> oid \<Rightarrow> oid multiset" where
  "queued_drops h d =
     (case VamanaWorkerFindSlot h d of
        None \<Rightarrow> {#}
      | Some e \<Rightarrow> mset (filter OidIsValid (ws_pendingSlotDrops (hd_slots h ! e))))"

lemma mset_filter_update:
  assumes "i < length xs"
  shows "mset (filter P (xs[i := v])) + (if P (xs ! i) then {#xs ! i#} else {#}) =
    mset (filter P xs) + (if P v then {#v#} else {#})"
  using assms
proof (induction xs arbitrary: i)
  case (Cons x xs)
  then show ?case using Cons.IH [of "i - 1"] by (cases i) (auto split: if_splits)
qed simp

lemma take_slot_drops_spec:
  assumes "take_slot_drops rs cap = (taken, left)"
  shows "taken = take cap (filter OidIsValid rs) \<and> filter OidIsValid left = drop cap (filter OidIsValid rs) \<and>
    length left = length rs"
  using assms
proof (induction rs arbitrary: cap taken left)
  case (Cons r rs)
  show ?case
  proof (cases "cap = 0")
    case False
    show ?thesis
    proof (cases "r = 0")
      case True
      obtain t l where "take_slot_drops rs cap = (t, l)" by force
      with Cons.IH [OF this] Cons.prems True False show ?thesis by auto
    next
      case nz: False
      obtain t l where tl: "take_slot_drops rs (cap - 1) = (t, l)" by force
      obtain c where "cap = Suc c" using False by (cases cap) auto
      with Cons.IH [OF tl] tl Cons.prems nz show ?thesis by auto
    qed
  qed (use Cons.prems in auto)
qed simp

text \<open>
  No orphaned replication slot is forgotten. A drop request is queued exactly once or
  refused, and refused only for a database without a block or with a full queue; taking the queue
  (before the block is released) returns every queued request and leaves none behind.
\<close>

theorem slot_drop_queue:
  assumes "slots_ok h" and "VamanaWorkerFindSlot h dbOid = Some e" and "OidIsValid relid"
    and "length (ws_pendingSlotDrops (hd_slots h ! e)) \<le> cap"
  shows "queued_drops (snd (VamanaWorkerRequestSlotDrop dbOid relid h)) dbOid =
      queued_drops h dbOid + (if fst (VamanaWorkerRequestSlotDrop dbOid relid h) then {#relid#} else {#}) \<and>
    (fst (VamanaWorkerRequestSlotDrop dbOid relid h) \<longleftrightarrow>
       size (queued_drops h dbOid) < length (ws_pendingSlotDrops (hd_slots h ! e))) \<and>
    mset (fst (VamanaWorkerTakePendingSlotDrops dbOid cap h)) = queued_drops h dbOid \<and>
    queued_drops (snd (VamanaWorkerTakePendingSlotDrops dbOid cap h)) dbOid = {#}"
proof -
  note e = VamanaWorkerFindSlot_SomeD [OF assms(2)]
  let ?q = "ws_pendingSlotDrops (hd_slots h ! e)"
  have put: "queued_drops (put_entry h e ((hd_slots h ! e)\<lparr>ws_pendingSlotDrops := q\<rparr>)) dbOid =
      mset (filter OidIsValid q)" for q
    using assms(2) e FindSlot_put_same_db [of "(hd_slots h ! e)\<lparr>ws_pendingSlotDrops := q\<rparr>" h e dbOid]
    by (simp add: queued_drops_def)
  have now: "queued_drops h dbOid = mset (filter OidIsValid ?q)"
    using assms(2) by (simp add: queued_drops_def)
  obtain taken left where t: "take_slot_drops ?q cap = (taken, left)" by force
  have "taken = filter OidIsValid ?q" "filter OidIsValid left = []"
    using take_slot_drops_spec [OF t] assms(4) by (auto simp: le_trans [OF length_filter_le])
  then have take: "mset (fst (VamanaWorkerTakePendingSlotDrops dbOid cap h)) = queued_drops h dbOid \<and>
      queued_drops (snd (VamanaWorkerTakePendingSlotDrops dbOid cap h)) dbOid = {#}"
    using assms(2) t by (simp add: VamanaWorkerTakePendingSlotDrops_def Let_def put now)
  show ?thesis
  proof (cases "find_index (\<lambda>r. r = 0) ?q")
    case None
    then have "filter OidIsValid ?q = ?q"
      by (simp add: find_index_None_iff filter_id_conv)
    with None assms(2) take now show ?thesis
      by (simp add: VamanaWorkerRequestSlotDrop_def VamanaWorkerWithEntry_def RequestSlotDropCb_def)
  next
    case (Some i)
    note i = find_index_SomeD [OF Some]
    have "length (filter OidIsValid ?q) < length ?q"
      using i(2) nth_mem [OF i(1)] by (intro length_filter_less [of "?q ! i"]) auto
    then have "size (queued_drops h dbOid) < length ?q" unfolding now size_mset .
    moreover have "mset (filter OidIsValid (?q[i := relid])) = mset (filter OidIsValid ?q) + {#relid#}"
      using mset_filter_update [OF i(1), of OidIsValid relid] i(2) assms(3) by simp
    ultimately show ?thesis
      using Some assms(2) take now
      by (simp add: VamanaWorkerRequestSlotDrop_def VamanaWorkerWithEntry_def RequestSlotDropCb_def put)
  qed
qed

theorem slot_drop_queue_witness:
  "queued_drops (snd (VamanaWorkerRequestSlotDrop 7 99
     (snd (VamanaWorkerReserveSlot 7 (VamanaWorkerShmemStartup 2 4))))) 7 = {#99#}"
proof -
  let ?h = "snd (VamanaWorkerReserveSlot 7 (VamanaWorkerShmemStartup 2 4))"
  have ok: "slots_ok ?h" by (rule ReserveSlot_slots_ok [OF startup_dir(1)]) simp
  have f: "VamanaWorkerFindSlot ?h 7 = Some 0" by code_simp
  have q: "ws_pendingSlotDrops (hd_slots ?h ! 0) = replicate 16 0" by code_simp
  have "queued_drops ?h 7 = {#}" using f q by (simp add: queued_drops_def)
  with slot_drop_queue [OF ok f, of 99 16] q show ?thesis by (simp split: if_splits)
qed

section \<open>Index locks\<close>

definition locks_ok :: "VamanaWorkerShmem \<Rightarrow> bool" where
  "locks_ok entry \<longleftrightarrow> distinct (filter OidIsValid (ws_indexLocks entry))"

lemma distinct_filter_nth:
  assumes "distinct (filter P xs)" and "i < length xs" and "j < length xs" and "xs ! i = xs ! j" and "P (xs ! i)"
  shows "i = j"
  using assms
proof (induction xs arbitrary: i j)
  case (Cons x xs)
  show ?case
  proof (cases i; cases j)
    fix i' j' assume "i = Suc i'" "j = Suc j'"
    with Cons show ?thesis by (auto split: if_splits)
  qed (use Cons.prems in \<open>auto split: if_splits simp: nth_mem\<close>)
qed simp

lemma lock_table_unique:
  assumes "distinct (filter OidIsValid t)" and "i < length t" and "t ! i = relid" and "OidIsValid relid"
  shows "\<forall>j < length t. t ! j = relid \<longrightarrow> j = i" and "find_index (\<lambda>r. r = relid) t = Some i"
    and "relid \<notin> set (t[i := 0])"
proof -
  show u: "\<forall>j < length t. t ! j = relid \<longrightarrow> j = i"
  proof (intro allI impI)
    fix j assume "j < length t" "t ! j = relid"
    with distinct_filter_nth [OF assms(1), of j i] assms show "j = i" by simp
  qed
  obtain j where j: "find_index (\<lambda>r. r = relid) t = Some j"
    using find_index_ex [of i t "\<lambda>r. r = relid"] assms(2,3) by blast
  have "j = i" using u find_index_SomeD(1,2) [OF j] by blast
  with j show "find_index (\<lambda>r. r = relid) t = Some i" by simp
  show "relid \<notin> set (t[i := 0])"
  proof
    assume "relid \<in> set (t[i := 0])"
    then obtain k where "k < length t" "t[i := 0] ! k = relid" by (auto simp: in_set_conv_nth)
    moreover have "k = i" if "t ! k = relid" using u that \<open>k < length t\<close> by blast
    ultimately show False using assms(2,4) by (cases "k = i") simp_all
  qed
qed

lemma lock_held:
  assumes "locks_ok entry" and "OidIsValid relid"
    and "i < length (ws_indexLocks entry)" and "ws_indexLocks entry ! i = relid"
  shows "VamanaGetIndexLock entry relid = (Some i, entry)"
    and "\<forall>j < length (ws_indexLocks entry). ws_indexLocks entry ! j = relid \<longrightarrow> j = i"
    and "relid \<notin> set (ws_indexLocks (VamanaReleaseIndexLock entry relid))"
proof -
  note u = lock_table_unique [OF assms(1) [unfolded locks_ok_def] assms(3,4,2)]
  show "VamanaGetIndexLock entry relid = (Some i, entry)"
    using u(2) by (simp add: VamanaGetIndexLock_def VamanaGetIndexLock_pass_def)
  show "relid \<notin> set (ws_indexLocks (VamanaReleaseIndexLock entry relid))"
    using u(2,3) by (simp add: VamanaReleaseIndexLock_def)
qed (rule lock_table_unique [OF assms(1) [unfolded locks_ok_def] assms(3,4,2)])


section \<open>Error codes across the slot\<close>

text \<open>
  PostgreSQL's SQLSTATE encoding (\<open>MAKE_SQLSTATE\<close>, \<open>ERRCODE_TO_CATEGORY\<close>): five characters of six
  bits each, the class in the first two.  What the codec relies on is that the five codes it uses
  belong to different classes.
\<close>

locale sqlstate_classes =
  fixes pe :: PgErrcodes
  assumes classes: "distinct (map (sql_TO_CATEGORY pe)
    [sql_OUT_OF_MEMORY pe, sql_FEATURE_NOT_SUPPORTED pe, sql_DATA_EXCEPTION pe, sql_IO_ERROR pe, sql_INTERNAL_ERROR pe])"
begin

lemma codes_differ:
  "sql_OUT_OF_MEMORY pe \<noteq> sql_FEATURE_NOT_SUPPORTED pe" "sql_OUT_OF_MEMORY pe \<noteq> sql_DATA_EXCEPTION pe"
  "sql_OUT_OF_MEMORY pe \<noteq> sql_IO_ERROR pe" "sql_OUT_OF_MEMORY pe \<noteq> sql_INTERNAL_ERROR pe"
  "sql_FEATURE_NOT_SUPPORTED pe \<noteq> sql_DATA_EXCEPTION pe" "sql_FEATURE_NOT_SUPPORTED pe \<noteq> sql_IO_ERROR pe"
  "sql_FEATURE_NOT_SUPPORTED pe \<noteq> sql_INTERNAL_ERROR pe"
  using classes by auto

lemma decode_encode:
  "category \<noteq> VAMANA_ERR_NONE \<Longrightarrow> VamanaCategorizeSQLState pe (VamanaSlotErrcode pe category) = category"
  using classes codes_differ codes_differ [symmetric]
  by (cases category) (auto simp: VamanaCategorizeSQLState_def VamanaSlotErrcode_def)

lemma encode_decode_class:
  "VamanaCategorizeSQLState pe code \<noteq> VAMANA_ERR_INTERNAL \<Longrightarrow>
   sql_TO_CATEGORY pe (VamanaSlotErrcode pe (VamanaCategorizeSQLState pe code)) = sql_TO_CATEGORY pe code"
  by (auto simp: VamanaCategorizeSQLState_def VamanaSlotErrcode_def split: if_splits)

lemma categorize_never_none: "VamanaCategorizeSQLState pe code \<noteq> VAMANA_ERR_NONE"
  by (simp add: VamanaCategorizeSQLState_def)

end

definition MAKE_SQLSTATE :: "string \<Rightarrow> int" where
  "MAKE_SQLSTATE s = foldr (\<lambda>ch acc. (of_char ch - 48) mod 64 + 64 * acc) s 0"

definition pg_errcodes :: PgErrcodes where
  "pg_errcodes = \<lparr>sql_OUT_OF_MEMORY = MAKE_SQLSTATE ''53200'', sql_FEATURE_NOT_SUPPORTED = MAKE_SQLSTATE ''0A000'',
     sql_DATA_EXCEPTION = MAKE_SQLSTATE ''22000'', sql_IO_ERROR = MAKE_SQLSTATE ''58030'',
     sql_INTERNAL_ERROR = MAKE_SQLSTATE ''XX000'', sql_TO_CATEGORY = (\<lambda>ec. ec mod 2 ^ 12)\<rparr>"

interpretation pg_sqlstates: sqlstate_classes pg_errcodes
  by unfold_locales code_simp

text \<open>
  The error category survives the trip through the slot. With the SQLSTATE classes of the
  server, the code a backend raises for a category is categorised as that category again; the
  code raised for an error the worker recognised is in the class of the original error; and a
  failed slot never carries the category of no error.
\<close>

theorem slot_error_codec:
  "(\<forall>category. category \<noteq> VAMANA_ERR_NONE \<longrightarrow>
      VamanaCategorizeSQLState pg_errcodes (VamanaSlotErrcode pg_errcodes category) = category) \<and>
   (\<forall>code. VamanaCategorizeSQLState pg_errcodes code \<noteq> VAMANA_ERR_INTERNAL \<longrightarrow>
      sql_TO_CATEGORY pg_errcodes (VamanaSlotErrcode pg_errcodes (VamanaCategorizeSQLState pg_errcodes code)) =
      sql_TO_CATEGORY pg_errcodes code) \<and>
   (\<forall>code message slot.
      sl_errorCategory (VamanaWorkerFailSlot message (VamanaCategorizeSQLState pg_errcodes code) slot) \<noteq> VAMANA_ERR_NONE)"
  by (simp add: pg_sqlstates.decode_encode pg_sqlstates.encode_decode_class pg_sqlstates.categorize_never_none
      VamanaWorkerFailSlot_def)

theorem slot_error_codec_witness:
  "VamanaSlotErrcode pg_errcodes VAMANA_ERR_IO = MAKE_SQLSTATE ''58030'' \<and>
   VamanaCategorizeSQLState pg_errcodes (MAKE_SQLSTATE ''58030'') = VAMANA_ERR_IO \<and>
   VamanaCategorizeSQLState pg_errcodes (MAKE_SQLSTATE ''22023'') = VAMANA_ERR_DATA"
proof -
  have "VamanaSlotErrcode pg_errcodes VAMANA_ERR_IO = MAKE_SQLSTATE ''58030''" by code_simp
  moreover from this have "VamanaCategorizeSQLState pg_errcodes (MAKE_SQLSTATE ''58030'') = VAMANA_ERR_IO"
    using slot_error_codec by (metis VamanaErrCategory.distinct(5))
  moreover have "VamanaCategorizeSQLState pg_errcodes (MAKE_SQLSTATE ''22023'') = VAMANA_ERR_DATA" by code_simp
  ultimately show ?thesis by blast
qed

section \<open>Layout of a database's slot region\<close>

text \<open>The three buffers of a slot, as an offset and a length in bytes.\<close>

datatype slot_buffer = QueryVecBuffer | ResultsBuffer | DistancesBuffer

fun buffer_range :: "nat \<Rightarrow> nat \<Rightarrow> slot_buffer \<Rightarrow> nat \<Rightarrow> nat \<times> nat" where
  "buffer_range slotSize maxSlots QueryVecBuffer i =
     (VamanaWorkerSlotQueryVec slotSize maxSlots i, VAMANA_MAX_DIM * sizeof_float)"
| "buffer_range slotSize maxSlots ResultsBuffer i =
     (VamanaWorkerSlotResults slotSize maxSlots i, VAMANA_MAX_SEARCH_WINDOW * sizeof_ItemPointerData)"
| "buffer_range slotSize maxSlots DistancesBuffer i =
     (VamanaWorkerSlotDistances slotSize maxSlots i, VAMANA_MAX_SEARCH_WINDOW * sizeof_float)"

lemmas layout_defs = VamanaWorkerSlotQueryVec_def VamanaWorkerSlotResults_def VamanaWorkerSlotDistances_def
  VamanaWorkerVarDataOffset_def VamanaWorkerSlotRegionSize_def VAMANA_MAX_DIM_def VAMANA_MAX_SEARCH_WINDOW_def
  sizeof_float_def sizeof_ItemPointerData_def

text \<open>
  Backends never write over each other's search buffers. Every buffer of every slot lies
  behind the slot array and inside the region that was allocated, and two different buffers
  (other slot or other kind) do not overlap.
\<close>

theorem slot_region_layout:
  assumes "i < MaxBackends" and "j < MaxBackends" and "(kind, i) \<noteq> (kind', j)"
    and "buffer_range slotSize MaxBackends kind i = (off, len)"
    and "buffer_range slotSize MaxBackends kind' j = (off', len')"
  shows "MaxBackends * slotSize \<le> off \<and> off + len \<le> VamanaWorkerSlotRegionSize slotSize MaxBackends \<and>
    (off + len \<le> off' \<or> off' + len' \<le> off)"
  using assms by (cases kind; cases kind') (auto simp: layout_defs)

theorem slot_region_layout_witness:
  "buffer_range 900 100 ResultsBuffer 3 = (1070000, 60000) \<and> buffer_range 900 100 DistancesBuffer 0 = (6890000, 40000) \<and>
   1070000 + 60000 \<le> VamanaWorkerSlotRegionSize 900 100"
proof -
  have r: "buffer_range 900 100 ResultsBuffer 3 = (1070000, 60000)"
    and d: "buffer_range 900 100 DistancesBuffer 0 = (6890000, 40000)"
    by (simp_all add: layout_defs)
  with slot_region_layout [of 3 100 0 ResultsBuffer DistancesBuffer 900] show ?thesis by simp
qed

end
