(* ===== verification/Launcher_Workers.thy ===== *)
theory Launcher_Workers
  imports Launcher_Cpu Shmem_Queues
begin

text \<open>
  The launcher's worker ledger (\<open>vamanalauncher.c\<close>): crash backoff, the restart state machine, spawning,
  and the passes that settle stopped workers, stop disabled ones and drive restarts.
\<close>

section \<open>Backoff\<close>

definition VAMANA_LAUNCHER_NAPTIME_MS :: int where "VAMANA_LAUNCHER_NAPTIME_MS = 180000"
definition VAMANA_RESTART_BACKOFF_CEILING_MS :: int where "VAMANA_RESTART_BACKOFF_CEILING_MS = 60000"
definition VAMANA_BACKOFF_DWELL_RESET_MS :: int where "VAMANA_BACKOFF_DWELL_RESET_MS = 10000"
definition VAMANA_BACKOFF_MAX_SHIFT :: u32 where "VAMANA_BACKOFF_MAX_SHIFT = 20"
definition VAMANA_LAUNCHER_MIN_NAPTIME_MS :: int where "VAMANA_LAUNCHER_MIN_NAPTIME_MS = 1000"
definition VAMANA_ORPHAN_SLOT_GRACE_MS :: int where "VAMANA_ORPHAN_SLOT_GRACE_MS = 5000"

text \<open>\<open>long\<close> has 64 bits; the shifted value is reduced to that width.\<close>

definition BackoffThresholdMs :: "int \<Rightarrow> u32 \<Rightarrow> int" where
  "BackoffThresholdMs vamana_worker_restart_backoff consecutiveFailures =
     (let shift = min consecutiveFailures VAMANA_BACKOFF_MAX_SHIFT;
          threshold = sint (push_bit (unat shift) (word_of_int vamana_worker_restart_backoff :: 64 word))
      in min threshold VAMANA_RESTART_BACKOFF_CEILING_MS)"

text \<open>PostgreSQL's comparisons of timestamps: the milliseconds between two, and whether that is at least a bound.\<close>

record pg_clock =
  TimestampDifferenceMilliseconds :: "timestamp \<Rightarrow> timestamp \<Rightarrow> int"
  TimestampDifferenceExceeds :: "timestamp \<Rightarrow> timestamp \<Rightarrow> int \<Rightarrow> bool"

definition BackoffRemainingMs :: "pg_clock \<Rightarrow> int \<Rightarrow> VamanaLauncherBackoff \<Rightarrow> timestamp \<Rightarrow> int" where
  "BackoffRemainingMs clk vamana_worker_restart_backoff backoff now =
     (if last_attempt_time backoff = 0 then 0
      else let elapsed = TimestampDifferenceMilliseconds clk (last_attempt_time backoff) now
           in BackoffThresholdMs vamana_worker_restart_backoff (consecutive_failures backoff) - elapsed)"

section \<open>Ledger and restart state\<close>

datatype VamanaRestartAction = RESTART_NOOP | RESTART_TERMINATE | RESTART_WAIT | RESTART_WAIT_TIMEOUT | RESTART_RESPAWN

datatype VamanaStopReason = STOP_CRASH | STOP_DISABLED | STOP_REMOVED | STOP_RESTART_DRAIN

datatype BgwHandleStatus = BGWH_STARTED | BGWH_NOT_YET_STARTED | BGWH_STOPPED | BGWH_POSTMASTER_DIED

type_synonym handle = nat

record VamanaRestartState =
  rs_restarting :: bool
  rs_serviced_generation :: int
  rs_target_generation :: int
  rs_wait_started :: timestamp

record VamanaLauncherWorker =
  lw_dbOid :: oid
  lw_handle :: handle
  lw_started_time :: timestamp
  lw_restart_state :: VamanaRestartState

definition FindLedgerEntry :: "VamanaLauncherWorker list \<Rightarrow> oid \<Rightarrow> VamanaLauncherWorker option" where
  "FindLedgerEntry ledger dbOid = find (\<lambda>w. lw_dbOid w = dbOid) ledger"

definition ClassifyWorkerStop :: "VamanaDatabaseRow list \<Rightarrow> VamanaLauncherWorker \<Rightarrow> VamanaStopReason" where
  "ClassifyWorkerStop rows w =
     (case FindDatabaseRow rows (lw_dbOid w) of
        None \<Rightarrow> STOP_REMOVED
      | Some db \<Rightarrow>
          if \<not> dr_enabled db then STOP_DISABLED
          else if rs_restarting (lw_restart_state w) then STOP_RESTART_DRAIN
          else STOP_CRASH)"

definition VamanaRestartStateAdvance ::
    "pg_clock \<Rightarrow> int \<Rightarrow> VamanaRestartState \<Rightarrow> int \<Rightarrow> BgwHandleStatus \<Rightarrow> timestamp \<Rightarrow> VamanaRestartAction \<times> VamanaRestartState" where
  "VamanaRestartStateAdvance clk vamana_worker_stop_timeout_ms state current_generation handle_status now =
     (if \<not> rs_restarting state \<and> rs_serviced_generation state = current_generation then (RESTART_NOOP, state)
      else if \<not> rs_restarting state \<and> rs_serviced_generation state \<noteq> current_generation then
        (RESTART_TERMINATE, state\<lparr>rs_restarting := True, rs_target_generation := current_generation, rs_wait_started := 0\<rparr>)
      else if rs_restarting state \<and> handle_status \<noteq> BGWH_STOPPED then
        (let state = (if rs_wait_started state = 0 then state\<lparr>rs_wait_started := now\<rparr> else state)
         in if TimestampDifferenceExceeds clk (rs_wait_started state) now vamana_worker_stop_timeout_ms
            then (RESTART_WAIT_TIMEOUT, state) else (RESTART_WAIT, state))
      else if rs_restarting state \<and> handle_status = BGWH_STOPPED then (RESTART_RESPAWN, state)
      else (RESTART_NOOP, state))"

section \<open>The launcher's state and surroundings\<close>

record VamanaOrphanCandidate =
  oc_dbOid :: oid
  oc_firstSeenOrphaned :: timestamp

text \<open>What a cycle does to its surroundings, in order.\<close>

datatype launcher_event =
    Terminate_worker handle | Register_worker oid handle | Drop_slot oid oid | Set_latch nat | Wake pid
  | Warn_stop_timeout oid | Log_floors_clamped

record launcher =
  la_WorkerLedger :: "VamanaLauncherWorker list"
  la_OrphanCandidates :: "VamanaOrphanCandidate list"
  la_shmem :: VamanaWorkerShmemHeader
  la_events :: "launcher_event list"

text \<open>
  The answers a cycle gets: the settings, the clock, the status of a handle in each of the three passes
  that ask for it, and the handle a registration yields, if it succeeds.
\<close>

record launcher_env =
  le_now :: timestamp
  le_clock :: pg_clock
  le_pg :: PgEnv
  le_restart_backoff :: int
  le_stop_timeout_ms :: int
  le_status_liveness :: "handle \<Rightarrow> BgwHandleStatus"
  le_status_terminate :: "handle \<Rightarrow> BgwHandleStatus"
  le_status_convergence :: "handle \<Rightarrow> BgwHandleStatus"
  le_register :: "oid \<Rightarrow> handle option"

definition emit :: "launcher_event list \<Rightarrow> launcher \<Rightarrow> launcher" where
  "emit evs s = s\<lparr>la_events := la_events s @ evs\<rparr>"

definition on_shmem :: "(VamanaWorkerShmemHeader \<Rightarrow> VamanaWorkerShmemHeader) \<Rightarrow> launcher \<Rightarrow> launcher" where
  "on_shmem f s = s\<lparr>la_shmem := f (la_shmem s)\<rparr>"

section \<open>Spawning\<close>

definition VamanaWorkerReserveSlotOrLog :: "oid \<Rightarrow> VamanaWorkerShmemHeader \<Rightarrow> bool \<times> VamanaWorkerShmemHeader" where
  "VamanaWorkerReserveSlotOrLog dbOid h =
     (let ((slot, created), h) = VamanaWorkerReserveSlot dbOid h in (slot \<noteq> None, h))"

definition RegisterDatabaseWorker :: "launcher_env \<Rightarrow> VamanaDatabaseRow \<Rightarrow> launcher \<Rightarrow> handle option \<times> launcher" where
  "RegisterDatabaseWorker env db s =
     (let (reserved, h) = VamanaWorkerReserveSlotOrLog (dr_dbOid db) (la_shmem s);
          s = s\<lparr>la_shmem := h\<rparr>
      in if \<not> reserved then (None, s)
         else case le_register env (dr_dbOid db) of
           None \<Rightarrow> (None, s)
         | Some hdl \<Rightarrow>
             (Some hdl, on_shmem (VamanaWorkerBackoffStampAttempt (dr_dbOid db) (le_now env))
                          (emit [Register_worker (dr_dbOid db) hdl] s)))"

definition SpawnWorker :: "launcher_env \<Rightarrow> VamanaDatabaseRow \<Rightarrow> launcher \<Rightarrow> launcher" where
  "SpawnWorker env db s =
     (case RegisterDatabaseWorker env db s of
        (None, s) \<Rightarrow> s
      | (Some hdl, s) \<Rightarrow>
          on_shmem (VamanaWorkerSetServicedRestartGeneration (dr_dbOid db) (dr_restart_generation db))
            (s\<lparr>la_WorkerLedger := la_WorkerLedger s @
               [\<lparr>lw_dbOid = dr_dbOid db, lw_handle = hdl, lw_started_time = 0,
                 lw_restart_state = \<lparr>rs_restarting = False, rs_serviced_generation = dr_restart_generation db,
                   rs_target_generation = dr_restart_generation db, rs_wait_started = 0\<rparr>\<rparr>]\<rparr>))"

text \<open>The ledger entry is changed in place: it is handed in and back.\<close>

definition RespawnWorker ::
    "launcher_env \<Rightarrow> VamanaLauncherWorker \<Rightarrow> VamanaDatabaseRow \<Rightarrow> launcher \<Rightarrow> bool \<times> VamanaLauncherWorker \<times> launcher" where
  "RespawnWorker env w db s =
     (case RegisterDatabaseWorker env db s of
        (None, s) \<Rightarrow> (False, w, s)
      | (Some hdl, s) \<Rightarrow>
          let rs = lw_restart_state w;
              w = w\<lparr>lw_handle := hdl, lw_started_time := 0,
                    lw_restart_state := rs\<lparr>rs_restarting := False, rs_serviced_generation := rs_target_generation rs, rs_wait_started := 0\<rparr>\<rparr>
          in (True, w, on_shmem (VamanaWorkerSetServicedRestartGeneration (dr_dbOid db)
                                   (rs_serviced_generation (lw_restart_state w))) s))"

section \<open>The passes over the ledger\<close>

definition DropSlotsAbandonedByStoppedWorker :: "oid \<Rightarrow> launcher \<Rightarrow> launcher" where
  "DropSlotsAbandonedByStoppedWorker dbOid s =
     (let (relids, h) = VamanaWorkerTakePendingSlotDrops dbOid VAMANA_MAX_SLOT_DROP_QUEUE (la_shmem s)
      in emit (map (Drop_slot dbOid) relids) (s\<lparr>la_shmem := h\<rparr>))"

definition publish_enabled :: "VamanaDatabaseRow \<Rightarrow> VamanaWorkerShmemHeader \<Rightarrow> VamanaWorkerShmemHeader" where
  "publish_enabled db h =
     (case VamanaWorkerLookupSlot h (dr_dbOid db) of
        None \<Rightarrow> h
      | Some e \<Rightarrow> put_entry h e ((hd_slots h ! e)\<lparr>ws_dbEnabled := dr_enabled db\<rparr>))"

definition PublishEnabledState :: "VamanaDatabaseRow list \<Rightarrow> VamanaWorkerShmemHeader \<Rightarrow> VamanaWorkerShmemHeader" where
  "PublishEnabledState rows h = fold publish_enabled rows h"

definition clear_heartbeat :: "oid \<Rightarrow> VamanaWorkerShmemHeader \<Rightarrow> VamanaWorkerShmemHeader" where
  "clear_heartbeat dbOid h =
     (case VamanaWorkerLookupSlot h dbOid of
        None \<Rightarrow> h
      | Some e \<Rightarrow> put_entry h e ((hd_slots h ! e)\<lparr>ws_heartbeat_ts := 0\<rparr>))"

text \<open>One turn of the loop of \<open>ReconcileLedgerLiveness\<close>: the entry, or nothing when it is deleted.\<close>

definition settle_worker ::
    "launcher_env \<Rightarrow> VamanaDatabaseRow list \<Rightarrow> VamanaLauncherWorker \<Rightarrow> launcher \<Rightarrow> VamanaLauncherWorker option \<times> launcher" where
  "settle_worker env rows w s =
     (let status = le_status_liveness env (lw_handle w);
          w = (if status = BGWH_STARTED \<and> lw_started_time w = 0 then w\<lparr>lw_started_time := le_now env\<rparr> else w)
      in if status \<noteq> BGWH_STOPPED then (Some w, s)
         else case ClassifyWorkerStop rows w of
           STOP_RESTART_DRAIN \<Rightarrow> (Some w, on_shmem (clear_heartbeat (lw_dbOid w)) s)
         | STOP_DISABLED \<Rightarrow> (None, on_shmem (VamanaWorkerBackoffClear (lw_dbOid w)) s)
         | STOP_REMOVED \<Rightarrow>
             (None, on_shmem (VamanaWorkerReleaseSlot (lw_dbOid w))
                (DropSlotsAbandonedByStoppedWorker (lw_dbOid w) (on_shmem (VamanaWorkerBackoffClear (lw_dbOid w)) s)))
         | STOP_CRASH \<Rightarrow>
             (let recovered = (lw_started_time w \<noteq> 0 \<and>
                    TimestampDifferenceMilliseconds (le_clock env) (lw_started_time w) (le_now env) \<ge> VAMANA_BACKOFF_DWELL_RESET_MS)
              in (None, on_shmem (VamanaWorkerClearDeadEntry (lw_dbOid w) \<circ>
                          VamanaWorkerBackoffRecordDeath (lw_dbOid w) recovered) s)))"

fun settle_workers ::
    "launcher_env \<Rightarrow> VamanaDatabaseRow list \<Rightarrow> VamanaLauncherWorker list \<Rightarrow> launcher \<Rightarrow> VamanaLauncherWorker list \<times> launcher" where
  "settle_workers env rows [] s = ([], s)"
| "settle_workers env rows (w # ws) s =
     (let (w', s) = settle_worker env rows w s;
          (ws', s) = settle_workers env rows ws s
      in (case w' of None \<Rightarrow> ws' | Some w \<Rightarrow> w # ws', s))"

definition ReconcileLedgerLiveness :: "launcher_env \<Rightarrow> VamanaDatabaseRow list \<Rightarrow> launcher \<Rightarrow> launcher" where
  "ReconcileLedgerLiveness env rows s =
     (let (ledger, s) = settle_workers env rows (la_WorkerLedger s) s in s\<lparr>la_WorkerLedger := ledger\<rparr>)"

definition TerminateDisabledWorkers :: "launcher_env \<Rightarrow> VamanaDatabaseRow list \<Rightarrow> launcher \<Rightarrow> launcher" where
  "TerminateDisabledWorkers env rows s =
     emit (map (\<lambda>w. Terminate_worker (lw_handle w))
       (filter (\<lambda>w. \<not> IsDatabaseEnabled rows (lw_dbOid w) \<and> le_status_terminate env (lw_handle w) = BGWH_STARTED)
          (la_WorkerLedger s))) s"

definition ExecuteRestartAction ::
    "launcher_env \<Rightarrow> VamanaRestartAction \<Rightarrow> VamanaLauncherWorker \<Rightarrow> VamanaDatabaseRow \<Rightarrow> launcher \<Rightarrow> VamanaLauncherWorker \<times> launcher" where
  "ExecuteRestartAction env action w db s =
     (case action of
        RESTART_NOOP \<Rightarrow> (w, s)
      | RESTART_WAIT \<Rightarrow> (w, s)
      | RESTART_TERMINATE \<Rightarrow> (w, emit [Terminate_worker (lw_handle w)] s)
      | RESTART_WAIT_TIMEOUT \<Rightarrow> (w, emit [Warn_stop_timeout (dr_dbOid db)] s)
      | RESTART_RESPAWN \<Rightarrow> snd (RespawnWorker env w db s))"

definition converge_worker ::
    "launcher_env \<Rightarrow> VamanaDatabaseRow list \<Rightarrow> VamanaLauncherWorker \<Rightarrow> launcher \<Rightarrow> VamanaLauncherWorker \<times> launcher" where
  "converge_worker env rows w s =
     (case FindEnabledDatabase rows (lw_dbOid w) of
        None \<Rightarrow> (w, s)
      | Some db \<Rightarrow>
          let (action, state) = VamanaRestartStateAdvance (le_clock env) (le_stop_timeout_ms env) (lw_restart_state w)
                (dr_restart_generation db) (le_status_convergence env (lw_handle w)) (le_now env)
          in ExecuteRestartAction env action (w\<lparr>lw_restart_state := state\<rparr>) db s)"

fun converge_workers ::
    "launcher_env \<Rightarrow> VamanaDatabaseRow list \<Rightarrow> VamanaLauncherWorker list \<Rightarrow> launcher \<Rightarrow> VamanaLauncherWorker list \<times> launcher" where
  "converge_workers env rows [] s = ([], s)"
| "converge_workers env rows (w # ws) s =
     (let (w, s) = converge_worker env rows w s;
          (ws, s) = converge_workers env rows ws s
      in (w # ws, s))"

definition ReconcileRestartConvergence :: "launcher_env \<Rightarrow> VamanaDatabaseRow list \<Rightarrow> launcher \<Rightarrow> launcher" where
  "ReconcileRestartConvergence env rows s =
     (let (ledger, s) = converge_workers env rows (la_WorkerLedger s) s in s\<lparr>la_WorkerLedger := ledger\<rparr>)"

section \<open>The directory of control blocks\<close>

lemma FindEnabled_db: "FindEnabledDatabase rows d = Some db \<Longrightarrow> dr_dbOid db = d \<and> dr_enabled db"
  by (auto simp: FindEnabledDatabase_def FindDatabaseRow_def find_Some_iff split: option.splits if_splits)

lemma state_simps [simp]:
  "la_shmem (emit evs s) = la_shmem s" "la_WorkerLedger (emit evs s) = la_WorkerLedger s"
  "la_OrphanCandidates (emit evs s) = la_OrphanCandidates s" "la_events (emit evs s) = la_events s @ evs"
  "la_shmem (on_shmem f s) = f (la_shmem s)" "la_WorkerLedger (on_shmem f s) = la_WorkerLedger s"
  "la_OrphanCandidates (on_shmem f s) = la_OrphanCandidates s" "la_events (on_shmem f s) = la_events s"
  by (simp_all add: emit_def on_shmem_def)

text \<open>Who holds which block, and the writes that leave that alone.\<close>

definition tenants :: "VamanaWorkerShmemHeader \<Rightarrow> (oid \<times> u32) list" where
  "tenants h = map (\<lambda>w. (ws_dbOid w, ws_generation w)) (hd_slots h)"

lemma tenants_put:
  "ws_dbOid w = ws_dbOid (hd_slots h ! e) \<Longrightarrow> ws_generation w = ws_generation (hd_slots h ! e) \<Longrightarrow> tenants (put_entry h e w) = tenants h"
  by (cases "e < length (hd_slots h)") (simp_all add: tenants_def map_update list_update_beyond list_update_same_conv)

lemma tenants_FindSlot:
  assumes "tenants h' = tenants h"
  shows "VamanaWorkerFindSlot h' d = VamanaWorkerFindSlot h d"
proof -
  have "find_index (\<lambda>w. ws_dbOid w = d) ws = find_index (\<lambda>t. fst t = d) (map (\<lambda>w. (ws_dbOid w, ws_generation w)) ws)"
    for ws :: "VamanaWorkerShmem list" by (induction ws) auto
  then show ?thesis using assms by (simp add: VamanaWorkerFindSlot_def tenants_def)
qed

lemma tenants_kept:
  "tenants (VamanaWorkerBackoffStampAttempt d t h) = tenants h"
  "tenants (VamanaWorkerSetServicedRestartGeneration d g h) = tenants h"
  "tenants (VamanaWorkerBackoffClear d h) = tenants h"
  "tenants (VamanaWorkerBackoffRecordDeath d r h) = tenants h"
  "tenants (VamanaWorkerClearDeadEntry d h) = tenants h"
  "tenants (VamanaWorkerSetMemoryOverrides d a b h) = tenants h"
  "tenants (snd (VamanaWorkerTakePendingSlotDrops d n h)) = tenants h"
  "tenants (clear_heartbeat d h) = tenants h"
  "tenants (publish_enabled db h) = tenants h"
  by (simp_all add: VamanaWorkerBackoffStampAttempt_def VamanaWorkerSetServicedRestartGeneration_def VamanaWorkerBackoffClear_def
      VamanaWorkerBackoffRecordDeath_def VamanaWorkerClearDeadEntry_def VamanaWorkerSetMemoryOverrides_def VamanaWorkerTakePendingSlotDrops_def
      clear_heartbeat_def publish_enabled_def Let_def tenants_put case_prod_beta split: option.split)

lemmas find_kept = tenants_kept [THEN tenants_FindSlot]

lemma reserved_kept:
  assumes "VamanaWorkerFindSlot h d \<noteq> None"
  shows "VamanaWorkerReserveSlotOrLog d h = (True, h)"
  using assms by (auto simp: VamanaWorkerReserveSlotOrLog_def VamanaWorkerReserveSlot_def)

section \<open>Restarts\<close>

text \<open>A worker through successive convergence passes, each with its own answers and rows.\<close>

fun restart_cycles ::
    "(launcher_env \<times> VamanaDatabaseRow list) list \<Rightarrow> VamanaLauncherWorker \<Rightarrow> launcher \<Rightarrow> VamanaLauncherWorker \<times> launcher" where
  "restart_cycles [] w s = (w, s)"
| "restart_cycles ((env, rows) # cycles) w s =
     (let (w, s) = converge_worker env rows w s in restart_cycles cycles w s)"

lemma restart_cycles_append:
  "restart_cycles (xs @ ys) w s = (let (w, s) = restart_cycles xs w s in restart_cycles ys w s)"
  by (induction xs w s rule: restart_cycles.induct) (auto split: prod.splits)

text \<open>While the old worker runs, or the new one cannot be registered, the restart stays pending.\<close>

lemma converge_pending:
  assumes "rs_restarting (lw_restart_state w)" and "VamanaWorkerFindSlot (la_shmem s) (lw_dbOid w) \<noteq> None"
    and "le_status_convergence env (lw_handle w) \<noteq> BGWH_STOPPED \<or> le_register env (lw_dbOid w) = None"
  shows "\<exists>t warn. converge_worker env rows w s =
    (w\<lparr>lw_restart_state := (lw_restart_state w)\<lparr>rs_wait_started := t\<rparr>\<rparr>,
     s\<lparr>la_events := la_events s @ (if warn then [Warn_stop_timeout (lw_dbOid w)] else [])\<rparr>)"
proof (cases "FindEnabledDatabase rows (lw_dbOid w)")
  case None
  then show ?thesis
    by (intro exI [of _ "rs_wait_started (lw_restart_state w)"] exI [of _ False]) (simp add: converge_worker_def)
next
  case (Some db)
  then have db: "dr_dbOid db = lw_dbOid w" using FindEnabled_db by blast
  show ?thesis
  proof (cases "le_status_convergence env (lw_handle w) = BGWH_STOPPED")
    case True
    then have "le_register env (dr_dbOid db) = None" using assms(3) db by simp
    then have "converge_worker env rows w s = (w, s)"
      using Some True assms(1,2) by (simp add: converge_worker_def VamanaRestartStateAdvance_def ExecuteRestartAction_def
          RespawnWorker_def RegisterDatabaseWorker_def reserved_kept db)
    then show ?thesis
      by (intro exI [of _ "rs_wait_started (lw_restart_state w)"] exI [of _ False]) simp
  next
    case False
    let ?t = "if rs_wait_started (lw_restart_state w) = 0 then le_now env else rs_wait_started (lw_restart_state w)"
    show ?thesis
      by (intro exI [of _ ?t] exI [of _ "TimestampDifferenceExceeds (le_clock env) ?t (le_now env) (le_stop_timeout_ms env)"])
        (use Some False assms(1) in \<open>auto simp: converge_worker_def VamanaRestartStateAdvance_def ExecuteRestartAction_def emit_def db Let_def\<close>)
  qed
qed

lemma restart_pending:
  assumes "rs_restarting (lw_restart_state w)" and "VamanaWorkerFindSlot (la_shmem s) (lw_dbOid w) \<noteq> None"
    and "list_all (\<lambda>(env, rows). le_status_convergence env (lw_handle w) \<noteq> BGWH_STOPPED \<or> le_register env (lw_dbOid w) = None) waits"
  shows "\<exists>t k. k \<le> length waits \<and> restart_cycles waits w s =
    (w\<lparr>lw_restart_state := (lw_restart_state w)\<lparr>rs_wait_started := t\<rparr>\<rparr>,
     s\<lparr>la_events := la_events s @ replicate k (Warn_stop_timeout (lw_dbOid w))\<rparr>)"
  using assms
proof (induction waits arbitrary: w s)
  case Nil
  show ?case by (intro exI [of _ "rs_wait_started (lw_restart_state w)"] exI [of _ 0]) simp
next
  case (Cons c waits)
  obtain env rows where c: "c = (env, rows)" by fastforce
  obtain t warn where step: "converge_worker env rows w s =
      (w\<lparr>lw_restart_state := (lw_restart_state w)\<lparr>rs_wait_started := t\<rparr>\<rparr>,
       s\<lparr>la_events := la_events s @ (if warn then [Warn_stop_timeout (lw_dbOid w)] else [])\<rparr>)" (is "_ = (?w, ?s)")
    using converge_pending [OF Cons.prems(1,2), of env rows] Cons.prems(3) c by auto
  obtain t' k where "k \<le> length waits" "restart_cycles waits ?w ?s =
      (?w\<lparr>lw_restart_state := (lw_restart_state ?w)\<lparr>rs_wait_started := t'\<rparr>\<rparr>,
       ?s\<lparr>la_events := la_events ?s @ replicate k (Warn_stop_timeout (lw_dbOid ?w))\<rparr>)"
    using Cons.IH [of ?w ?s] Cons.prems by auto
  then show ?case
    by (intro exI [of _ t'] exI [of _ "if warn then Suc k else k"]) (simp add: c step)
qed

lemma converge_start:
  assumes "\<not> rs_restarting (lw_restart_state w)" and "FindEnabledDatabase rows (lw_dbOid w) = Some db"
    and "rs_serviced_generation (lw_restart_state w) \<noteq> dr_restart_generation db"
  shows "converge_worker env rows w s =
    (w\<lparr>lw_restart_state := (lw_restart_state w)\<lparr>rs_restarting := True, rs_target_generation := dr_restart_generation db, rs_wait_started := 0\<rparr>\<rparr>,
     s\<lparr>la_events := la_events s @ [Terminate_worker (lw_handle w)]\<rparr>)"
  using assms by (simp add: converge_worker_def VamanaRestartStateAdvance_def ExecuteRestartAction_def emit_def)

lemma converge_idle:
  assumes "\<not> rs_restarting (lw_restart_state w)" and "FindEnabledDatabase rows (lw_dbOid w) = Some db"
    and "rs_serviced_generation (lw_restart_state w) = dr_restart_generation db"
  shows "converge_worker env rows w s = (w, s)"
  using assms by (simp add: converge_worker_def VamanaRestartStateAdvance_def ExecuteRestartAction_def)

lemma converge_respawn:
  assumes "rs_restarting (lw_restart_state w)" and "FindEnabledDatabase rows (lw_dbOid w) = Some db"
    and "le_status_convergence env (lw_handle w) = BGWH_STOPPED" and "le_register env (lw_dbOid w) = Some hdl"
    and "VamanaWorkerFindSlot (la_shmem s) (lw_dbOid w) = Some e"
  defines "g \<equiv> rs_target_generation (lw_restart_state w)"
  obtains s' where "converge_worker env rows w s =
      (w\<lparr>lw_handle := hdl, lw_started_time := 0,
         lw_restart_state := (lw_restart_state w)\<lparr>rs_restarting := False, rs_serviced_generation := g, rs_wait_started := 0\<rparr>\<rparr>, s')"
    "la_events s' = la_events s @ [Register_worker (lw_dbOid w) hdl]"
    "VamanaWorkerFindSlot (la_shmem s') (lw_dbOid w) = Some e" "ws_servicedRestartGeneration (hd_slots (la_shmem s') ! e) = g"
proof -
  have db: "dr_dbOid db = lw_dbOid w" using FindEnabled_db [OF assms(2)] by blast
  have slot: "VamanaWorkerFindSlot (la_shmem s) (lw_dbOid w) \<noteq> None" using assms(5) by simp
  note e = VamanaWorkerFindSlot_SomeD(1) [OF assms(5)]
  let ?h = "VamanaWorkerBackoffStampAttempt (lw_dbOid w) (le_now env) (la_shmem s)"
  have stamped: "VamanaWorkerFindSlot ?h (lw_dbOid w) = Some e" "e < length (hd_slots ?h)"
    using assms(5) e by (simp_all add: find_kept) (simp add: VamanaWorkerBackoffStampAttempt_def Let_def)
  let ?s = "s\<lparr>la_events := la_events s @ [Register_worker (lw_dbOid w) hdl],
      la_shmem := VamanaWorkerSetServicedRestartGeneration (lw_dbOid w) g ?h\<rparr>"
  show thesis
  proof (rule that [of ?s])
    show "converge_worker env rows w s =
      (w\<lparr>lw_handle := hdl, lw_started_time := 0,
         lw_restart_state := (lw_restart_state w)\<lparr>rs_restarting := False, rs_serviced_generation := g, rs_wait_started := 0\<rparr>\<rparr>, ?s)"
      using assms(1-4) by (simp add: converge_worker_def VamanaRestartStateAdvance_def ExecuteRestartAction_def
          RespawnWorker_def RegisterDatabaseWorker_def reserved_kept [OF slot] db Let_def emit_def on_shmem_def g_def)
    show "VamanaWorkerFindSlot (la_shmem ?s) (lw_dbOid w) = Some e" using stamped by (simp add: find_kept)
    show "ws_servicedRestartGeneration (hd_slots (la_shmem ?s) ! e) = g"
      using stamped by (simp add: VamanaWorkerSetServicedRestartGeneration_def)
  qed simp
qed

text \<open>
  C15: a restart converges.  When the restart generation of an enabled database differs from the one its worker serves,
  the launcher terminates that worker once, waits through any number of passes in which the handle still runs or no new
  worker can be registered, whatever the table says meanwhile, and then registers exactly one new worker in
  the same ledger entry, which serves the generation seen at the start.  After that a pass with this generation
  does nothing, and a pass with a later one (any number of requests during the drain) starts exactly one more restart.
\<close>

theorem restart_converges:
  assumes "\<not> rs_restarting (lw_restart_state w)" and "FindEnabledDatabase rows1 (lw_dbOid w) = Some db1"
    and "rs_serviced_generation (lw_restart_state w) \<noteq> dr_restart_generation db1"
    and "list_all (\<lambda>(env, rows). le_status_convergence env (lw_handle w) \<noteq> BGWH_STOPPED \<or> le_register env (lw_dbOid w) = None) waits"
    and "FindEnabledDatabase rows2 (lw_dbOid w) = Some db2" and "le_status_convergence env2 (lw_handle w) = BGWH_STOPPED"
    and "le_register env2 (lw_dbOid w) = Some hdl" and "VamanaWorkerFindSlot (la_shmem s) (lw_dbOid w) = Some e"
    and "restart_cycles ((env1, rows1) # waits @ [(env2, rows2)]) w s = (w', s')"
  shows "(\<exists>k \<le> length waits. la_events s' = la_events s @ [Terminate_worker (lw_handle w)] @
      replicate k (Warn_stop_timeout (lw_dbOid w)) @ [Register_worker (lw_dbOid w) hdl]) \<and>
    w' = w\<lparr>lw_handle := hdl, lw_started_time := 0,
      lw_restart_state := \<lparr>rs_restarting = False, rs_serviced_generation = dr_restart_generation db1,
        rs_target_generation = dr_restart_generation db1, rs_wait_started = 0\<rparr>\<rparr> \<and>
    VamanaWorkerFindSlot (la_shmem s') (lw_dbOid w) = Some e \<and>
    ws_servicedRestartGeneration (hd_slots (la_shmem s') ! e) = dr_restart_generation db1 \<and>
    (\<forall>env3 rows3 db3. FindEnabledDatabase rows3 (lw_dbOid w) = Some db3 \<longrightarrow>
      la_events (snd (converge_worker env3 rows3 w' s')) = la_events s' @
        (if dr_restart_generation db3 = dr_restart_generation db1 then [] else [Terminate_worker hdl]))"
proof -
  let ?g = "dr_restart_generation db1"
  define w1 where "w1 = w\<lparr>lw_restart_state := (lw_restart_state w)\<lparr>rs_restarting := True, rs_target_generation := ?g, rs_wait_started := 0\<rparr>\<rparr>"
  define s1 where "s1 = s\<lparr>la_events := la_events s @ [Terminate_worker (lw_handle w)]\<rparr>"
  have start: "converge_worker env1 rows1 w s = (w1, s1)"
    unfolding w1_def s1_def by (rule converge_start [OF assms(1-3)])
  have w1: "rs_restarting (lw_restart_state w1)" "lw_dbOid w1 = lw_dbOid w" "lw_handle w1 = lw_handle w" "rs_target_generation (lw_restart_state w1) = ?g"
    by (simp_all add: w1_def)
  have s1: "VamanaWorkerFindSlot (la_shmem s1) (lw_dbOid w1) \<noteq> None" using assms(8) by (simp add: s1_def w1)
  obtain t k where wait: "k \<le> length waits" "restart_cycles waits w1 s1 =
      (w1\<lparr>lw_restart_state := (lw_restart_state w1)\<lparr>rs_wait_started := t\<rparr>\<rparr>,
       s1\<lparr>la_events := la_events s1 @ replicate k (Warn_stop_timeout (lw_dbOid w1))\<rparr>)" (is "_ = (?w2, ?s2)")
    using restart_pending [OF w1(1) s1, of waits] assms(4) w1 by auto
  have "rs_restarting (lw_restart_state ?w2)" "lw_dbOid ?w2 = lw_dbOid w" "lw_handle ?w2 = lw_handle w"
    "rs_target_generation (lw_restart_state ?w2) = ?g" "VamanaWorkerFindSlot (la_shmem ?s2) (lw_dbOid ?w2) = Some e"
    using w1 assms(8) by (simp_all add: s1_def)
  note w2 = this
  obtain s3 where re: "converge_worker env2 rows2 ?w2 ?s2 =
      (?w2\<lparr>lw_handle := hdl, lw_started_time := 0,
         lw_restart_state := (lw_restart_state ?w2)\<lparr>rs_restarting := False, rs_serviced_generation := ?g, rs_wait_started := 0\<rparr>\<rparr>, s3)"
    "la_events s3 = la_events ?s2 @ [Register_worker (lw_dbOid ?w2) hdl]"
    "VamanaWorkerFindSlot (la_shmem s3) (lw_dbOid ?w2) = Some e" "ws_servicedRestartGeneration (hd_slots (la_shmem s3) ! e) = ?g"
    by (rule converge_respawn [OF w2(1), of rows2 db2 env2 hdl ?s2 e]) (use assms(5-7) w2 in simp_all)
  have "(w', s') = restart_cycles [(env2, rows2)] ?w2 ?s2"
    using assms(9) wait(2) by (simp add: start restart_cycles_append del: append.simps(2))
  then have s': "s' = s3" and w': "w' = w\<lparr>lw_handle := hdl, lw_started_time := 0,
      lw_restart_state := \<lparr>rs_restarting = False, rs_serviced_generation = ?g, rs_target_generation = ?g, rs_wait_started = 0\<rparr>\<rparr>"
    using re(1) by (simp_all add: w1_def)
  have again: "la_events (snd (converge_worker env3 rows3 w' s')) = la_events s' @ (if dr_restart_generation db3 = ?g then [] else [Terminate_worker hdl])"
    if "FindEnabledDatabase rows3 (lw_dbOid w) = Some db3" for env3 rows3 db3
    using converge_idle [of w' rows3 db3 env3 s'] converge_start [of w' rows3 db3 env3 s'] that
    by (cases "dr_restart_generation db3 = ?g") (simp_all add: w')
  have "la_events s' = la_events s @ [Terminate_worker (lw_handle w)] @ replicate k (Warn_stop_timeout (lw_dbOid w)) @ [Register_worker (lw_dbOid w) hdl]"
    using re(2) w1(2) by (simp add: s' s1_def)
  then show ?thesis using wait(1) w' re(3,4) again w2(2) by (auto simp: s')
qed

text \<open>A worker that serves generation 0 of a database whose row asks for generation 1.\<close>

definition demo_clock :: pg_clock where
  "demo_clock = \<lparr>TimestampDifferenceMilliseconds = (\<lambda>a b. if b \<le> a then 0 else (b - a + 999) div 1000),
     TimestampDifferenceExceeds = (\<lambda>a b ms. b - a \<ge> ms * 1000)\<rparr>"

definition demo_launcher_env :: "timestamp \<Rightarrow> (handle \<Rightarrow> BgwHandleStatus) \<Rightarrow> (oid \<Rightarrow> handle option) \<Rightarrow> launcher_env" where
  "demo_launcher_env now status reg = \<lparr>le_now = now, le_clock = demo_clock, le_pg = demo_env, le_restart_backoff = 1000, le_stop_timeout_ms = 5,
     le_status_liveness = status, le_status_terminate = status, le_status_convergence = status, le_register = reg\<rparr>"

definition demo_worker :: VamanaLauncherWorker where
  "demo_worker = \<lparr>lw_dbOid = 7, lw_handle = 11, lw_started_time = 100,
     lw_restart_state = \<lparr>rs_restarting = False, rs_serviced_generation = 0, rs_target_generation = 0, rs_wait_started = 0\<rparr>\<rparr>"

definition demo_launcher :: launcher where
  "demo_launcher = \<lparr>la_WorkerLedger = [demo_worker], la_OrphanCandidates = [], la_shmem = demo_blocks, la_events = []\<rparr>"

definition demo_run :: "VamanaLauncherWorker \<times> launcher" where
  "demo_run = restart_cycles ((demo_launcher_env 1000 (\<lambda>_. BGWH_STARTED) (\<lambda>_. None), demo_rows) #
     [(demo_launcher_env 2000 (\<lambda>_. BGWH_STARTED) (\<lambda>_. None), demo_rows)] @
     [(demo_launcher_env 9000 (\<lambda>_. BGWH_STOPPED) (\<lambda>_. Some 12), demo_rows)]) demo_worker demo_launcher"

theorem restart_converges_witness:
  "lw_handle (fst demo_run) = 12 \<and> rs_serviced_generation (lw_restart_state (fst demo_run)) = 1 \<and>
   ws_servicedRestartGeneration (hd_slots (la_shmem (snd demo_run)) ! 0) = 1"
proof -
  obtain w s where run: "demo_run = (w, s)" by fastforce
  obtain db where db: "FindEnabledDatabase demo_rows 7 = Some db" "dr_restart_generation db = 1"
    by (simp add: demo_rows_def FindEnabledDatabase_def FindDatabaseRow_def)
  have slot: "VamanaWorkerFindSlot (la_shmem demo_launcher) (lw_dbOid demo_worker) = Some 0"
    "VamanaWorkerFindSlot demo_blocks 7 = Some 0" by code_simp+
  show ?thesis
    using restart_converges [OF _ _ _ _ _ _ _ slot(1) run [unfolded demo_run_def], of db db 12] db
    by (simp add: demo_worker_def demo_launcher_env_def run)
qed

section \<open>Crash backoff\<close>

text \<open>The shift keeps the product far below the range of \<open>long\<close>.\<close>

lemma threshold_value:
  assumes "0 \<le> base" and "base < 2 ^ 31"
  shows "BackoffThresholdMs base n = min (base * 2 ^ min (unat n) 20) 60000"
proof -
  have shift: "unat (min n VAMANA_BACKOFF_MAX_SHIFT) = min (unat n) 20"
    by (simp add: VAMANA_BACKOFF_MAX_SHIFT_def min_def word_le_nat_alt)
  have "base * 2 ^ min (unat n) 20 \<le> base * 2 ^ 20"
    using assms(1) by (intro mult_left_mono power_increasing) auto
  also have "\<dots> < 2 ^ 63" using assms(2) by simp
  finally have lt: "base * 2 ^ min (unat n) 20 < 2 ^ 63" .
  have pos: "0 \<le> base * 2 ^ min (unat n) 20" using assms(1) by simp
  have push: "push_bit k (word_of_int base :: 64 word) = word_of_int (base * 2 ^ k)" for k
    by (simp add: push_bit_eq_mult)
  have "sint (word_of_int v :: 64 word) = v" if "0 \<le> v" "v < 2 ^ 63" for v :: int
    using that by (subst sint_sbintrunc') (simp add: signed_take_bit_int_eq_self)
  from this [OF pos lt] have "sint (push_bit (min (unat n) 20) (word_of_int base :: 64 word)) = base * 2 ^ min (unat n) 20"
    unfolding push .
  then show ?thesis by (simp add: BackoffThresholdMs_def Let_def shift VAMANA_RESTART_BACKOFF_CEILING_MS_def)
qed

definition failures :: "VamanaWorkerShmemHeader \<Rightarrow> oid \<Rightarrow> u32" where
  "failures h d = consecutive_failures (snd (VamanaWorkerBackoffSnapshot h d))"

lemma record_death_failures:
  assumes "VamanaWorkerFindSlot h d \<noteq> None"
  shows "failures (VamanaWorkerBackoffRecordDeath d r h) d = (if r then 0 else failures h d + 1)"
proof -
  obtain e where e: "VamanaWorkerFindSlot h d = Some e" using assms by blast
  note fs = find_kept(4) [of d r h d, unfolded e]
  show ?thesis
    using VamanaWorkerFindSlot_SomeD(1) [OF e]
    by (simp add: failures_def VamanaWorkerBackoffSnapshot_def fs e) (simp add: VamanaWorkerBackoffRecordDeath_def e Let_def)
qed

lemma deaths_failures:
  assumes "VamanaWorkerFindSlot h d \<noteq> None" and "unat (failures h d) + k < 2 ^ 32"
  shows "unat (failures ((VamanaWorkerBackoffRecordDeath d False ^^ k) h) d) = unat (failures h d) + k \<and>
    VamanaWorkerFindSlot ((VamanaWorkerBackoffRecordDeath d False ^^ k) h) d \<noteq> None"
  using assms(2)
proof (induction k)
  case (Suc k)
  then show ?case
    by (simp add: record_death_failures find_kept unat_word_ariths)
qed (use assms in simp)

text \<open>
  C27: the crash backoff.  After \<open>k\<close> crashes in a row the wait before the next attempt is the configured
  base doubled \<open>k\<close> times (at most twenty), cut at one minute: the shift never overflows, the wait never shrinks with another
  crash and never exceeds the ceiling.  A worker that had stayed up long enough brings the wait back to the base.
\<close>

theorem backoff_doubles:
  assumes "0 \<le> base" and "base < 2 ^ 31" and "VamanaWorkerFindSlot h d \<noteq> None" and "failures h d = 0" and "k < 2 ^ 32"
    and "h' = (VamanaWorkerBackoffRecordDeath d False ^^ k) h"
  shows "BackoffThresholdMs base (failures h' d) = min (base * 2 ^ min k 20) 60000 \<and>
    (k + 1 < 2 ^ 32 \<longrightarrow> BackoffThresholdMs base (failures h' d) \<le>
      BackoffThresholdMs base (failures (VamanaWorkerBackoffRecordDeath d False h') d)) \<and>
    BackoffThresholdMs base (failures h' d) \<le> VAMANA_RESTART_BACKOFF_CEILING_MS \<and>
    BackoffThresholdMs base (failures (VamanaWorkerBackoffRecordDeath d True h') d) = min base 60000"
proof -
  have d: "unat (failures h' d) = k" "VamanaWorkerFindSlot h' d \<noteq> None"
    using deaths_failures [OF assms(3), of k] assms(4-6) by simp_all
  have n: "unat (failures (VamanaWorkerBackoffRecordDeath d False h') d) = k + 1" if "k + 1 < 2 ^ 32"
    using that d by (simp add: record_death_failures unat_word_ariths)
  have r: "failures (VamanaWorkerBackoffRecordDeath d True h') d = 0" using d(2) by (simp add: record_death_failures)
  have "base * 2 ^ min k 20 \<le> base * 2 ^ min (k + 1) 20"
    using assms(1) by (intro mult_left_mono power_increasing) auto
  then have "min (base * 2 ^ min k 20) 60000 \<le> min (base * 2 ^ min (k + 1) 20) 60000" by linarith
  then show ?thesis
    using n by (simp add: threshold_value [OF assms(1,2)] d(1) r VAMANA_RESTART_BACKOFF_CEILING_MS_def)
qed

theorem backoff_doubles_witness:
  "BackoffThresholdMs 1000 (failures ((VamanaWorkerBackoffRecordDeath 7 False ^^ 3) demo_blocks) 7) = 8000"
proof -
  have "VamanaWorkerFindSlot demo_blocks 7 \<noteq> None" "failures demo_blocks 7 = 0" by code_simp+
  from backoff_doubles [of 1000, OF _ _ this _ refl, of 3] show ?thesis by simp
qed

end
