(* ===== verification/Launcher_Cycle.thy ===== *)
theory Launcher_Cycle
  imports Launcher_Workers
begin

text \<open>
  One cycle of the launcher (\<open>VamanaLauncherReconcileWorkers\<close> of \<open>vamanalauncher.c\<close>): the passes over the ledger, the
  workers inherited from an earlier launcher, blocks without a row, the published settings and the
  spawning of missing workers; and the start and the loop of the launcher around it.
\<close>

section \<open>Surroundings\<close>

text \<open>
  What a cycle finds besides the answers of \<open>launcher_env\<close>: the outcome of reading the table, the
  settings of both governors, what other processes do while the CPU budget is computed, the name of a database and
  the sum of the recorded residency of its indexes (both read from catalogs).
\<close>

record cycle_env =
  cy_le :: launcher_env
  cy_RecoveryInProgress :: bool
  cy_lock_available :: bool
  cy_get_database_oid :: "string \<Rightarrow> oid"
  cy_answer :: table_read
  cy_qsort :: qperm
  cy_cpu_gucs :: SvsCpuGucs
  cy_others :: "VamanaWorkerShmemHeader \<Rightarrow> VamanaWorkerShmemHeader"
  cy_mem_gucs :: SvsMemGucs
  cy_get_database_name :: "oid \<Rightarrow> string option"
  cy_committed_bytes :: "oid \<Rightarrow> errcode + u64"

section \<open>Memory settings\<close>

definition SvsIndexResidencyDurableFloor :: "cycle_env \<Rightarrow> oid \<Rightarrow> VamanaWorkerShmem option \<Rightarrow> errcode + u64" where
  "SvsIndexResidencyDurableFloor env dbOid entry =
     (if (case entry of None \<Rightarrow> False | Some w \<Rightarrow> VamanaWorkerEntryIsLive (le_pg (cy_le env)) w) then Inr 0
      else case cy_get_database_name env dbOid of
        None \<Rightarrow> Inr 0
      | Some datname \<Rightarrow> cy_committed_bytes env dbOid)"

text \<open>An error on the way is caught and reported.\<close>

definition ReconcileResidencyAdmission :: "cycle_env \<Rightarrow> oid \<Rightarrow> VamanaWorkerShmemHeader \<Rightarrow> VamanaWorkerShmemHeader" where
  "ReconcileResidencyAdmission env dbOid h =
     (case VamanaWorkerLookupSlot h dbOid of
        None \<Rightarrow> h
      | Some e \<Rightarrow>
          (case SvsIndexResidencyDurableFloor env dbOid (Some (hd_slots h ! e)) of
             Inl err \<Rightarrow> h
           | Inr durableFloor \<Rightarrow>
               let residencyBudget = SvsMemoryResolveResidencyBudget (cy_mem_gucs env) (hd_slots h ! e)
               in snd (SvsMemoryAdmitDatabase (cy_mem_gucs env) dbOid residencyBudget durableFloor h)))"

definition PublishMemoryOverrides :: "cycle_env \<Rightarrow> VamanaDatabaseRow list \<Rightarrow> VamanaWorkerShmemHeader \<Rightarrow> VamanaWorkerShmemHeader" where
  "PublishMemoryOverrides env rows h =
     fold (\<lambda>db h. ReconcileResidencyAdmission env (dr_dbOid db)
         (VamanaWorkerSetMemoryOverrides (dr_dbOid db) (mc_residencyMemoryMbOverride (dr_memory db)) (mc_searchWorkMemMbOverride (dr_memory db)) h))
       (EnabledRowsOf rows) h"

section \<open>Blocks without a row, workers without a ledger entry\<close>

definition CollectReservedDbOids :: "VamanaWorkerShmem \<Rightarrow> oid list \<Rightarrow> oid list" where
  "CollectReservedDbOids entry oids = oids @ [ws_dbOid entry]"

definition ReservedOidsContains :: "oid list \<Rightarrow> oid \<Rightarrow> bool" where
  "ReservedOidsContains oids dbOid = list_ex (\<lambda>x. x = dbOid) oids"

definition release_orphan ::
    "launcher_env \<Rightarrow> VamanaDatabaseRow list \<Rightarrow> oid \<Rightarrow> int \<times> launcher \<Rightarrow> int \<times> launcher" where
  "release_orphan env rows dbOid = (\<lambda>(naptime, s).
     if FindDatabaseRow rows dbOid \<noteq> None then (naptime, s)
     else
       let (candidate, s) =
             (case find (\<lambda>c. oc_dbOid c = dbOid) (la_OrphanCandidates s) of
                Some c \<Rightarrow> (c, s)
              | None \<Rightarrow>
                  let c = \<lparr>oc_dbOid = dbOid, oc_firstSeenOrphaned = le_now env\<rparr>
                  in (c, s\<lparr>la_OrphanCandidates := la_OrphanCandidates s @ [c]\<rparr>))
       in if TimestampDifferenceExceeds (le_clock env) (oc_firstSeenOrphaned candidate) (le_now env) VAMANA_ORPHAN_SLOT_GRACE_MS then
            (if (case VamanaWorkerLookupSlot (la_shmem s) dbOid of
                   None \<Rightarrow> True | Some e \<Rightarrow> \<not> VamanaWorkerEntryIsLive (le_pg env) (hd_slots (la_shmem s) ! e)) then
               (naptime, (on_shmem (VamanaWorkerReleaseSlot dbOid) (DropSlotsAbandonedByStoppedWorker dbOid s))
                  \<lparr>la_OrphanCandidates := remove1 candidate (la_OrphanCandidates s)\<rparr>)
             else (min naptime VAMANA_LAUNCHER_MIN_NAPTIME_MS, s))
          else
            let remaining = VAMANA_ORPHAN_SLOT_GRACE_MS -
                  TimestampDifferenceMilliseconds (le_clock env) (oc_firstSeenOrphaned candidate) (le_now env)
            in (min naptime remaining, s))"

definition ReleaseOrphanedReservedSlots ::
    "launcher_env \<Rightarrow> VamanaDatabaseRow list \<Rightarrow> oid list \<Rightarrow> launcher \<Rightarrow> int \<times> launcher" where
  "ReleaseOrphanedReservedSlots env rows reservedOids s =
     fold (release_orphan env rows) reservedOids
       (VAMANA_LAUNCHER_NAPTIME_MS,
        s\<lparr>la_OrphanCandidates := filter (\<lambda>c. \<not> (FindDatabaseRow rows (oc_dbOid c) \<noteq> None \<or>
            \<not> ReservedOidsContains reservedOids (oc_dbOid c))) (la_OrphanCandidates s)\<rparr>)"

definition stop_unledgered ::
    "launcher_env \<Rightarrow> VamanaDatabaseRow list \<Rightarrow> oid \<Rightarrow> int \<times> launcher \<Rightarrow> int \<times> launcher" where
  "stop_unledgered env rows dbOid = (\<lambda>(naptime, s).
     if FindLedgerEntry (la_WorkerLedger s) dbOid \<noteq> None then (naptime, s)
     else case VamanaWorkerLookupSlot (la_shmem s) dbOid of
       None \<Rightarrow> (naptime, s)
     | Some e \<Rightarrow>
         let entry = hd_slots (la_shmem s) ! e in
         if \<not> VamanaWorkerEntryIsLive (le_pg env) entry then (naptime, s)
         else
           let wantStop = (case FindEnabledDatabase rows dbOid of
                 None \<Rightarrow> True | Some db \<Rightarrow> dr_restart_generation db \<noteq> ws_servicedRestartGeneration entry)
           in if wantStop
              then (min naptime VAMANA_LAUNCHER_MIN_NAPTIME_MS,
                    emit [Set_latch e] (on_shmem (\<lambda>h. put_entry h e (entry\<lparr>ws_stopRequested := True\<rparr>)) s))
              else (naptime, s))"

definition ReconcileUnledgeredWorkers ::
    "launcher_env \<Rightarrow> VamanaDatabaseRow list \<Rightarrow> oid list \<Rightarrow> launcher \<Rightarrow> int \<times> launcher" where
  "ReconcileUnledgeredWorkers env rows reservedOids s =
     fold (stop_unledgered env rows) reservedOids (VAMANA_LAUNCHER_NAPTIME_MS, s)"

section \<open>The cycle\<close>

definition publish_cpu :: "cycle_env \<Rightarrow> VamanaDatabaseRow list \<Rightarrow> launcher \<Rightarrow> launcher" where
  "publish_cpu env rows s =
     (let (latches, woken, exceed, h) = PublishCpuGrants (cy_qsort env) (cy_cpu_gucs env) (le_pg (cy_le env)) (cy_RecoveryInProgress env)
            (cy_others env) rows (la_shmem s)
      in emit (map Set_latch latches @ map Wake woken @ (if exceed then [Log_floors_clamped] else [])) (s\<lparr>la_shmem := h\<rparr>))"

definition spawn_missing :: "launcher_env \<Rightarrow> VamanaDatabaseRow \<Rightarrow> int \<times> launcher \<Rightarrow> int \<times> launcher" where
  "spawn_missing env db = (\<lambda>(naptime, s).
     if FindLedgerEntry (la_WorkerLedger s) (dr_dbOid db) \<noteq> None then (naptime, s)
     else if (case VamanaWorkerLookupSlot (la_shmem s) (dr_dbOid db) of
                None \<Rightarrow> False | Some e \<Rightarrow> VamanaWorkerEntryIsLive (le_pg env) (hd_slots (la_shmem s) ! e)) then (naptime, s)
     else
       let (found, backoff) = VamanaWorkerBackoffSnapshot (la_shmem s) (dr_dbOid db);
           remaining = BackoffRemainingMs (le_clock env) (le_restart_backoff env) backoff (le_now env)
       in if remaining \<le> 0 then (naptime, SpawnWorker env db s) else (min naptime remaining, s))"

definition reconcile_rows :: "cycle_env \<Rightarrow> VamanaDatabaseRow list \<Rightarrow> launcher \<Rightarrow> int \<times> launcher" where
  "reconcile_rows env rows s =
     (let le = cy_le env;
          s = on_shmem (PublishEnabledState rows) s;
          s = ReconcileLedgerLiveness le rows s;
          s = TerminateDisabledWorkers le rows s;
          s = (if la_WorkerLedger s \<noteq> [] then ReconcileRestartConvergence le rows s else s);
          reserved = VamanaWorkerForEachReserved CollectReservedDbOids [] (la_shmem s);
          (nap1, s) = ReconcileUnledgeredWorkers le rows reserved s;
          naptime = min VAMANA_LAUNCHER_NAPTIME_MS nap1;
          (nap2, s) = ReleaseOrphanedReservedSlots le rows reserved s;
          naptime = min naptime nap2;
          s = publish_cpu env rows s;
          s = on_shmem (PublishMemoryOverrides env rows) s;
          (naptime, s) = fold (spawn_missing le) (EnabledRowsOf rows) (naptime, s)
      in (max naptime VAMANA_LAUNCHER_MIN_NAPTIME_MS, s))"

definition VamanaLauncherReconcileWorkers :: "cycle_env \<Rightarrow> launcher \<Rightarrow> int \<times> launcher" where
  "VamanaLauncherReconcileWorkers env s =
     (let (ok, rows) = ReadDatabaseRows (cy_RecoveryInProgress env) (cy_lock_available env) (cy_get_database_oid env) (cy_answer env)
      in if \<not> ok then (VAMANA_LAUNCHER_MIN_NAPTIME_MS, s) else reconcile_rows env rows s)"

section \<open>Start and loop\<close>

definition MaterializeInitialConfig :: "cycle_env \<Rightarrow> VamanaWorkerShmemHeader \<Rightarrow> VamanaWorkerShmemHeader" where
  "MaterializeInitialConfig env h =
     (let (ok, rows) = ReadDatabaseRows (cy_RecoveryInProgress env) (cy_lock_available env) (cy_get_database_oid env) (cy_answer env)
      in VamanaWorkerSetInitialScanDone
           (fold (\<lambda>db h. snd (VamanaWorkerReserveSlotOrLog (dr_dbOid db) h)) (EnabledRowsOf rows) h))"

text \<open>A new launcher begins with an empty ledger; the shared memory is what earlier processes left.\<close>

definition launcher_start :: "cycle_env \<Rightarrow> VamanaWorkerShmemHeader \<Rightarrow> launcher" where
  "launcher_start env h =
     \<lparr>la_WorkerLedger = [], la_OrphanCandidates = [],
      la_shmem = SvsMemoryReapDeadReservations (le_pg (cy_le env))
        (MaterializeInitialConfig env (SvsSetLauncherPid (MyProcPid (le_pg (cy_le env))) h)),
      la_events = []\<rparr>"

text \<open>One turn of the loop of \<open>VamanaLauncherMain\<close>, up to the next wait.\<close>

definition launcher_turn :: "cycle_env \<Rightarrow> launcher \<Rightarrow> int \<times> launcher" where
  "launcher_turn env s =
     VamanaLauncherReconcileWorkers env (on_shmem (SvsMemoryReapDeadReservations (le_pg (cy_le env))) s)"

section \<open>Blocks keep their tenants\<close>

lemma tenants_Lookup:
  assumes "tenants h' = tenants h"
  shows "VamanaWorkerLookupSlotGeneration h' d = VamanaWorkerLookupSlotGeneration h d"
proof (cases "VamanaWorkerFindSlot h d")
  case (Some e)
  have "length (hd_slots h') = length (hd_slots h)" using assms by (metis length_map tenants_def)
  then have "ws_generation (hd_slots h' ! e) = ws_generation (hd_slots h ! e)"
    using arg_cong [OF assms, of "\<lambda>ts. snd (ts ! e)"] VamanaWorkerFindSlot_SomeD(1) [OF Some] by (simp add: tenants_def)
  then show ?thesis using Some by (simp add: VamanaWorkerLookupSlotGeneration_def tenants_FindSlot [OF assms])
qed (simp add: VamanaWorkerLookupSlotGeneration_def tenants_FindSlot [OF assms])

text \<open>A block that does not belong to \<open>d\<close> may be handed on without \<open>d\<close> noticing.\<close>

lemma put_other:
  assumes "ws_dbOid (hd_slots h ! e) \<noteq> d" and "ws_dbOid w \<noteq> d" and "hd_slots h' = (hd_slots h)[e := w]"
  shows "VamanaWorkerFindSlot h' d = VamanaWorkerFindSlot h d"
    and "VamanaWorkerFindSlot h d = Some i \<Longrightarrow> hd_slots h' ! i = hd_slots h ! i"
proof -
  show "VamanaWorkerFindSlot h' d = VamanaWorkerFindSlot h d"
    using find_index_update_same [of "\<lambda>w. ws_dbOid w = d" w "hd_slots h" e] assms
    by (cases "e < length (hd_slots h)") (simp_all add: VamanaWorkerFindSlot_def list_update_beyond)
  assume "VamanaWorkerFindSlot h d = Some i"
  from VamanaWorkerFindSlot_SomeD(2) [OF this] show "hd_slots h' ! i = hd_slots h ! i"
    using assms(1,3) by (cases "i = e") simp_all
qed

lemma release_other:
  assumes "OidIsValid d" and "d \<noteq> d'"
  shows "VamanaWorkerFindSlot (VamanaWorkerReleaseSlot d' h) d = VamanaWorkerFindSlot h d"
    and "VamanaWorkerFindSlot h d = Some i \<Longrightarrow> hd_slots (VamanaWorkerReleaseSlot d' h) ! i = hd_slots h ! i"
proof -
  have "VamanaWorkerFindSlot (VamanaWorkerReleaseSlot d' h) d = VamanaWorkerFindSlot h d \<and>
    (VamanaWorkerFindSlot h d = Some i \<longrightarrow> hd_slots (VamanaWorkerReleaseSlot d' h) ! i = hd_slots h ! i)"
  proof (cases rule: ReleaseSlot_cases [of h d'])
    case (released e entry' h')
    note r = Reset_fields [OF released(2)]
    have "ws_dbOid (hd_slots h ! e) \<noteq> d" "ws_dbOid entry' \<noteq> d" "hd_slots (VamanaWorkerReleaseSlot d' h) = (hd_slots h)[e := entry']"
      using VamanaWorkerFindSlot_SomeD(2) [OF released(1)] assms r by (auto simp: released(3))
    from put_other [OF this] show ?thesis by simp
  qed simp
  then show "VamanaWorkerFindSlot (VamanaWorkerReleaseSlot d' h) d = VamanaWorkerFindSlot h d"
    "VamanaWorkerFindSlot h d = Some i \<Longrightarrow> hd_slots (VamanaWorkerReleaseSlot d' h) ! i = hd_slots h ! i" by simp_all
qed

lemma reserve_other:
  assumes "OidIsValid d" and "d \<noteq> d'"
  shows "VamanaWorkerFindSlot (snd (VamanaWorkerReserveSlot d' h)) d = VamanaWorkerFindSlot h d"
    and "VamanaWorkerFindSlot h d = Some i \<Longrightarrow> hd_slots (snd (VamanaWorkerReserveSlot d' h)) ! i = hd_slots h ! i"
proof -
  have "VamanaWorkerFindSlot (snd (VamanaWorkerReserveSlot d' h)) d = VamanaWorkerFindSlot h d \<and>
    (VamanaWorkerFindSlot h d = Some i \<longrightarrow> hd_slots (snd (VamanaWorkerReserveSlot d' h)) ! i = hd_slots h ! i)"
  proof (cases rule: ReserveSlot_cases [of h d'])
    case (created e)
    have "ws_dbOid (hd_slots h ! e) \<noteq> d" "ws_dbOid ((hd_slots h ! e)\<lparr>ws_dbOid := d', ws_generation := ws_generation (hd_slots h ! e) + 1\<rparr>) \<noteq> d"
      using VamanaWorkerFindSlot_SomeD(2) [OF created(2)] assms by auto
    from put_other [OF this, of "snd (VamanaWorkerReserveSlot d' h)"] show ?thesis by (simp add: created(3))
  qed simp_all
  then show "VamanaWorkerFindSlot (snd (VamanaWorkerReserveSlot d' h)) d = VamanaWorkerFindSlot h d"
    "VamanaWorkerFindSlot h d = Some i \<Longrightarrow> hd_slots (snd (VamanaWorkerReserveSlot d' h)) ! i = hd_slots h ! i" by simp_all
qed

text \<open>The block of \<open>d\<close>, if it has one, is still the same one and was not handed on in between.\<close>

definition keeps :: "oid \<Rightarrow> VamanaWorkerShmemHeader \<Rightarrow> VamanaWorkerShmemHeader \<Rightarrow> bool" where
  "keeps d h h' \<longleftrightarrow> (VamanaWorkerFindSlot h d \<noteq> None \<longrightarrow>
     VamanaWorkerLookupSlotGeneration h' d = VamanaWorkerLookupSlotGeneration h d)"

lemma keeps_refl [simp]: "keeps d h h"
  by (simp add: keeps_def)

lemma keeps_trans: "keeps d a b \<Longrightarrow> keeps d b c \<Longrightarrow> keeps d a c"
  by (auto simp: keeps_def VamanaWorkerLookupSlotGeneration_def)

lemma keeps_tenants: "tenants h' = tenants h \<Longrightarrow> keeps d h h'"
  unfolding keeps_def using tenants_Lookup by blast

lemma keeps_release: "OidIsValid d \<Longrightarrow> d \<noteq> d' \<Longrightarrow> keeps d h (VamanaWorkerReleaseSlot d' h)"
  using release_other [of d d' h] by (auto simp: keeps_def VamanaWorkerLookupSlotGeneration_def)

lemma keeps_reserve: "OidIsValid d \<Longrightarrow> keeps d h (snd (VamanaWorkerReserveSlot d' h))"
proof (cases "d' = d")
  case True
  then show ?thesis by (auto simp: keeps_def VamanaWorkerReserveSlot_def)
next
  case False
  then show "OidIsValid d \<Longrightarrow> ?thesis"
    using reserve_other [of d d' h] by (auto simp: keeps_def VamanaWorkerLookupSlotGeneration_def)
qed

lemma keeps_fold:
  assumes "\<And>x h. x \<in> set xs \<Longrightarrow> keeps d (g h) (g (f x h))"
  shows "keeps d (g h) (g (fold f xs h))"
  using assms
proof (induction xs arbitrary: h)
  case (Cons x xs)
  have "keeps d (g h) (g (f x h))" "keeps d (g (f x h)) (g (fold f xs (f x h)))"
    using Cons.prems Cons.IH [of "f x h"] by simp_all
  then show ?case using keeps_trans by simp
qed simp

section \<open>What the passes keep\<close>

definition registrations :: "oid \<Rightarrow> launcher_event list \<Rightarrow> nat" where
  "registrations d evs = length (filter (\<lambda>ev. \<exists>hdl. ev = Register_worker d hdl) evs)"

lemma registrations_simps [simp]:
  "registrations d [] = 0" "registrations d (xs @ ys) = registrations d xs + registrations d ys"
  "registrations d [Register_worker d' hdl] = (if d' = d then 1 else 0)" "registrations d [Terminate_worker hdl] = 0"
  "registrations d [Warn_stop_timeout x] = 0" "registrations d [Set_latch e] = 0" "registrations d [Log_floors_clamped] = 0"
  "registrations d (map (Drop_slot d') rs) = 0" "registrations d (map Set_latch es) = 0" "registrations d (map Wake ps) = 0"
  "registrations d (map (\<lambda>w. Terminate_worker (lw_handle w)) ws) = 0"
  by (auto simp: registrations_def filter_empty_conv)

text \<open>A step of the launcher that registers nobody and leaves the ledger alone.\<close>

definition configured :: "VamanaDatabaseRow list \<Rightarrow> oid \<Rightarrow> bool" where
  "configured rows d \<longleftrightarrow> OidIsValid d \<and> FindDatabaseRow rows d \<noteq> None"

definition quiet :: "VamanaDatabaseRow list \<Rightarrow> oid \<Rightarrow> launcher \<Rightarrow> launcher \<Rightarrow> bool" where
  "quiet rows d s s' \<longleftrightarrow> (configured rows d \<longrightarrow> keeps d (la_shmem s) (la_shmem s')) \<and> la_WorkerLedger s' = la_WorkerLedger s \<and>
     registrations d (la_events s') = registrations d (la_events s)"

lemma quiet_refl [simp]: "quiet rows d s s"
  by (simp add: quiet_def)

lemma quiet_trans: "quiet rows d a b \<Longrightarrow> quiet rows d b c \<Longrightarrow> quiet rows d a c"
  by (auto simp: quiet_def intro: keeps_trans)

lemma quiet_fold:
  assumes "\<And>x s. x \<in> set xs \<Longrightarrow> quiet rows d (g s) (g (f x s))"
  shows "quiet rows d (g s) (g (fold f xs s))"
  using assms
proof (induction xs arbitrary: s)
  case (Cons x xs)
  have "quiet rows d (g s) (g (f x s))" "quiet rows d (g (f x s)) (g (fold f xs (f x s)))"
    using Cons.prems Cons.IH [of "f x s"] by simp_all
  then show ?case using quiet_trans by simp
qed simp

lemma quiet_shmem: "(configured rows d \<Longrightarrow> keeps d (la_shmem s) (f (la_shmem s))) \<Longrightarrow> quiet rows d s (on_shmem f s)"
  by (simp add: quiet_def)

lemma quiet_drops: "quiet rows d s (DropSlotsAbandonedByStoppedWorker d' s)"
  using tenants_kept(7) [of d' VAMANA_MAX_SLOT_DROP_QUEUE "la_shmem s"]
  by (auto simp: quiet_def DropSlotsAbandonedByStoppedWorker_def Let_def case_prod_beta intro: keeps_tenants)

lemma PublishEnabled_tenants: "tenants (PublishEnabledState rows h) = tenants h"
  unfolding PublishEnabledState_def by (induction rows arbitrary: h) (simp_all add: tenants_kept)

definition settled :: "launcher_env \<Rightarrow> VamanaDatabaseRow list \<Rightarrow> VamanaLauncherWorker \<Rightarrow> bool" where
  "settled env rows w \<longleftrightarrow> le_status_liveness env (lw_handle w) = BGWH_STOPPED \<and> ClassifyWorkerStop rows w \<noteq> STOP_RESTART_DRAIN"

lemma settle_worker_quiet: "quiet rows d s (snd (settle_worker env rows w s))"
proof -
  have rel: "quiet rows d s (on_shmem (VamanaWorkerReleaseSlot (lw_dbOid w)) (DropSlotsAbandonedByStoppedWorker (lw_dbOid w) (on_shmem (VamanaWorkerBackoffClear (lw_dbOid w)) s)))"
    if "FindDatabaseRow rows (lw_dbOid w) = None"
    by (intro quiet_trans [OF quiet_shmem quiet_trans [OF quiet_drops quiet_shmem]] keeps_tenants tenants_kept keeps_release)
      (use that in \<open>auto simp: configured_def\<close>)
  have "quiet rows d s (on_shmem (clear_heartbeat (lw_dbOid w)) s)" "quiet rows d s (on_shmem (VamanaWorkerBackoffClear (lw_dbOid w)) s)"
    "quiet rows d s (on_shmem (VamanaWorkerClearDeadEntry (lw_dbOid w) \<circ> VamanaWorkerBackoffRecordDeath (lw_dbOid w) r) s)" for r
    by (simp_all add: quiet_shmem keeps_tenants tenants_kept)
  then show ?thesis
    using rel by (auto simp: settle_worker_def ClassifyWorkerStop_def Let_def split: option.split)
qed

lemma settle_worker_entry:
  "map_option (\<lambda>w. (lw_dbOid w, lw_handle w)) (fst (settle_worker env rows w s)) =
    (if settled env rows w then None else Some (lw_dbOid w, lw_handle w))"
  by (auto simp: settle_worker_def settled_def ClassifyWorkerStop_def Let_def split: option.split VamanaStopReason.split)

lemma settle_workers_quiet: "quiet rows d s (snd (settle_workers env rows ws s))"
proof (induction ws arbitrary: s)
  case (Cons w ws)
  obtain w' s1 where st: "settle_worker env rows w s = (w', s1)" by fastforce
  have "quiet rows d s s1" using settle_worker_quiet [of rows d s env w] st by simp
  then show ?case using Cons.IH [of s1] st quiet_trans by (auto simp: case_prod_beta)
qed simp

lemma settle_workers_ledger:
  "map (\<lambda>w. (lw_dbOid w, lw_handle w)) (fst (settle_workers env rows ws s)) =
   map (\<lambda>w. (lw_dbOid w, lw_handle w)) (filter (\<lambda>w. \<not> settled env rows w) ws)"
proof (induction ws arbitrary: s)
  case (Cons w ws)
  obtain w' s1 where st: "settle_worker env rows w s = (w', s1)" by fastforce
  show ?case
    using Cons.IH [of s1] settle_worker_entry [of env rows w s] st by (cases w') (auto simp: case_prod_beta split: if_splits)
qed simp

lemma RegisterDatabaseWorker_spec:
  assumes "RegisterDatabaseWorker env db s = (hdl, s')"
  shows "la_WorkerLedger s' = la_WorkerLedger s" and "la_OrphanCandidates s' = la_OrphanCandidates s"
    and "la_events s' = la_events s @ (case hdl of None \<Rightarrow> [] | Some x \<Rightarrow> [Register_worker (dr_dbOid db) x])"
    and "OidIsValid d \<Longrightarrow> keeps d (la_shmem s) (la_shmem s')"
proof -
  have res: "keeps d h (snd (VamanaWorkerReserveSlotOrLog d' h))" if "OidIsValid d" for d' h
    using keeps_reserve [OF that, of h d'] by (simp add: VamanaWorkerReserveSlotOrLog_def case_prod_beta)
  have "keeps d h (VamanaWorkerBackoffStampAttempt d' t (snd (VamanaWorkerReserveSlotOrLog d' h)))" if "OidIsValid d" for d' t h
    by (rule keeps_trans [OF res [OF that] keeps_tenants [OF tenants_kept(1)]])
  then show "OidIsValid d \<Longrightarrow> keeps d (la_shmem s) (la_shmem s')"
    using assms res by (auto simp: RegisterDatabaseWorker_def Let_def case_prod_beta split: if_splits option.splits)
qed (use assms in \<open>auto simp: RegisterDatabaseWorker_def Let_def case_prod_beta split: if_splits option.splits\<close>)

text \<open>Only a stopped worker is replaced.\<close>

lemma converge_worker_spec:
  assumes "converge_worker env rows w s = (w', s')"
  shows "lw_dbOid w' = lw_dbOid w" and "la_WorkerLedger s' = la_WorkerLedger s" and "la_OrphanCandidates s' = la_OrphanCandidates s"
    and "registrations d (la_events s') \<le> registrations d (la_events s) +
      (if lw_dbOid w = d \<and> le_status_convergence env (lw_handle w) = BGWH_STOPPED \<and> IsDatabaseEnabled rows d then 1 else 0)"
    and "OidIsValid d \<Longrightarrow> keeps d (la_shmem s) (la_shmem s')"
proof -
  have "lw_dbOid w' = lw_dbOid w \<and> la_WorkerLedger s' = la_WorkerLedger s \<and> la_OrphanCandidates s' = la_OrphanCandidates s \<and>
    registrations d (la_events s') \<le> registrations d (la_events s) +
      (if lw_dbOid w = d \<and> le_status_convergence env (lw_handle w) = BGWH_STOPPED \<and> IsDatabaseEnabled rows d then 1 else 0) \<and>
    (OidIsValid d \<longrightarrow> keeps d (la_shmem s) (la_shmem s'))"
  proof (cases "FindEnabledDatabase rows (lw_dbOid w)")
    case (Some db)
    then have db: "dr_dbOid db = lw_dbOid w" using FindEnabled_db by blast
    obtain action st where a: "VamanaRestartStateAdvance (le_clock env) (le_stop_timeout_ms env) (lw_restart_state w)
        (dr_restart_generation db) (le_status_convergence env (lw_handle w)) (le_now env) = (action, st)" by fastforce
    let ?w = "w\<lparr>lw_restart_state := st\<rparr>"
    have run: "ExecuteRestartAction env action ?w db s = (w', s')" using assms Some a by (simp add: converge_worker_def)
    show ?thesis
    proof (cases "action = RESTART_RESPAWN")
      case True
      then have stop: "le_status_convergence env (lw_handle w) = BGWH_STOPPED"
        using a by (auto simp: VamanaRestartStateAdvance_def Let_def split: if_splits)
      obtain hdl s1 where r: "RegisterDatabaseWorker env db s = (hdl, s1)" by fastforce
      note spec = RegisterDatabaseWorker_spec [OF r]
      have served: "OidIsValid d \<Longrightarrow> keeps d (la_shmem s) (VamanaWorkerSetServicedRestartGeneration d' g (la_shmem s1))" for d' g
        using keeps_trans [OF spec(4) keeps_tenants [OF tenants_kept(2)]] by blast
      have regs: "registrations d (la_events s1) \<le> registrations d (la_events s) +
          (if lw_dbOid w = d \<and> le_status_convergence env (lw_handle w) = BGWH_STOPPED \<and> IsDatabaseEnabled rows d then 1 else 0)"
        using Some by (cases hdl) (auto simp: spec(3) db stop IsDatabaseEnabled_def)
      show ?thesis
      proof (cases hdl)
        case None
        then have "w' = ?w" "s' = s1" using run True r by (simp_all add: ExecuteRestartAction_def RespawnWorker_def)
        then show ?thesis using spec(1,2,4) regs by simp
      next
        case (Some x)
        then obtain g where "lw_dbOid w' = lw_dbOid w" "s' = on_shmem (VamanaWorkerSetServicedRestartGeneration (dr_dbOid db) g) s1"
          using run True r by (auto simp: ExecuteRestartAction_def RespawnWorker_def Let_def)
        then show ?thesis using regs by (simp add: spec(1,2) served)
      qed
    next
      case False
      have "ExecuteRestartAction env action ?w db s \<in> {(?w, s), (?w, emit [Terminate_worker (lw_handle w)] s), (?w, emit [Warn_stop_timeout (dr_dbOid db)] s)}"
        using False by (cases action) (simp_all add: ExecuteRestartAction_def)
      then have "w' = ?w" "s' = s \<or> s' = emit [Terminate_worker (lw_handle w)] s \<or> s' = emit [Warn_stop_timeout (dr_dbOid db)] s"
        unfolding run insert_iff prod.inject by blast+
      then show ?thesis by (elim disjE) simp_all
    qed
  next
    case None
    then have "w' = w" "s' = s" using assms by (simp_all add: converge_worker_def)
    then show ?thesis by simp
  qed
  then show "lw_dbOid w' = lw_dbOid w" "la_WorkerLedger s' = la_WorkerLedger s" "la_OrphanCandidates s' = la_OrphanCandidates s"
    "registrations d (la_events s') \<le> registrations d (la_events s) +
      (if lw_dbOid w = d \<and> le_status_convergence env (lw_handle w) = BGWH_STOPPED \<and> IsDatabaseEnabled rows d then 1 else 0)"
    "OidIsValid d \<Longrightarrow> keeps d (la_shmem s) (la_shmem s')" by blast+
qed

lemma converge_workers_spec:
  assumes "converge_workers env rows ws s = (ws', s')"
  shows "map lw_dbOid ws' = map lw_dbOid ws" and "la_WorkerLedger s' = la_WorkerLedger s" and "la_OrphanCandidates s' = la_OrphanCandidates s"
    and "OidIsValid d \<Longrightarrow> keeps d (la_shmem s) (la_shmem s')"
    and "registrations d (la_events s') \<le> registrations d (la_events s) + length (filter (\<lambda>w. lw_dbOid w = d \<and>
      le_status_convergence env (lw_handle w) = BGWH_STOPPED \<and> IsDatabaseEnabled rows d) ws)"
proof -
  have "map lw_dbOid ws' = map lw_dbOid ws \<and> la_WorkerLedger s' = la_WorkerLedger s \<and> la_OrphanCandidates s' = la_OrphanCandidates s \<and>
    (OidIsValid d \<longrightarrow> keeps d (la_shmem s) (la_shmem s')) \<and>
    registrations d (la_events s') \<le> registrations d (la_events s) + length (filter (\<lambda>w. lw_dbOid w = d \<and>
      le_status_convergence env (lw_handle w) = BGWH_STOPPED \<and> IsDatabaseEnabled rows d) ws)"
    using assms
  proof (induction ws arbitrary: ws' s)
    case (Cons w ws)
    obtain w1 s1 where c: "converge_worker env rows w s = (w1, s1)" by fastforce
    obtain ws1 s2 where r: "converge_workers env rows ws s1 = (ws1, s2)" by fastforce
    have eq: "ws' = w1 # ws1" "s' = s2" using Cons.prems c r by simp_all
    let ?P = "\<lambda>w. lw_dbOid w = d \<and> le_status_convergence env (lw_handle w) = BGWH_STOPPED \<and> IsDatabaseEnabled rows d"
    note IH = Cons.IH [OF r [folded eq(2)]]
    have "length (filter ?P (w # ws)) = (if ?P w then 1 else 0) + length (filter ?P ws)" by simp
    then have "registrations d (la_events s') \<le> registrations d (la_events s) + length (filter ?P (w # ws))"
      using converge_worker_spec(4) [OF c, of d] IH by linarith
    moreover have "OidIsValid d \<longrightarrow> keeps d (la_shmem s) (la_shmem s')"
      using converge_worker_spec(5) [OF c, of d] IH keeps_trans by blast
    ultimately show ?case using converge_worker_spec(1-3) [OF c] IH eq by simp
  qed simp
  then show "map lw_dbOid ws' = map lw_dbOid ws" "la_WorkerLedger s' = la_WorkerLedger s" "la_OrphanCandidates s' = la_OrphanCandidates s"
    "OidIsValid d \<Longrightarrow> keeps d (la_shmem s) (la_shmem s')"
    "registrations d (la_events s') \<le> registrations d (la_events s) + length (filter (\<lambda>w. lw_dbOid w = d \<and>
      le_status_convergence env (lw_handle w) = BGWH_STOPPED \<and> IsDatabaseEnabled rows d) ws)" by blast+
qed

lemma unledgered_quiet: "quiet rows d s (snd (ReconcileUnledgeredWorkers env rows reserved s))"
proof -
  have "quiet rows d (snd ns) (snd (stop_unledgered env rows x ns))" for x ns
    by (cases ns) (auto simp: stop_unledgered_def Let_def quiet_def intro!: keeps_tenants tenants_put split: option.split)
  then have "quiet rows d (snd (n, s)) (snd (fold (stop_unledgered env rows) reserved (n, s)))" for n
    by (rule quiet_fold [where g = snd])
  then show ?thesis by (simp add: ReconcileUnledgeredWorkers_def)
qed

lemma release_orphan_quiet: "quiet rows d (snd ns) (snd (release_orphan env rows x ns))"
proof (cases "FindDatabaseRow rows x")
  case None
  have rel: "quiet rows d s ((on_shmem (VamanaWorkerReleaseSlot x) (DropSlotsAbandonedByStoppedWorker x s))\<lparr>la_OrphanCandidates := cs\<rparr>)" for s cs
  proof -
    have "quiet rows d s (on_shmem (VamanaWorkerReleaseSlot x) (DropSlotsAbandonedByStoppedWorker x s))"
      by (rule quiet_trans [OF quiet_drops quiet_shmem], rule keeps_release) (use None in \<open>auto simp: configured_def\<close>)
    then show ?thesis by (simp add: quiet_def)
  qed
  obtain n s where ns: "ns = (n, s)" by fastforce
  obtain c s1 where c: "(case find (\<lambda>c. oc_dbOid c = x) (la_OrphanCandidates s) of Some c \<Rightarrow> (c, s)
      | None \<Rightarrow> let c = \<lparr>oc_dbOid = x, oc_firstSeenOrphaned = le_now env\<rparr> in (c, s\<lparr>la_OrphanCandidates := la_OrphanCandidates s @ [c]\<rparr>)) = (c, s1)"
    by fastforce
  have "quiet rows d s s1" using c by (auto simp: quiet_def Let_def split: option.splits)
  then show ?thesis
    using None c quiet_trans [OF _ rel, of s s1] by (simp add: ns release_orphan_def Let_def)
qed (simp add: release_orphan_def case_prod_beta)

lemma orphans_quiet: "quiet rows d s (snd (ReleaseOrphanedReservedSlots env rows reserved s))"
proof -
  have "quiet rows d (snd (n, s\<lparr>la_OrphanCandidates := cs\<rparr>)) (snd (fold (release_orphan env rows) reserved (n, s\<lparr>la_OrphanCandidates := cs\<rparr>)))" for n cs
    by (rule quiet_fold [where g = snd]) (rule release_orphan_quiet)
  then show ?thesis by (simp add: ReleaseOrphanedReservedSlots_def quiet_def)
qed

lemma same_blocks_tenants: "same_blocks h h' \<Longrightarrow> tenants h' = tenants h"
  using same_blocksD(1,2) same_blocks_length by (intro nth_equalityI) (fastforce simp: tenants_def)+

lemma search_grants_tenants: "tenants (snd (fold (publish_search_grant entries) gs (l, h))) = tenants h"
proof (induction gs arbitrary: l h)
  case (Cons g gs)
  obtain l' h' where p: "publish_search_grant entries g (l, h) = (l', h')" by fastforce
  have "tenants h' = tenants h"
    using publish_search_grant_eq [of entries g l h] p by (auto simp: tenants_put split: option.splits)
  then show ?case using Cons.IH [of l' h'] p by simp
qed simp

lemma publish_cpu_spec:
  shows "la_WorkerLedger (publish_cpu env rows s) = la_WorkerLedger s"
    and "registrations d (la_events (publish_cpu env rows s)) = registrations d (la_events s)"
    and "(\<And>h. keeps d h (cy_others env h)) \<Longrightarrow> keeps d (la_shmem s) (la_shmem (publish_cpu env rows s))"
proof -
  obtain l w x h' where run: "PublishCpuGrants (cy_qsort env) (cy_cpu_gucs env) (le_pg (cy_le env)) (cy_RecoveryInProgress env)
      (cy_others env) rows (la_shmem s) = (l, w, x, h')" by (metis prod.collapse)
  show "la_WorkerLedger (publish_cpu env rows s) = la_WorkerLedger s"
    "registrations d (la_events (publish_cpu env rows s)) = registrations d (la_events s)"
    by (simp_all add: publish_cpu_def run)
  assume others: "\<And>h. keeps d h (cy_others env h)"
  obtain h1 g l2 entries where st: "same_blocks (la_shmem s) h1"
      "same_blocks (snd (fold (publish_search_grant entries) g (l2, cy_others env h1))) h'"
    by (rule PublishCpuGrants_steps [OF run]) (rule that)
  have "tenants h' = tenants (cy_others env h1)"
    unfolding same_blocks_tenants [OF st(2)] by (rule search_grants_tenants)
  then have "keeps d (la_shmem s) h1" "keeps d (cy_others env h1) h'"
    by (simp_all add: keeps_tenants same_blocks_tenants [OF st(1)])
  then have "keeps d (la_shmem s) h'" using others [of h1] keeps_trans by blast
  then show "keeps d (la_shmem s) (la_shmem (publish_cpu env rows s))" by (simp add: publish_cpu_def run)
qed

lemma tenants_total [simp]: "tenants (h\<lparr>hd_totalResidencyCommittedGlobal := x\<rparr>) = tenants h"
  by (simp add: tenants_def)

lemma memory_tenants: "tenants (PublishMemoryOverrides env rows h) = tenants h"
proof -
  have "tenants (ReconcileResidencyAdmission env d h) = tenants h" for d h
    by (auto simp: ReconcileResidencyAdmission_def SvsMemoryAdmitDatabase_def Let_def tenants_put split: option.split sum.split)
  then have "tenants (fold (\<lambda>db h. ReconcileResidencyAdmission env (dr_dbOid db)
      (VamanaWorkerSetMemoryOverrides (dr_dbOid db) (mc_residencyMemoryMbOverride (dr_memory db)) (mc_searchWorkMemMbOverride (dr_memory db)) h)) rs h) = tenants h" for rs
    by (induction rs arbitrary: h) (simp_all add: tenants_kept)
  then show ?thesis by (simp add: PublishMemoryOverrides_def)
qed

section \<open>Spawning\<close>

definition same_block :: "oid \<Rightarrow> VamanaWorkerShmemHeader \<Rightarrow> VamanaWorkerShmemHeader \<Rightarrow> bool" where
  "same_block d h h' \<longleftrightarrow> VamanaWorkerFindSlot h' d = VamanaWorkerFindSlot h d \<and>
     (\<forall>i. VamanaWorkerFindSlot h d = Some i \<longrightarrow> hd_slots h' ! i = hd_slots h ! i)"

lemma same_block_refl [simp]: "same_block d h h"
  by (simp add: same_block_def)

lemma same_block_trans: "same_block d a b \<Longrightarrow> same_block d b c \<Longrightarrow> same_block d a c"
  by (auto simp: same_block_def)

lemma same_block_put:
  assumes "VamanaWorkerFindSlot h d' = Some e" and "d' \<noteq> d" and "ws_dbOid w = d'"
  shows "same_block d h (put_entry h e w)"
  using put_other [of h e d w "put_entry h e w"] VamanaWorkerFindSlot_SomeD(2) [OF assms(1)] assms(2,3)
  by (simp add: same_block_def)

lemma same_block_stamp: "d' \<noteq> d \<Longrightarrow> same_block d h (VamanaWorkerBackoffStampAttempt d' t h)"
  using VamanaWorkerFindSlot_SomeD(2) [of h d']
  by (auto simp: VamanaWorkerBackoffStampAttempt_def Let_def intro!: same_block_put split: option.split)

lemma same_block_serviced: "d' \<noteq> d \<Longrightarrow> same_block d h (VamanaWorkerSetServicedRestartGeneration d' g h)"
  using VamanaWorkerFindSlot_SomeD(2) [of h d']
  by (auto simp: VamanaWorkerSetServicedRestartGeneration_def intro!: same_block_put split: option.split)

lemma same_block_reserve: "OidIsValid d \<Longrightarrow> d' \<noteq> d \<Longrightarrow> same_block d h (snd (VamanaWorkerReserveSlotOrLog d' h))"
  using reserve_other [of d d' h] by (auto simp: same_block_def VamanaWorkerReserveSlotOrLog_def case_prod_beta)

text \<open>The table can only get fuller.\<close>

lemma reserve_full:
  assumes "VamanaWorkerFindSlot h 0 = None"
  shows "snd (VamanaWorkerReserveSlotOrLog d h) = h"
  using assms by (auto simp: VamanaWorkerReserveSlotOrLog_def VamanaWorkerReserveSlot_def split: option.splits)

lemma SpawnWorker_cases:
  obtains (refused) "SpawnWorker env db s = s\<lparr>la_shmem := snd (VamanaWorkerReserveSlotOrLog (dr_dbOid db) (la_shmem s))\<rparr>"
      "le_register env (dr_dbOid db) = None \<or> VamanaWorkerFindSlot (la_shmem s) (dr_dbOid db) = None \<and> VamanaWorkerFindSlot (la_shmem s) 0 = None"
    | (spawned) hdl w where "lw_dbOid w = dr_dbOid db"
      "SpawnWorker env db s = \<lparr>la_WorkerLedger = la_WorkerLedger s @ [w], la_OrphanCandidates = la_OrphanCandidates s,
         la_shmem = VamanaWorkerSetServicedRestartGeneration (dr_dbOid db) (dr_restart_generation db)
           (VamanaWorkerBackoffStampAttempt (dr_dbOid db) (le_now env) (snd (VamanaWorkerReserveSlotOrLog (dr_dbOid db) (la_shmem s)))),
         la_events = la_events s @ [Register_worker (dr_dbOid db) hdl]\<rparr>"
proof (cases "fst (VamanaWorkerReserveSlotOrLog (dr_dbOid db) (la_shmem s))")
  case True
  show thesis
  proof (cases "le_register env (dr_dbOid db)")
    case None
    then show thesis using True by (intro refused) (simp_all add: SpawnWorker_def RegisterDatabaseWorker_def case_prod_beta Let_def)
  next
    case (Some hdl)
    then show thesis
      using True by (intro spawned [of "\<lparr>lw_dbOid = dr_dbOid db, lw_handle = hdl, lw_started_time = 0,
        lw_restart_state = \<lparr>rs_restarting = False, rs_serviced_generation = dr_restart_generation db,
          rs_target_generation = dr_restart_generation db, rs_wait_started = 0\<rparr>\<rparr>" hdl])
        (simp_all add: SpawnWorker_def RegisterDatabaseWorker_def case_prod_beta Let_def on_shmem_def emit_def)
  qed
next
  case False
  then have "VamanaWorkerFindSlot (la_shmem s) (dr_dbOid db) = None \<and> VamanaWorkerFindSlot (la_shmem s) 0 = None"
    by (auto simp: VamanaWorkerReserveSlotOrLog_def VamanaWorkerReserveSlot_def Let_def split: option.splits)
  then show thesis
    using False by (intro refused) (simp_all add: SpawnWorker_def RegisterDatabaseWorker_def case_prod_beta Let_def)
qed

lemma SpawnWorker_keeps: "OidIsValid d \<Longrightarrow> keeps d (la_shmem s) (la_shmem (SpawnWorker env db s))"
proof (cases rule: SpawnWorker_cases [of env db s])
  case refused
  then show "OidIsValid d \<Longrightarrow> ?thesis"
    using keeps_reserve [of d "la_shmem s" "dr_dbOid db"] by (simp add: VamanaWorkerReserveSlotOrLog_def case_prod_beta)
next
  case (spawned hdl w)
  assume "OidIsValid d"
  then have "keeps d (la_shmem s) (snd (VamanaWorkerReserveSlotOrLog (dr_dbOid db) (la_shmem s)))"
    using keeps_reserve [of d "la_shmem s" "dr_dbOid db"] by (simp add: VamanaWorkerReserveSlotOrLog_def case_prod_beta)
  then show ?thesis
    unfolding spawned(2) launcher.simps
    by (rule keeps_trans) (rule keeps_tenants, simp add: tenants_kept)
qed

lemma SpawnWorker_other:
  assumes "OidIsValid d" and "dr_dbOid db \<noteq> d"
  shows "same_block d (la_shmem s) (la_shmem (SpawnWorker env db s))"
proof (cases rule: SpawnWorker_cases [of env db s])
  case refused
  then show ?thesis using same_block_reserve [OF assms] by simp
next
  case (spawned hdl w)
  then show ?thesis
    using same_block_trans [OF same_block_trans [OF same_block_reserve [OF assms] same_block_stamp [OF assms(2)]] same_block_serviced [OF assms(2)]]
    by simp
qed

lemma SpawnWorker_full:
  assumes "VamanaWorkerFindSlot (la_shmem s) 0 = None"
  shows "VamanaWorkerFindSlot (la_shmem (SpawnWorker env db s)) d = VamanaWorkerFindSlot (la_shmem s) d"
  by (cases rule: SpawnWorker_cases [of env db s]) (simp_all add: reserve_full [OF assms] find_kept)

text \<open>The databases with a ledger entry.\<close>

definition tracked :: "launcher \<Rightarrow> oid list" where
  "tracked s = map lw_dbOid (la_WorkerLedger s)"

lemma FindLedger_None: "FindLedgerEntry (la_WorkerLedger s) d = None \<longleftrightarrow> d \<notin> set (tracked s)"
  by (auto simp: FindLedgerEntry_def find_None_iff tracked_def)

text \<open>
  Nothing is left to do for a database: it has a ledger entry or a live worker, it waits for its
  backoff to end and the launcher wakes up by then, or it cannot be served.
\<close>

definition attended :: "launcher_env \<Rightarrow> oid \<Rightarrow> int \<Rightarrow> launcher \<Rightarrow> bool" where
  "attended env d naptime s \<longleftrightarrow>
     d \<in> set (tracked s) \<or>
     (case VamanaWorkerFindSlot (la_shmem s) d of
        None \<Rightarrow> VamanaWorkerFindSlot (la_shmem s) InvalidOid = None
      | Some e \<Rightarrow> VamanaWorkerEntryIsLive (le_pg env) (hd_slots (la_shmem s) ! e) \<or>
          (let remaining = BackoffRemainingMs (le_clock env) (le_restart_backoff env) (ws_backoff (hd_slots (la_shmem s) ! e)) (le_now env)
           in 0 < remaining \<and> naptime \<le> remaining)) \<or>
     le_register env d = None"

lemma spawn_missing_cases:
  obtains (idle) n' where "spawn_missing env db (n, s) = (n', s)" "n' \<le> n" "attended env (dr_dbOid db) n' s"
    | (spawn) "spawn_missing env db (n, s) = (n, SpawnWorker env db s)" "dr_dbOid db \<notin> set (tracked s)"
proof (cases "dr_dbOid db \<in> set (tracked s)")
  case True
  then show thesis
    using FindLedger_None [of s "dr_dbOid db"] by (intro idle [of n]) (auto simp: spawn_missing_def attended_def)
next
  case False
  then have new: "FindLedgerEntry (la_WorkerLedger s) (dr_dbOid db) = None" by (simp add: FindLedger_None)
  show thesis
  proof (cases "VamanaWorkerFindSlot (la_shmem s) (dr_dbOid db)")
    case None
    then show thesis
      using new False by (intro spawn) (simp_all add: spawn_missing_def VamanaWorkerLookupSlot_def VamanaWorkerBackoffSnapshot_def BackoffRemainingMs_def)
  next
    case (Some e)
    let ?r = "BackoffRemainingMs (le_clock env) (le_restart_backoff env) (ws_backoff (hd_slots (la_shmem s) ! e)) (le_now env)"
    show thesis
    proof (cases "VamanaWorkerEntryIsLive (le_pg env) (hd_slots (la_shmem s) ! e)")
      case True
      then show thesis
        using new Some by (intro idle [of n]) (simp_all add: spawn_missing_def VamanaWorkerLookupSlot_def attended_def)
    next
      case dead: False
      show thesis
      proof (cases "?r \<le> 0")
        case True
        then show thesis
          using new Some dead False by (intro spawn) (simp_all add: spawn_missing_def VamanaWorkerLookupSlot_def VamanaWorkerBackoffSnapshot_def)
      next
        case False
        then show thesis
          using new Some dead by (intro idle [of "min n ?r"])
            (simp_all add: spawn_missing_def VamanaWorkerLookupSlot_def VamanaWorkerBackoffSnapshot_def attended_def Let_def)
      qed
    qed
  qed
qed

lemma spawn_attends:
  assumes "spawn_missing env db (n, s) = (n', s')"
  shows "attended env (dr_dbOid db) n' s'"
proof (cases rule: spawn_missing_cases [of env db n s])
  case (idle n')
  then show ?thesis using assms by simp
next
  case spawn
  then have s': "s' = SpawnWorker env db s" using assms by simp
  show ?thesis
  proof (cases rule: SpawnWorker_cases [of env db s])
    case refused
    then show ?thesis
      using reserve_full [of "la_shmem s" "dr_dbOid db"] by (auto simp: s' attended_def)
  next
    case (spawned hdl w)
    then show ?thesis by (simp add: s' attended_def tracked_def)
  qed
qed

lemma spawn_grows:
  assumes "spawn_missing env db (n, s) = (n', s')"
  shows "n' \<le> n" and "OidIsValid d \<Longrightarrow> keeps d (la_shmem s) (la_shmem s')"
    and "\<exists>new. tracked s' = tracked s @ new \<and> set new \<subseteq> {dr_dbOid db} - set (tracked s) \<and> distinct new \<and>
      registrations d (la_events s') = registrations d (la_events s) + (if d \<in> set new then 1 else 0)"
proof -
  have "n' \<le> n \<and> (OidIsValid d \<longrightarrow> keeps d (la_shmem s) (la_shmem s')) \<and>
    (\<exists>new. tracked s' = tracked s @ new \<and> set new \<subseteq> {dr_dbOid db} - set (tracked s) \<and> distinct new \<and>
      registrations d (la_events s') = registrations d (la_events s) + (if d \<in> set new then 1 else 0))"
  proof (cases rule: spawn_missing_cases [of env db n s])
    case (idle n2)
    then show ?thesis using assms by simp
  next
    case spawn
    then have s': "s' = SpawnWorker env db s" "n' = n" using assms by simp_all
    show ?thesis
    proof (cases rule: SpawnWorker_cases [of env db s])
      case refused
      then show ?thesis using SpawnWorker_keeps [of d s env db] by (simp add: s' tracked_def)
    next
      case (spawned hdl w)
      have "tracked s' = tracked s @ [dr_dbOid db] \<and>
          registrations d (la_events s') = registrations d (la_events s) + (if d \<in> set [dr_dbOid db] then 1 else 0)"
        using spawned by (simp add: s' tracked_def)
      then show ?thesis using SpawnWorker_keeps [of d s env db] spawn(2) s' by (intro conjI exI [of _ "[dr_dbOid db]"]) auto
    qed
  qed
  then show "n' \<le> n" "OidIsValid d \<Longrightarrow> keeps d (la_shmem s) (la_shmem s')"
    "\<exists>new. tracked s' = tracked s @ new \<and> set new \<subseteq> {dr_dbOid db} - set (tracked s) \<and> distinct new \<and>
      registrations d (la_events s') = registrations d (la_events s) + (if d \<in> set new then 1 else 0)" by blast+
qed

lemma attended_other:
  assumes "attended env d n s" and "spawn_missing env db (n, s) = (n', s')" and "OidIsValid d" and "dr_dbOid db \<noteq> d"
  shows "attended env d n' s'"
proof (cases rule: spawn_missing_cases [of env db n s])
  case (idle n2)
  then show ?thesis using assms(1,2) by (auto simp: attended_def Let_def split: option.splits)
next
  case spawn
  then have s': "s' = SpawnWorker env db s" "n' = n" using assms(2) by simp_all
  have same: "same_block d (la_shmem s) (la_shmem s')" unfolding s' by (rule SpawnWorker_other [OF assms(3,4)])
  obtain new where "tracked s' = tracked s @ new" using spawn_grows(3) [OF assms(2)] by blast
  then have "set (tracked s) \<subseteq> set (tracked s')" by simp
  then show ?thesis
    using assms(1) same SpawnWorker_full [of s env db 0] unfolding s'(2)
    by (cases "VamanaWorkerFindSlot (la_shmem s) d") (auto simp: attended_def same_block_def s'(1))
qed

lemma spawns_attend:
  assumes "distinct (map dr_dbOid rows)" and "list_all (\<lambda>db. OidIsValid (dr_dbOid db)) rows"
    and "fold (spawn_missing env) rows (n, s) = (n', s')"
  shows "\<forall>db \<in> set rows. attended env (dr_dbOid db) n' s'"
proof -
  have other: "attended env d n2 s2" if "attended env d n1 s1" "fold (spawn_missing env) rs (n1, s1) = (n2, s2)" "OidIsValid d" "d \<notin> dr_dbOid ` set rs"
    for d n1 s1 n2 s2 rs
    using that
  proof (induction rs arbitrary: n1 s1)
    case (Cons r rs)
    obtain n3 s3 where st: "spawn_missing env r (n1, s1) = (n3, s3)" by fastforce
    show ?case
      by (rule Cons.IH [OF attended_other [OF Cons.prems(1) st Cons.prems(3)]]) (use Cons.prems st in auto)
  qed simp
  show ?thesis
    using assms
  proof (induction rows arbitrary: n s)
    case (Cons r rs)
    obtain n3 s3 where st: "spawn_missing env r (n, s) = (n3, s3)" by fastforce
    have "attended env (dr_dbOid r) n' s'"
      by (rule other [OF spawn_attends [OF st]]) (use Cons.prems st in auto)
    then show ?case using Cons.IH [of n3 s3] Cons.prems st by auto
  qed simp
qed

lemma spawns_grow:
  assumes "fold (spawn_missing env) rows (n, s) = (n', s')"
  shows "n' \<le> n \<and> (OidIsValid d \<longrightarrow> keeps d (la_shmem s) (la_shmem s')) \<and>
    (\<exists>new. tracked s' = tracked s @ new \<and> set new \<subseteq> dr_dbOid ` set rows - set (tracked s) \<and> distinct new \<and>
      registrations d (la_events s') = registrations d (la_events s) + (if d \<in> set new then 1 else 0))"
  using assms
proof (induction rows arbitrary: n s)
  case (Cons r rs)
  obtain n1 s1 where st: "spawn_missing env r (n, s) = (n1, s1)" by fastforce
  then have "fold (spawn_missing env) rs (n1, s1) = (n', s')" using Cons.prems by simp
  note IH = Cons.IH [OF this] and g = spawn_grows [OF st]
  obtain new1 where new1: "tracked s1 = tracked s @ new1" "set new1 \<subseteq> {dr_dbOid r} - set (tracked s)" "distinct new1"
      "registrations d (la_events s1) = registrations d (la_events s) + (if d \<in> set new1 then 1 else 0)" using g(3) by blast
  obtain new2 where new2: "tracked s' = tracked s1 @ new2" "set new2 \<subseteq> dr_dbOid ` set rs - set (tracked s1)" "distinct new2"
      "registrations d (la_events s') = registrations d (la_events s1) + (if d \<in> set new2 then 1 else 0)" using IH by blast
  have "set new1 \<inter> set new2 = {}" using new1(1) new2(2) by auto
  then have "\<exists>new. tracked s' = tracked s @ new \<and> set new \<subseteq> dr_dbOid ` set (r # rs) - set (tracked s) \<and> distinct new \<and>
      registrations d (la_events s') = registrations d (la_events s) + (if d \<in> set new then 1 else 0)"
    using new1 new2 by (intro exI [of _ "new1 @ new2"]) auto
  then show ?case using IH g(1,2) keeps_trans [of d "la_shmem s" "la_shmem s1" "la_shmem s'"] by auto
qed simp

section \<open>The passes together\<close>

text \<open>After the liveness pass, after the convergence pass, and before the spawning.\<close>

lemma cycle_passes:
  assumes "reconcile_rows env rows s = (nap, s')"
  obtains s1 s2 s3 n3 n' where
    "map (\<lambda>w. (lw_dbOid w, lw_handle w)) (la_WorkerLedger s1) =
       map (\<lambda>w. (lw_dbOid w, lw_handle w)) (filter (\<lambda>w. \<not> settled (cy_le env) rows w) (la_WorkerLedger s))"
    "registrations d (la_events s1) = registrations d (la_events s)" "configured rows d \<longrightarrow> keeps d (la_shmem s) (la_shmem s1)"
    "tracked s2 = tracked s1" "OidIsValid d \<longrightarrow> keeps d (la_shmem s1) (la_shmem s2)"
    "registrations d (la_events s2) \<le> registrations d (la_events s1) + length (filter (\<lambda>w. lw_dbOid w = d \<and>
       le_status_convergence (cy_le env) (lw_handle w) = BGWH_STOPPED \<and> IsDatabaseEnabled rows d) (la_WorkerLedger s1))"
    "la_WorkerLedger s3 = la_WorkerLedger s2" "registrations d (la_events s3) = registrations d (la_events s2)"
    "(\<forall>h. keeps d h (cy_others env h)) \<and> configured rows d \<longrightarrow> keeps d (la_shmem s2) (la_shmem s3)" "n3 \<le> VAMANA_LAUNCHER_NAPTIME_MS"
    "fold (spawn_missing (cy_le env)) (EnabledRowsOf rows) (n3, s3) = (n', s')" "nap = max n' VAMANA_LAUNCHER_MIN_NAPTIME_MS"
proof -
  define s0 where "s0 = on_shmem (PublishEnabledState rows) s"
  define s1 where "s1 = ReconcileLedgerLiveness (cy_le env) rows s0"
  define s1t where "s1t = TerminateDisabledWorkers (cy_le env) rows s1"
  define s2 where "s2 = (if la_WorkerLedger s1t \<noteq> [] then ReconcileRestartConvergence (cy_le env) rows s1t else s1t)"
  define reserved where "reserved = VamanaWorkerForEachReserved CollectReservedDbOids [] (la_shmem s2)"
  obtain nap1 s2u where u: "ReconcileUnledgeredWorkers (cy_le env) rows reserved s2 = (nap1, s2u)" by fastforce
  obtain nap2 s2o where o: "ReleaseOrphanedReservedSlots (cy_le env) rows reserved s2u = (nap2, s2o)" by fastforce
  define s3 where "s3 = on_shmem (PublishMemoryOverrides env rows) (publish_cpu env rows s2o)"
  define n3 where "n3 = min (min VAMANA_LAUNCHER_NAPTIME_MS nap1) nap2"
  obtain n' where n': "fold (spawn_missing (cy_le env)) (EnabledRowsOf rows) (n3, s3) = (n', s')" "nap = max n' VAMANA_LAUNCHER_MIN_NAPTIME_MS"
    using assms(1) unfolding reconcile_rows_def Let_def s0_def [symmetric] s1_def [symmetric] s1t_def [symmetric]
      s2_def [symmetric] reserved_def [symmetric] u o prod.case s3_def [symmetric] n3_def [symmetric]
    by (auto split: prod.splits)
  obtain ledger s1' where l: "settle_workers (cy_le env) rows (la_WorkerLedger s0) s0 = (ledger, s1')" by fastforce
  have s1: "s1 = s1'\<lparr>la_WorkerLedger := ledger\<rparr>" by (simp add: s1_def ReconcileLedgerLiveness_def l)
  have q1: "quiet rows d s0 s1'" using settle_workers_quiet [of rows d s0 "cy_le env"] l by (metis snd_conv)
  have p1: "map (\<lambda>w. (lw_dbOid w, lw_handle w)) (la_WorkerLedger s1) =
       map (\<lambda>w. (lw_dbOid w, lw_handle w)) (filter (\<lambda>w. \<not> settled (cy_le env) rows w) (la_WorkerLedger s))"
    using settle_workers_ledger [of "cy_le env" rows "la_WorkerLedger s0" s0] l by (simp add: s1 s0_def)
  have p2: "registrations d (la_events s1) = registrations d (la_events s)" using q1 by (simp add: s1 s0_def quiet_def)
  have p3: "configured rows d \<longrightarrow> keeps d (la_shmem s) (la_shmem s1)"
    using q1 keeps_trans [OF keeps_tenants [OF PublishEnabled_tenants]] unfolding quiet_def s1 s0_def by auto
  have t: "la_WorkerLedger s1t = la_WorkerLedger s1" "la_shmem s1t = la_shmem s1" "registrations d (la_events s1t) = registrations d (la_events s1)"
    by (simp_all add: s1t_def TerminateDisabledWorkers_def)
  obtain ws s2' where c: "converge_workers (cy_le env) rows (la_WorkerLedger s1t) s1t = (ws, s2')" by fastforce
  have s2: "s2 = s2'\<lparr>la_WorkerLedger := ws\<rparr>"
    using c by (cases "la_WorkerLedger s1t = []") (auto simp: s2_def ReconcileRestartConvergence_def)
  have q2: "quiet rows d s2 s2o"
    using unledgered_quiet [of rows d s2 "cy_le env" reserved] orphans_quiet [of rows d s2u "cy_le env" reserved] u o quiet_trans by auto
  note cpu = publish_cpu_spec(1) [of env rows s2o] publish_cpu_spec(2,3) [where env = env and rows = rows and s = s2o and d = d]
  have q3: "la_WorkerLedger s3 = la_WorkerLedger s2" "registrations d (la_events s3) = registrations d (la_events s2)"
    using q2 cpu(1,2) by (simp_all add: s3_def quiet_def)
  have q4: "(\<forall>h. keeps d h (cy_others env h)) \<and> configured rows d \<longrightarrow> keeps d (la_shmem s2) (la_shmem s3)"
    using q2 keeps_trans [OF cpu(3) keeps_tenants [OF memory_tenants]] keeps_trans
    unfolding quiet_def s3_def state_simps by blast
  have n3: "n3 \<le> VAMANA_LAUNCHER_NAPTIME_MS" by (simp add: n3_def)
  show thesis
    by (rule that [OF p1 p2 p3 _ _ _ q3 q4 n3 n'])
      (use converge_workers_spec(1) [OF c] converge_workers_spec(4,5) [OF c, of d] t in \<open>simp_all add: s2 tracked_def\<close>)
qed

lemma length_filter_key:
  assumes "distinct (map f xs)"
  shows "length (filter (\<lambda>x. f x = d \<and> Q x) xs) = (if \<exists>x \<in> set xs. f x = d \<and> Q x then 1 else 0)"
  using assms
proof (induction xs)
  case (Cons x xs)
  show ?case
  proof (cases "f x = d")
    case True
    then have "\<forall>y \<in> set xs. f y \<noteq> d" using Cons.prems by (auto simp: image_iff)
    then show ?thesis using True by (auto simp: filter_empty_conv)
  qed (use Cons in simp)
qed simp

section \<open>Properties\<close>


text \<open>
  C12: at most one worker per database.  A cycle leaves at most one ledger entry per database.  It registers at most one worker
  for a database, only if the database is enabled, and none if the ledger has a worker for it whose handle is still reported
  running by both passes that ask.
\<close>

theorem launcher_one_worker:
  assumes "distinct (map lw_dbOid (la_WorkerLedger s))"
    and "ReadDatabaseRows (cy_RecoveryInProgress env) (cy_lock_available env) (cy_get_database_oid env) (cy_answer env) = (ok, rows)"
    and "VamanaLauncherReconcileWorkers env s = (nap, s')"
    and "n = registrations d (la_events s') - registrations d (la_events s)"
  shows "distinct (map lw_dbOid (la_WorkerLedger s')) \<and> n \<le> 1 \<and>
    (n = 1 \<longrightarrow> IsDatabaseEnabled rows d \<and> d \<in> lw_dbOid ` set (la_WorkerLedger s')) \<and>
    (\<forall>w \<in> set (la_WorkerLedger s). lw_dbOid w = d \<and> le_status_liveness (cy_le env) (lw_handle w) \<noteq> BGWH_STOPPED \<and>
       le_status_convergence (cy_le env) (lw_handle w) \<noteq> BGWH_STOPPED \<longrightarrow> n = 0)"
proof (cases ok)
  case True
  then have run: "reconcile_rows env rows s = (nap, s')" using assms(2,3) by (simp add: VamanaLauncherReconcileWorkers_def)
  let ?P = "\<lambda>w. lw_dbOid w = d \<and> le_status_convergence (cy_le env) (lw_handle w) = BGWH_STOPPED \<and> IsDatabaseEnabled rows d"
  let ?id = "\<lambda>w. (lw_dbOid w, lw_handle w)"
  obtain s1 s2 s3 :: launcher and n3 n' where live: "map ?id (la_WorkerLedger s1) = map ?id (filter (\<lambda>w. \<not> settled (cy_le env) rows w) (la_WorkerLedger s))"
      and regs: "registrations d (la_events s1) = registrations d (la_events s)"
        "registrations d (la_events s2) \<le> registrations d (la_events s1) + length (filter ?P (la_WorkerLedger s1))"
        "registrations d (la_events s3) = registrations d (la_events s2)"
      and led: "tracked s2 = tracked s1" "la_WorkerLedger s3 = la_WorkerLedger s2"
      and spawn: "fold (spawn_missing (cy_le env)) (EnabledRowsOf rows) (n3, s3) = (n', s')"
    by (rule cycle_passes [OF run, of d]) (rule that)
  obtain new where new: "tracked s' = tracked s3 @ new" "set new \<subseteq> dr_dbOid ` set (EnabledRowsOf rows) - set (tracked s3)" "distinct new"
      "registrations d (la_events s') = registrations d (la_events s3) + (if d \<in> set new then 1 else 0)"
    using spawns_grow [OF spawn, of d] by blast
  have t3: "tracked s3 = tracked s1" using led by (simp add: tracked_def)
  have t1: "tracked s1 = map lw_dbOid (filter (\<lambda>w. \<not> settled (cy_le env) rows w) (la_WorkerLedger s))"
    using arg_cong [OF live, of "map fst"] by (simp add: tracked_def comp_def)
  have dist1: "distinct (tracked s1)" using assms(1) by (simp add: t1 distinct_map_filter)
  have key: "length (filter ?P (la_WorkerLedger s1)) = (if \<exists>w \<in> set (la_WorkerLedger s1). ?P w then 1 else 0)"
    by (rule length_filter_key) (use dist1 in \<open>simp add: tracked_def\<close>)
  have fresh: "d \<notin> set new" if "d \<in> set (tracked s1)" using new(2) that t3 by auto
  have ok: "rows_ok rows"
    using ReadDatabaseRows_ok [of "cy_RecoveryInProgress env" "cy_lock_available env" "cy_get_database_oid env" "cy_answer env"] assms(2) by simp
  have en: "IsDatabaseEnabled rows d" if "d \<in> set new"
    using new(2) that FindEnabledDatabase_unique [OF ok] by (auto simp: IsDatabaseEnabled_def)
  define A where "A \<longleftrightarrow> (\<exists>w \<in> set (la_WorkerLedger s1). ?P w)"
  have total: "registrations d (la_events s') \<le> registrations d (la_events s) + (if A then 1 else 0) + (if d \<in> set new then 1 else 0)"
    using regs new(4) key unfolding A_def by simp
  have A: "A \<Longrightarrow> d \<in> set (tracked s1) \<and> IsDatabaseEnabled rows d" unfolding A_def tracked_def by force
  have running: "\<not> A \<and> d \<in> set (tracked s1)"
    if w: "w \<in> set (la_WorkerLedger s)" "lw_dbOid w = d" "le_status_liveness (cy_le env) (lw_handle w) \<noteq> BGWH_STOPPED"
      "le_status_convergence (cy_le env) (lw_handle w) \<noteq> BGWH_STOPPED" for w
  proof -
    have "(d, lw_handle w) \<in> set (map ?id (la_WorkerLedger s1))" unfolding live using w by (auto simp: settled_def image_iff)
    then obtain v where v: "v \<in> set (la_WorkerLedger s1)" "lw_dbOid v = d" "lw_handle v = lw_handle w" by auto
    have "inj_on lw_dbOid (set (la_WorkerLedger s1))" using dist1 by (simp add: tracked_def distinct_map)
    then have "v' = v" if "v' \<in> set (la_WorkerLedger s1)" "lw_dbOid v' = d" for v'
      using inj_onD v(1,2) that by metis
    then show ?thesis using v w(4) unfolding A_def tracked_def set_map by (metis image_eqI)
  qed
  have "distinct (tracked s')" using new(1-3) dist1 t3 by auto
  moreover have "n \<le> 1" using total A fresh by (cases A; cases "d \<in> set new") (simp_all add: assms(4))
  moreover have "IsDatabaseEnabled rows d \<and> d \<in> set (tracked s')" if "n = 1"
    using total that A en by (cases A; cases "d \<in> set new") (simp_all add: assms(4) new(1) t3)
  moreover have "n = 0" if "w \<in> set (la_WorkerLedger s)" "lw_dbOid w = d" "le_status_liveness (cy_le env) (lw_handle w) \<noteq> BGWH_STOPPED"
      "le_status_convergence (cy_le env) (lw_handle w) \<noteq> BGWH_STOPPED" for w
    using total running [OF that] fresh by (simp add: assms(4))
  ultimately show ?thesis unfolding tracked_def set_map by blast
qed (use assms in \<open>auto simp: VamanaLauncherReconcileWorkers_def\<close>)

text \<open>
  C14: no enabled database is forgotten.  After a cycle every enabled database has a ledger entry, or a live worker in
  its block, or waits for its backoff and the launcher sleeps no longer than that; or the server had no background worker or
  control block left for it.  The launcher sleeps between one second and three minutes.
\<close>

theorem launcher_attends_enabled:
  assumes "ReadDatabaseRows (cy_RecoveryInProgress env) (cy_lock_available env) (cy_get_database_oid env) (cy_answer env) = (True, rows)"
    and "VamanaLauncherReconcileWorkers env s = (nap, s')" and "IsDatabaseEnabled rows d" and "le = cy_le env"
    and "le_register le d \<noteq> None" and "VamanaWorkerFindSlot (la_shmem s') d \<noteq> None \<or> VamanaWorkerFindSlot (la_shmem s') InvalidOid \<noteq> None"
  shows "VAMANA_LAUNCHER_MIN_NAPTIME_MS \<le> nap \<and> nap \<le> VAMANA_LAUNCHER_NAPTIME_MS \<and>
    (FindLedgerEntry (la_WorkerLedger s') d \<noteq> None \<or>
     (\<exists>e. VamanaWorkerFindSlot (la_shmem s') d = Some e \<and>
       (VamanaWorkerEntryIsLive (le_pg le) (hd_slots (la_shmem s') ! e) \<or>
        (\<exists>r. r = BackoffRemainingMs (le_clock le) (le_restart_backoff le) (ws_backoff (hd_slots (la_shmem s') ! e)) (le_now le) \<and>
          0 < r \<and> nap \<le> max r VAMANA_LAUNCHER_MIN_NAPTIME_MS))))"
proof -
  have run: "reconcile_rows env rows s = (nap, s')" using assms(1,2) by (simp add: VamanaLauncherReconcileWorkers_def)
  obtain s3 n3 n' where n3: "n3 \<le> VAMANA_LAUNCHER_NAPTIME_MS" and spawn: "fold (spawn_missing le) (EnabledRowsOf rows) (n3, s3) = (n', s')"
      and nap: "nap = max n' VAMANA_LAUNCHER_MIN_NAPTIME_MS"
    by (rule cycle_passes [OF run, of d]) (rule that, unfold assms(4))
  have ok: "rows_ok rows" using ReadDatabaseRows_ok [of "cy_RecoveryInProgress env" "cy_lock_available env" "cy_get_database_oid env" "cy_answer env"] assms(1) by simp
  obtain db where db: "db \<in> set (EnabledRowsOf rows)" "dr_dbOid db = d"
    using assms(3) FindEnabledDatabase_Some [of rows d] by (auto simp: IsDatabaseEnabled_def)
  have "distinct (map dr_dbOid (EnabledRowsOf rows))" "list_all (\<lambda>db. OidIsValid (dr_dbOid db)) (EnabledRowsOf rows)"
    using ok by (auto simp: rows_ok_def EnabledRowsOf_def distinct_map_filter list_all_iff)
  from spawns_attend [OF this spawn] db have att: "attended le d n' s'" by blast
  have "n' \<le> n3" using spawns_grow [OF spawn] by blast
  then have bounds: "VAMANA_LAUNCHER_MIN_NAPTIME_MS \<le> nap" "nap \<le> VAMANA_LAUNCHER_NAPTIME_MS"
    using n3 by (simp_all add: nap VAMANA_LAUNCHER_NAPTIME_MS_def VAMANA_LAUNCHER_MIN_NAPTIME_MS_def)
  show ?thesis
    using att assms(5,6) bounds unfolding attended_def FindLedger_None nap
    by (cases "VamanaWorkerFindSlot (la_shmem s') d") (auto simp: Let_def)
qed

section \<open>A block released under a draining worker\<close>

text \<open>The first step of \<open>VamanaWorkerDrainAndStop\<close>: intake closed and the pid cleared; only then come the final checkpoints.\<close>

definition VamanaWorkerStopAccepting :: "VamanaWorkerShmem \<Rightarrow> VamanaWorkerShmem" where
  "VamanaWorkerStopAccepting entry = entry\<lparr>ws_accepting := False\<rparr>"

definition drain_begins :: "nat \<Rightarrow> VamanaWorkerShmemHeader \<Rightarrow> VamanaWorkerShmemHeader" where
  "drain_begins e h = put_entry h e ((VamanaWorkerStopAccepting (hd_slots h ! e))\<lparr>ws_workerPid := 0\<rparr>)"

lemma release_block:
  assumes "VamanaWorkerFindSlot h d = Some e"
  shows "ws_dbOid (hd_slots (VamanaWorkerReleaseSlot d h) ! e) = InvalidOid" "tenant_baseline (hd_slots (VamanaWorkerReleaseSlot d h) ! e)"
proof -
  have "ws_dbOid (hd_slots (VamanaWorkerReleaseSlot d h) ! e) = InvalidOid \<and> tenant_baseline (hd_slots (VamanaWorkerReleaseSlot d h) ! e)"
  proof (cases rule: ReleaseSlot_cases [of h d])
    case (released e' entry' h')
    then have "e' = e" using assms by simp
    then show ?thesis
      using Reset_fields [OF released(2)] Reset_baseline [OF released(2)] VamanaWorkerFindSlot_SomeD(1) [OF assms] released(3) by simp
  qed (use assms in simp)
  then show "ws_dbOid (hd_slots (VamanaWorkerReleaseSlot d h) ! e) = InvalidOid" "tenant_baseline (hd_slots (VamanaWorkerReleaseSlot d h) ! e)" by simp_all
qed

text \<open>
  C35: the orphan pass does not ask the ledger.  When the row of a database was deleted and its worker began to drain, the
  block looks dead at once; as soon as the grace period is over the pass resets the block and frees it for another
  database, although the ledger still has the worker and its handle may report it running.
\<close>

theorem orphan_release_ignores_ledger:
  assumes "FindDatabaseRow rows d = None" and "OidIsValid d" and "find (\<lambda>c. oc_dbOid c = d) (la_OrphanCandidates s) = Some c"
    and "TimestampDifferenceExceeds (le_clock env) (oc_firstSeenOrphaned c) (le_now env) VAMANA_ORPHAN_SLOT_GRACE_MS"
    and "VamanaWorkerFindSlot h d = Some e" and "la_shmem s = drain_begins e h"
    and "w \<in> set (la_WorkerLedger s)" and "lw_dbOid w = d" and "release_orphan env rows d (n, s) = (n', s')"
  shows "ws_dbOid (hd_slots (la_shmem s') ! e) = InvalidOid \<and> tenant_baseline (hd_slots (la_shmem s') ! e) \<and> w \<in> set (la_WorkerLedger s')"
proof -
  have "tenants (drain_begins e h) = tenants h" by (simp add: drain_begins_def VamanaWorkerStopAccepting_def tenants_put)
  from tenants_FindSlot [OF this, of d] have slot: "VamanaWorkerFindSlot (la_shmem s) d = Some e" using assms(5,6) by simp
  have dead: "\<not> VamanaWorkerEntryIsLive (le_pg env) (hd_slots (la_shmem s) ! e)"
    using VamanaWorkerFindSlot_SomeD(1) [OF assms(5)] by (simp add: assms(6) drain_begins_def VamanaWorkerEntryIsLive_def)
  let ?s = "DropSlotsAbandonedByStoppedWorker d s"
  have "tenants (la_shmem ?s) = tenants (la_shmem s)"
    using tenants_kept(7) [of d VAMANA_MAX_SLOT_DROP_QUEUE "la_shmem s"] by (simp add: DropSlotsAbandonedByStoppedWorker_def Let_def case_prod_beta)
  from tenants_FindSlot [OF this, of d] have "VamanaWorkerFindSlot (la_shmem ?s) d = Some e" using slot by simp
  note rel = release_block [OF this]
  have "la_WorkerLedger ?s = la_WorkerLedger s" by (simp add: DropSlotsAbandonedByStoppedWorker_def case_prod_beta Let_def)
  moreover have "s' = (on_shmem (VamanaWorkerReleaseSlot d) ?s)\<lparr>la_OrphanCandidates := remove1 c (la_OrphanCandidates s)\<rparr>"
    using assms(1,3,4,9) slot dead by (simp add: release_orphan_def Let_def VamanaWorkerLookupSlot_def)
  ultimately show ?thesis using rel assms(7) by simp
qed

definition demo_drained :: launcher where
  "demo_drained = \<lparr>la_WorkerLedger = [demo_worker], la_OrphanCandidates = [\<lparr>oc_dbOid = 7, oc_firstSeenOrphaned = 1\<rparr>],
     la_shmem = drain_begins 0 demo_live, la_events = []\<rparr>"

theorem orphan_release_ignores_ledger_witness:
  "ws_dbOid (hd_slots (la_shmem (snd (release_orphan (demo_launcher_env 6000000 (\<lambda>_. BGWH_STARTED) (\<lambda>_. None)) [] 7 (180000, demo_drained)))) ! 0) = InvalidOid"
proof -
  let ?env = "demo_launcher_env 6000000 (\<lambda>_. BGWH_STARTED) (\<lambda>_. None)"
  obtain n' s' where run: "release_orphan ?env [] 7 (180000, demo_drained) = (n', s')" by fastforce
  have "find (\<lambda>c. oc_dbOid c = 7) (la_OrphanCandidates demo_drained) = Some \<lparr>oc_dbOid = 7, oc_firstSeenOrphaned = 1\<rparr>"
    "TimestampDifferenceExceeds (le_clock ?env) (oc_firstSeenOrphaned \<lparr>oc_dbOid = 7, oc_firstSeenOrphaned = 1\<rparr>) (le_now ?env) VAMANA_ORPHAN_SLOT_GRACE_MS"
    by (simp_all add: demo_drained_def demo_launcher_env_def demo_clock_def VAMANA_ORPHAN_SLOT_GRACE_MS_def)
  from orphan_release_ignores_ledger [OF _ _ this demo_publish(2) _ _ _ run, of demo_worker]
  show ?thesis unfolding run by (simp add: FindDatabaseRow_def demo_drained_def demo_worker_def)
qed

section \<open>A cycle\<close>

definition demo_cycle :: "(handle \<Rightarrow> BgwHandleStatus) \<Rightarrow> cycle_env" where
  "demo_cycle status = \<lparr>cy_le = demo_launcher_env 2000 status (\<lambda>_. Some 12), cy_RecoveryInProgress = False, cy_lock_available = True,
     cy_get_database_oid = (\<lambda>_. 7),
     cy_answer = Tuples [\<lparr>tr_datname = Some ''db'', tr_restart_generation = Some 0, tr_enabled = Some True, tr_search_num_threads = None,
       tr_search_threads_reserved = None, tr_maintenance_num_threads = None, tr_residency_memory = None, tr_search_work_mem = None\<rparr>],
     cy_qsort = insertion_qp, cy_cpu_gucs = \<lparr>searchNumThreadsDefault = 4, maxSearchThreadsPerDb = 0, maxTotalSearchThreads = 8, maxParallelWorkers = 16\<rparr>,
     cy_others = id, cy_mem_gucs = \<lparr>vamana_max_build_memory_mb = 8, vamana_max_residency_memory_mb = 8, vamana_default_residency_memory_mb = 1,
       vamana_default_search_work_mem_mb = 1, vamana_compact_threshold_pct = 0\<rparr>,
     cy_get_database_name = (\<lambda>_. None), cy_committed_bytes = (\<lambda>_. Inr 0)\<rparr>"

definition demo_table :: "VamanaDatabaseRow list" where
  "demo_table = [\<lparr>dr_dbOid = 7, dr_datname = ''db'', dr_restart_generation = 0, dr_enabled = True,
     dr_cpu = \<lparr>cc_searchNumThreads = -1, cc_searchThreadsReserved = 0, cc_maintenanceNumThreads = -1\<rparr>,
     dr_memory = \<lparr>mc_residencyMemoryMbOverride = 0, mc_searchWorkMemMbOverride = 0\<rparr>\<rparr>]"

lemma demo_read:
  "ReadDatabaseRows (cy_RecoveryInProgress (demo_cycle st)) (cy_lock_available (demo_cycle st)) (cy_get_database_oid (demo_cycle st)) (cy_answer (demo_cycle st)) = (True, demo_table)"
  by (simp add: demo_cycle_def ReadDatabaseRows_def read_row_def demo_table_def AppendDatabaseRow_def SvsResolveNullableThreadCount_def ResolveReservedFloor_def)

lemma demo_cycle_runs:
  "VamanaWorkerFindSlot (la_shmem (snd (VamanaLauncherReconcileWorkers (demo_cycle (\<lambda>_. BGWH_STARTED)) demo_launcher))) 7 = Some 0"
  by code_simp

abbreviation demo_after :: "int \<times> launcher" where
  "demo_after \<equiv> VamanaLauncherReconcileWorkers (demo_cycle (\<lambda>_. BGWH_STARTED)) demo_launcher"

lemma demo_row: "FindDatabaseRow demo_table 7 \<noteq> None" "IsDatabaseEnabled demo_table 7"
  by (simp_all add: demo_table_def FindDatabaseRow_def IsDatabaseEnabled_def FindEnabledDatabase_def)


theorem launcher_one_worker_witness: "registrations 7 (la_events (snd demo_after)) = 0"
proof -
  obtain n s where run: "demo_after = (n, s)" by fastforce
  show ?thesis
    unfolding run using launcher_one_worker [OF _ demo_read run refl, of 7]
    by (simp add: demo_launcher_def demo_worker_def demo_cycle_def demo_launcher_env_def)
qed

theorem launcher_attends_enabled_witness: "1000 \<le> fst demo_after \<and> fst demo_after \<le> 180000"
proof -
  obtain n s where run: "demo_after = (n, s)" by fastforce
  show ?thesis
    unfolding run using launcher_attends_enabled [OF demo_read run demo_row(2) refl] demo_cycle_runs [unfolded run]
    by (simp add: demo_cycle_def demo_launcher_env_def VAMANA_LAUNCHER_NAPTIME_MS_def VAMANA_LAUNCHER_MIN_NAPTIME_MS_def)
qed

end
