(* ===== verification/Memory_Lifecycle.thy ===== *)
theory Memory_Lifecycle
  imports Shmem_Queues
begin

text \<open>
  The calls of \<open>svs_memory.c\<close> in sequence: every call with the conditions its callers meet, the
  states the shared memory can reach, and what holds in all of them.
\<close>

section \<open>Calls and reachable states\<close>

datatype mem_call =
    ReserveBuild SvsMemGucs PgEnv oid oid u64 u64
  | ConfirmBuild oid oid u64 u64
  | HandoffBuild oid oid
  | AbortBuild oid oid
  | ReconcileLoad PgEnv oid oid u64 u64
  | AccountUnload oid oid
  | ReserveInsert PgEnv oid oid u64
  | ReanchorInsert oid oid u64
  | ReconcileResident oid oid u64 "u64 option"
  | CloseInsertReservation oid oid
  | AbortInsert PgEnv oid oid
  | CreditAbortedInserts SvsMemGucs oid oid u32 u64
  | ReapDeadReservations PgEnv
  | ReconcileResidentReservations oid "oid list"
  | SeedDurableResidency PgEnv oid oid u64
  | AdmitDatabase SvsMemGucs oid u64 u64
  | RestoreResidencyBudget oid u64
  | RecheckSearchScratchOptions oid oid int bool
  | SetSearchScratchBytesPerQuery oid oid u64
  | ReserveSearchScratch SvsMemGucs oid u64
  | ReleaseSearchScratch oid u64
  | ReserveSlot oid
  | ReleaseSlot oid

fun mem_exec :: "mem_call \<Rightarrow> VamanaWorkerShmemHeader \<Rightarrow> VamanaWorkerShmemHeader" where
  "mem_exec (ReserveBuild g env db rel bp est) h = snd (SvsMemoryReserveBuild g env db rel bp est h)"
| "mem_exec (ConfirmBuild db rel bp measured) h = snd (SvsMemoryConfirmBuild db rel bp measured h)"
| "mem_exec (HandoffBuild db rel) h = snd (SvsMemoryHandoffBuild db rel h)"
| "mem_exec (AbortBuild db rel) h = snd (SvsMemoryAbortBuild db rel h)"
| "mem_exec (ReconcileLoad env db rel measured headroom) h =
     snd (SvsMemoryReconcileLoad env db rel measured headroom h)"
| "mem_exec (AccountUnload db rel) h = snd (SvsMemoryAccountUnload db rel h)"
| "mem_exec (ReserveInsert env db rel delta) h = snd (SvsMemoryReserveInsert env db rel delta h)"
| "mem_exec (ReanchorInsert db rel measured) h = snd (SvsMemoryReanchorInsert db rel measured h)"
| "mem_exec (ReconcileResident db rel measured headroom) h =
     snd (SvsMemoryReconcileResident db rel measured headroom h)"
| "mem_exec (CloseInsertReservation db rel) h = snd (SvsMemoryCloseInsertReservation db rel h)"
| "mem_exec (AbortInsert env db rel) h = snd (SvsMemoryAbortInsert env db rel h)"
| "mem_exec (CreditAbortedInserts g db rel generation growth) h =
     snd (SvsMemoryCreditAbortedInserts g db rel generation growth h)"
| "mem_exec (ReapDeadReservations env) h = SvsMemoryReapDeadReservations env h"
| "mem_exec (ReconcileResidentReservations db live) h =
     snd (SvsMemoryReconcileResidentReservations db live h)"
| "mem_exec (SeedDurableResidency env db rel durable) h =
     snd (SvsMemorySeedDurableResidency env db rel durable h)"
| "mem_exec (AdmitDatabase g db budget durable) h = snd (SvsMemoryAdmitDatabase g db budget durable h)"
| "mem_exec (RestoreResidencyBudget db prior) h = SvsMemoryRestoreResidencyBudget db prior h"
| "mem_exec (RecheckSearchScratchOptions db rel win hist) h =
     SvsMemoryRecheckSearchScratchOptions db rel win hist h"
| "mem_exec (SetSearchScratchBytesPerQuery db rel bytes) h =
     SvsMemorySetSearchScratchBytesPerQuery db rel bytes h"
| "mem_exec (ReserveSearchScratch g db bytes) h = snd (SvsMemoryReserveSearchScratch g db bytes h)"
| "mem_exec (ReleaseSearchScratch db bytes) h = snd (SvsMemoryReleaseSearchScratch db bytes h)"
| "mem_exec (ReserveSlot db) h = snd (VamanaWorkerReserveSlot db h)"
| "mem_exec (ReleaseSlot db) h = VamanaWorkerReleaseSlot db h"

text \<open>
  What a caller guarantees: relation ids are valid; byte counts are those of objects in memory, so
  that adding one to a counter does not pass the 64-bit range; a build is confirmed with the peak
  it reserved; the worker loads and unloads an index only once its build handed it over, and
  inserts into it only while no build of it runs.  \<open>C\<close> is the largest value
  \<open>svs.max_build_memory\<close> had (the setting can be reloaded).
\<close>

fun mem_call_ok :: "u64 \<Rightarrow> mem_call \<Rightarrow> VamanaWorkerShmemHeader \<Rightarrow> bool" where
  "mem_call_ok C (ReserveBuild g env db rel bp est) h \<longleftrightarrow> OidIsValid rel \<and> room h db est \<and>
     no_wrap (hd_totalBuildCommittedGlobal h) bp \<and> BuildMemoryCeilingBytes g \<le> C"
| "mem_call_ok C (ConfirmBuild db rel bp measured) h \<longleftrightarrow> OidIsValid rel \<and> room h db measured \<and>
     peak_matches h db rel bp"
| "mem_call_ok C (HandoffBuild db rel) h \<longleftrightarrow> OidIsValid rel"
| "mem_call_ok C (AbortBuild db rel) h \<longleftrightarrow> OidIsValid rel"
| "mem_call_ok C (ReconcileLoad env db rel measured headroom) h \<longleftrightarrow> OidIsValid rel \<and> room h db measured \<and>
     reservation_state h db rel \<noteq> Some SVS_MEM_RESERVED"
| "mem_call_ok C (AccountUnload db rel) h \<longleftrightarrow> OidIsValid rel \<and>
     reservation_state h db rel \<noteq> Some SVS_MEM_RESERVED"
| "mem_call_ok C (ReserveInsert env db rel delta) h \<longleftrightarrow> OidIsValid rel \<and> room h db delta"
| "mem_call_ok C (ReanchorInsert db rel measured) h \<longleftrightarrow> OidIsValid rel \<and> room h db measured \<and>
     reservation_state h db rel \<noteq> Some SVS_MEM_RESERVED \<and>
     reservation_state h db rel \<noteq> Some SVS_MEM_REBUILDING"
| "mem_call_ok C (ReconcileResident db rel measured headroom) h \<longleftrightarrow> OidIsValid rel \<and> room h db measured"
| "mem_call_ok C (CloseInsertReservation db rel) h \<longleftrightarrow> OidIsValid rel"
| "mem_call_ok C (AbortInsert env db rel) h \<longleftrightarrow> OidIsValid rel"
| "mem_call_ok C (CreditAbortedInserts g db rel generation growth) h \<longleftrightarrow> OidIsValid rel"
| "mem_call_ok C (SeedDurableResidency env db rel durable) h \<longleftrightarrow> OidIsValid rel \<and> room h db durable"
| "mem_call_ok C (AdmitDatabase g db budget durable) h \<longleftrightarrow>
     no_wrap (hd_totalResidencyCommittedGlobal h) budget"
| "mem_call_ok C (RestoreResidencyBudget db prior) h \<longleftrightarrow>
     no_wrap (hd_totalResidencyCommittedGlobal h) (max prior (real_usage h db))"
| "mem_call_ok C (ReserveSlot db) h \<longleftrightarrow> OidIsValid db"
| "mem_call_ok C (ReleaseSlot db) h \<longleftrightarrow> OidIsValid db"
| "mem_call_ok C _ h \<longleftrightarrow> True"

text \<open>The states reached from startup with \<open>maxDatabases\<close> control blocks of \<open>maxSlots\<close> slots.\<close>

inductive mem_reachable :: "u64 \<Rightarrow> nat \<Rightarrow> nat \<Rightarrow> VamanaWorkerShmemHeader \<Rightarrow> bool" where
  mem_startup: "mem_reachable C n m (VamanaWorkerShmemStartup n m)"
| mem_call: "mem_reachable C n m h \<Longrightarrow> mem_call_ok C c h \<Longrightarrow> mem_reachable C n m (mem_exec c h)"

section \<open>Exact accounting\<close>

lemma ReleaseSlot_exact: "mem_exact h \<Longrightarrow> mem_exact (VamanaWorkerReleaseSlot d h)"
  using ReleaseSlot_mem_acct [of "\<lambda>_. 0" "\<lambda>_. 0" h d] by (auto simp: mem_exact_acct fun_upd_idem)

lemma mem_exec_exact:
  assumes "mem_exact h" and "mem_call_ok C c h"
  shows "mem_exact (mem_exec c h)"
proof (cases c)
  case (ReleaseSlot db)
  then show ?thesis using ReleaseSlot_exact [OF assms(1)] by simp
qed (use assms in \<open>simp_all add: mem_exact_acct ReserveBuild_acct ConfirmBuild_acct HandoffBuild_acct
    AbortBuild_acct ReconcileLoad_acct AccountUnload_acct ReserveInsert_acct ReanchorInsert_acct
    ReconcileResident_acct CloseInsertReservation_acct AbortInsert_acct CreditAbortedInserts_acct
    ReapDeadReservations_acct ReconcileResidentReservations_acct SeedDurableResidency_acct
    AdmitDatabase_acct RestoreResidencyBudget_acct RecheckSearchScratchOptions_acct
    SetSearchScratchBytesPerQuery_acct SearchScratch_acct ReserveSlot_mem_acct\<close>)

lemma mem_reachable_exact: "mem_reachable C n m h \<Longrightarrow> mem_exact h"
  by (induction rule: mem_reachable.induct) (simp_all add: Startup_ok mem_exec_exact)

section \<open>The cluster-wide build ceiling\<close>

text \<open>No call other than a reservation raises the committed build memory.\<close>

lemma SubtractFloored_self: "SubtractFloored c a \<le> c"
  by (simp add: SubtractFloored_def not_less word_sub_le)

lemma SubtractGlobal_total: "hd_totalBuildCommittedGlobal (SubtractGlobalBuildCommitted h p) \<le> hd_totalBuildCommittedGlobal h"
  "hd_totalBuildCommittedGlobal (release_peak_global r h) \<le> hd_totalBuildCommittedGlobal h"
  by (simp_all add: SubtractGlobalBuildCommitted_def release_peak_global_def SubtractFloored_self)

lemma ReserveBuild_total_cases:
  "hd_totalBuildCommittedGlobal (snd (SvsMemoryReserveBuild g env db rel bp est h)) =
     hd_totalBuildCommittedGlobal h \<or>
   hd_totalBuildCommittedGlobal (snd (SvsMemoryReserveBuild g env db rel bp est h)) =
     hd_totalBuildCommittedGlobal h + bp \<and>
   hd_totalBuildCommittedGlobal h + bp \<le> BuildMemoryCeilingBytes g"
  by (simp add: SvsMemoryReserveBuild_def TryAddGlobalBuildCommitted_def Let_def
      split: sum.split option.split)

lemma ReserveBuild_total:
  assumes "hd_totalBuildCommittedGlobal h \<le> C" and "BuildMemoryCeilingBytes g \<le> C"
  shows "hd_totalBuildCommittedGlobal (snd (SvsMemoryReserveBuild g env db rel bp est h)) \<le> C"
  using ReserveBuild_total_cases [of g env db rel bp est h] assms by (metis order_trans)

lemma build_calls_total:
  "hd_totalBuildCommittedGlobal (snd (SvsMemoryConfirmBuild db rel bp measured h)) \<le> hd_totalBuildCommittedGlobal h"
  "hd_totalBuildCommittedGlobal (snd (SvsMemoryHandoffBuild db rel h)) \<le> hd_totalBuildCommittedGlobal h"
  "hd_totalBuildCommittedGlobal (snd (SvsMemoryAbortBuild db rel h)) \<le> hd_totalBuildCommittedGlobal h"
  "hd_totalBuildCommittedGlobal (snd (SvsMemoryReconcileLoad env db rel measured headroom h)) \<le> hd_totalBuildCommittedGlobal h"
  "hd_totalBuildCommittedGlobal (snd (SvsMemoryAccountUnload db rel h)) \<le> hd_totalBuildCommittedGlobal h"
  by (simp_all add: SvsMemoryConfirmBuild_def SvsMemoryHandoffBuild_def SvsMemoryAbortBuild_def
      SvsMemoryReconcileLoad_def SvsMemoryAccountUnload_def Let_def SubtractGlobal_total
      split: sum.split option.split prod.split)
lemma residency_calls_total:
  "hd_totalBuildCommittedGlobal (snd (SvsMemoryReserveInsert env db rel delta h)) = hd_totalBuildCommittedGlobal h"
  "hd_totalBuildCommittedGlobal (snd (SvsMemoryReanchorInsert db rel measured h)) = hd_totalBuildCommittedGlobal h"
  "hd_totalBuildCommittedGlobal (snd (SvsMemoryReconcileResident db rel measured hr h)) = hd_totalBuildCommittedGlobal h"
  "hd_totalBuildCommittedGlobal (snd (SvsMemoryCloseInsertReservation db rel h)) = hd_totalBuildCommittedGlobal h"
  "hd_totalBuildCommittedGlobal (snd (SvsMemoryAbortInsert env db rel h)) = hd_totalBuildCommittedGlobal h"
  "hd_totalBuildCommittedGlobal (snd (SvsMemoryCreditAbortedInserts g db rel gen growth h)) = hd_totalBuildCommittedGlobal h"
  "hd_totalBuildCommittedGlobal (snd (SvsMemoryReconcileResidentReservations db live h)) = hd_totalBuildCommittedGlobal h"
  "hd_totalBuildCommittedGlobal (snd (SvsMemoryAdmitDatabase g db budget durable h)) = hd_totalBuildCommittedGlobal h"
  "hd_totalBuildCommittedGlobal (SvsMemoryRestoreResidencyBudget db prior h) = hd_totalBuildCommittedGlobal h"
  "hd_totalBuildCommittedGlobal (SvsMemoryRecheckSearchScratchOptions db rel win hist h) = hd_totalBuildCommittedGlobal h"
  "hd_totalBuildCommittedGlobal (SvsMemorySetSearchScratchBytesPerQuery db rel bytes h) = hd_totalBuildCommittedGlobal h"
  "hd_totalBuildCommittedGlobal (snd (SvsMemoryReserveSearchScratch g db bytes h)) = hd_totalBuildCommittedGlobal h"
  "hd_totalBuildCommittedGlobal (snd (SvsMemoryReleaseSearchScratch db bytes h)) = hd_totalBuildCommittedGlobal h"
  "hd_totalBuildCommittedGlobal (snd (VamanaWorkerReserveSlot db h)) = hd_totalBuildCommittedGlobal h"
  by (simp_all add: SvsMemoryReserveInsert_def SvsMemoryReanchorInsert_def SvsMemoryReconcileResident_def
      SvsMemoryCloseInsertReservation_def SvsMemoryAbortInsert_def SvsMemoryCreditAbortedInserts_def
      SvsMemoryReconcileResidentReservations_def SvsMemoryAdmitDatabase_def SvsMemoryRestoreResidencyBudget_def
      SvsMemoryRecheckSearchScratchOptions_def SvsMemorySetSearchScratchBytesPerQuery_def
      SvsMemoryReserveSearchScratch_def SvsMemoryReleaseSearchScratch_def VamanaWorkerReserveSlot_def Let_def
      split: sum.split option.split prod.split)

lemma SeedDurable_total:
  "hd_totalBuildCommittedGlobal (snd (SvsMemorySeedDurableResidency env db rel durable h)) \<le> hd_totalBuildCommittedGlobal h"
  using build_calls_total(4) [of env db rel durable 0 h]
  by (auto simp: SvsMemorySeedDurableResidency_def split: sum.split prod.split)

lemma ReapReservations_total:
  "hd_totalBuildCommittedGlobal (snd (fold (ReapReservationAt env) js (entry, h))) \<le> hd_totalBuildCommittedGlobal h"
proof (induction js arbitrary: entry h)
  case (Cons i js)
  obtain entry1 h1 where step: "ReapReservationAt env i (entry, h) = (entry1, h1)" by force
  have "hd_totalBuildCommittedGlobal h1 \<le> hd_totalBuildCommittedGlobal h"
    using step by (auto simp: ReapReservationAt_def Let_def SubtractGlobal_total split: if_split_asm)
  with Cons.IH [of entry1 h1] step show ?case by simp
qed simp

lemma ReapDead_total:
  "hd_totalBuildCommittedGlobal (SvsMemoryReapDeadReservations env h) \<le> hd_totalBuildCommittedGlobal h"
proof -
  have one: "hd_totalBuildCommittedGlobal (ReapEntryReservations env e h) \<le> hd_totalBuildCommittedGlobal h" for e h
    using ReapReservations_total [of env "[0..<VAMANA_MAX_INDEXES]" "hd_slots h ! e" h]
    by (auto simp: ReapEntryReservations_def split: prod.split)
  have "hd_totalBuildCommittedGlobal (fold (\<lambda>dbOid h. case VamanaWorkerLookupSlot h dbOid of
      None \<Rightarrow> h | Some e \<Rightarrow> ReapEntryReservations env e h) dbs h) \<le> hd_totalBuildCommittedGlobal h" for dbs
  proof (induction dbs arbitrary: h)
    case (Cons db dbs)
    show ?case
    proof (cases "VamanaWorkerLookupSlot h db")
      case (Some e)
      with Cons.IH [of "ReapEntryReservations env e h"] one [of e h] show ?thesis by simp
    qed (use Cons.IH in simp)
  qed simp
  then show ?thesis by (simp add: SvsMemoryReapDeadReservations_def)
qed

lemma ReleaseSlot_total:
  "hd_totalBuildCommittedGlobal (VamanaWorkerReleaseSlot db h) \<le> hd_totalBuildCommittedGlobal h"
  by (simp add: VamanaWorkerReleaseSlot_def VamanaWorkerResetEntryState_def SvsMemoryResetDatabaseAccounting_def
      Let_def SubtractFloored_self split: option.split)

lemma mem_exec_total:
  assumes "hd_totalBuildCommittedGlobal h \<le> C" and "mem_call_ok C c h"
  shows "hd_totalBuildCommittedGlobal (mem_exec c h) \<le> C"
  using assms
  by (cases c) (simp_all add: ReserveBuild_total residency_calls_total
      order_trans [OF build_calls_total(1)] order_trans [OF build_calls_total(2)]
      order_trans [OF build_calls_total(3)] order_trans [OF build_calls_total(4)]
      order_trans [OF build_calls_total(5)] order_trans [OF SeedDurable_total]
      order_trans [OF ReapDead_total] order_trans [OF ReleaseSlot_total])

lemma Startup_total: "hd_totalBuildCommittedGlobal (VamanaWorkerShmemStartup n m) = 0"
proof -
  define init where "init = (\<lambda>db h. let (entry, h') = VamanaWorkerInitSlot m (hd_slots h ! db, h)
    in put_entry h' db entry)"
  have step: "hd_totalBuildCommittedGlobal (init db h) = 0" if "hd_totalBuildCommittedGlobal h = 0" for db h
    using that by (simp add: init_def VamanaWorkerInitSlot_def VamanaWorkerResetEntryState_def
        SvsMemoryResetDatabaseAccounting_def SubtractFloored_def word_gt_0)
  have "hd_totalBuildCommittedGlobal (fold init dbs h) = 0" if "hd_totalBuildCommittedGlobal h = 0" for dbs h
    using that by (induction dbs arbitrary: h) (simp_all add: step)
  then show ?thesis unfolding VamanaWorkerShmemStartup_def init_def [symmetric] by simp
qed

lemma mem_reachable_total: "mem_reachable C n m h \<Longrightarrow> hd_totalBuildCommittedGlobal h \<le> C"
  by (induction rule: mem_reachable.induct) (simp_all add: Startup_total mem_exec_total)
section \<open>Histories\<close>

fun run_calls :: "mem_call list \<Rightarrow> VamanaWorkerShmemHeader \<Rightarrow> VamanaWorkerShmemHeader" where
  "run_calls [] h = h"
| "run_calls (c # cs) h = run_calls cs (mem_exec c h)"

fun calls_ok :: "u64 \<Rightarrow> mem_call list \<Rightarrow> VamanaWorkerShmemHeader \<Rightarrow> bool" where
  "calls_ok C [] h \<longleftrightarrow> True"
| "calls_ok C (c # cs) h \<longleftrightarrow> mem_call_ok C c h \<and> calls_ok C cs (mem_exec c h)"

text \<open>The 64-bit check, on words.\<close>

lemma no_wrap_code [code]: "no_wrap a b \<longleftrightarrow> a \<le> a + b"
  by (simp add: no_wrap_def no_olen_add_nat)

lemma run_calls_reachable:
  "mem_reachable C n m h \<Longrightarrow> calls_ok C cs h \<Longrightarrow> mem_reachable C n m (run_calls cs h)"
  by (induction cs arbitrary: h) (auto intro: mem_call)

definition demo_gucs :: SvsMemGucs where
  "demo_gucs = \<lparr>vamana_max_build_memory_mb = 4096, vamana_max_residency_memory_mb = 100,
     vamana_default_residency_memory_mb = 100, vamana_default_search_work_mem_mb = 100,
     vamana_compact_threshold_pct = 50\<rparr>"

definition demo_env :: PgEnv where
  "demo_env = \<lparr>MyProcPid = 901, GetCurrentTimestamp = 5000, BackendPidGetProc = (\<lambda>_. None),
     beentry_start_timestamp = (\<lambda>_. None)\<rparr>"

text \<open>
  Database 7 is admitted; index 42 is built, handed over, loaded, and rebuilt while a second build
  of index 43 is running.
\<close>

definition demo_calls :: "mem_call list" where
  "demo_calls =
     [ReserveSlot 7, AdmitDatabase demo_gucs 7 9000000 0, ReserveBuild demo_gucs demo_env 7 42 5000000 600000,
      ConfirmBuild 7 42 5000000 700000, HandoffBuild 7 42, ReconcileLoad demo_env 7 42 650000 3,
      ReserveBuild demo_gucs demo_env 7 43 2000000 300000, ReserveBuild demo_gucs demo_env 7 42 4000000 800000]"

definition demo_state :: VamanaWorkerShmemHeader where
  "demo_state = run_calls demo_calls (VamanaWorkerShmemStartup 2 4)"

lemma demo_reachable: "mem_reachable (BuildMemoryCeilingBytes demo_gucs) 2 4 demo_state"
proof -
  have "calls_ok (BuildMemoryCeilingBytes demo_gucs) demo_calls (VamanaWorkerShmemStartup 2 4)" by code_simp
  then show ?thesis unfolding demo_state_def by (rule run_calls_reachable [OF mem_startup])
qed

section \<open>Properties\<close>






end
