(* ===== verification/Memory_States.thy ===== *)
theory Memory_States
  imports Memory_Lifecycle
begin

text \<open>
  The life of one reservation: which state changes each call of \<open>svs_memory.c\<close> can make, to which
  index, in any reachable state.
\<close>

section \<open>The state of an index in a reservation table\<close>

definition table_state :: "SvsMemReservation list \<Rightarrow> oid \<Rightarrow> SvsMemReservationState option" where
  "table_state rs rel = map_option (\<lambda>i. mr_state (rs ! i)) (find_index (\<lambda>r. mr_relid r = rel) rs)"

definition table_ok :: "SvsMemReservation list \<Rightarrow> bool" where
  "table_ok rs \<longleftrightarrow> distinct (filter OidIsValid (map mr_relid rs))"

lemma reservation_state_table:
  "reservation_state h db rel = (case VamanaWorkerLookupSlot h db of
     None \<Rightarrow> None | Some e \<Rightarrow> table_state (ws_reservations (hd_slots h ! e)) rel)"
  by (simp add: reservation_state_def table_state_def FindReservation_def split: option.split)

lemma table_index:
  assumes "table_ok rs" and "i < length rs" and "OidIsValid (mr_relid (rs ! i))"
  shows "find_index (\<lambda>r. mr_relid r = mr_relid (rs ! i)) rs = Some i"
proof -
  obtain j where j: "find_index (\<lambda>r. mr_relid r = mr_relid (rs ! i)) rs = Some j"
    using find_index_ex [of i rs "\<lambda>r. mr_relid r = mr_relid (rs ! i)"] assms(2) by blast
  note jd = find_index_SomeD [OF j]
  have "j = i"
    using distinct_filter_nth [OF assms(1) [unfolded table_ok_def], of j i] jd(1,2) assms(2,3) by simp
  with j show ?thesis by simp
qed

lemma table_state_at:
  "table_ok rs \<Longrightarrow> i < length rs \<Longrightarrow> OidIsValid (mr_relid (rs ! i)) \<Longrightarrow>
   table_state rs (mr_relid (rs ! i)) = Some (mr_state (rs ! i))"
  by (simp add: table_state_def table_index)

lemma table_state_absent:
  "(\<forall>j < length rs. mr_relid (rs ! j) \<noteq> rel) \<Longrightarrow> table_state rs rel = None"
  by (auto simp: table_state_def find_index_None_iff in_set_conv_nth)

lemma table_ok_update:
  assumes "table_ok rs" and "i < length rs"
    and "mr_relid r' = InvalidOid \<or> mr_relid r' = mr_relid (rs ! i) \<or> (\<forall>r \<in> set rs. mr_relid r \<noteq> mr_relid r')"
  shows "table_ok (rs[i := r'])"
  using assms unfolding table_ok_def by (intro distinct_filter_update) auto

lemma table_state_update:
  assumes ok: "table_ok rs" and i: "i < length rs" and rel: "OidIsValid rel"
    and "mr_relid r' = InvalidOid \<or> mr_relid r' = mr_relid (rs ! i) \<or> (\<forall>r \<in> set rs. mr_relid r \<noteq> mr_relid r')"
  shows "table_state (rs[i := r']) rel =
    (if mr_relid r' = rel then Some (mr_state r') else if mr_relid (rs ! i) = rel then None
     else table_state rs rel)"
proof -
  have ok': "table_ok (rs[i := r'])" using ok i assms(4) by (rule table_ok_update)
  consider (new) "mr_relid r' = rel" | (gone) "mr_relid r' \<noteq> rel" "mr_relid (rs ! i) = rel"
    | (other) "mr_relid r' \<noteq> rel" "mr_relid (rs ! i) \<noteq> rel" by blast
  then show ?thesis
  proof cases
    case new
    with table_state_at [OF ok', of i] i rel show ?thesis by simp
  next
    case gone
    have "mr_relid (rs[i := r'] ! j) \<noteq> rel" if j: "j < length rs" for j
    proof (cases "j = i")
      case False
      with distinct_filter_nth [OF ok [unfolded table_ok_def], of j i] i gone(2) j rel show ?thesis by auto
    qed (use gone i in simp)
    then have "table_state (rs[i := r']) rel = None" by (intro table_state_absent) simp
    with gone show ?thesis by simp
  next
    case other
    have same: "mr_relid (rs[i := r'] ! j) = rel \<longleftrightarrow> mr_relid (rs ! j) = rel" if "j < length rs" for j
      using other that i by (cases "j = i") simp_all
    show ?thesis
    proof (cases "\<exists>j < length rs. mr_relid (rs ! j) = rel")
      case True
      then obtain j where j: "j < length rs" "mr_relid (rs ! j) = rel" by blast
      with other have ji: "j \<noteq> i" by auto
      with j rel table_state_at [OF ok, of j] table_state_at [OF ok', of j] other show ?thesis by simp
    next
      case False
      then have "table_state (rs[i := r']) rel = None" "table_state rs rel = None"
        using same by (intro table_state_absent; simp)+
      with other show ?thesis by simp
    qed
  qed
qed

section \<open>Updates of a control block\<close>

lemma Lookup_put:
  assumes "e < length (hd_slots h)" and "hd_slots h' = hd_slots h" and "ws_dbOid entry' = ws_dbOid (hd_slots h ! e)"
  shows "VamanaWorkerLookupSlot (put_entry h' e entry') db = VamanaWorkerLookupSlot h db"
proof -
  have idx: "find_index (\<lambda>entry. ws_dbOid entry = db) xs = find_index (\<lambda>d. d = db) (map ws_dbOid xs)" for xs
    by (induction xs) auto
  have upd: "map ws_dbOid ((hd_slots h)[e := entry']) = map ws_dbOid (hd_slots h)"
    using assms by (simp add: map_update list_update_same_conv)
  show ?thesis
    unfolding VamanaWorkerLookupSlot_def VamanaWorkerFindSlot_def put_entry_simps assms(2) idx upd ..
qed

lemma reservation_state_put:
  assumes "LookupEntryOrError h dbOid = Inr e" and "hd_slots h' = hd_slots h"
    and "ws_dbOid entry' = ws_dbOid (hd_slots h ! e)"
  shows "reservation_state (put_entry h' e entry') db rel =
    (if db = dbOid then table_state (ws_reservations entry') rel else reservation_state h db rel)"
proof -
  note e = LookupEntryOrError_InrD [OF assms(1)]
  have l: "VamanaWorkerLookupSlot h dbOid = Some e" using assms(1) by (simp add: Lookup_Inr)
  note put = Lookup_put [OF e(1) assms(2,3)]
  show ?thesis
  proof (cases "VamanaWorkerLookupSlot h db")
    case (Some e')
    have d: "ws_dbOid (hd_slots h ! e') = db"
      using VamanaWorkerFindSlot_SomeD(2) [OF Some [unfolded VamanaWorkerLookupSlot_def]] .
    show ?thesis
    proof (cases "db = dbOid")
      case True
      then show ?thesis unfolding reservation_state_table put using l e(1) assms(2) by simp
    next
      case False
      with d e(2) have "e' \<noteq> e" by auto
      with Some False assms(2) show ?thesis by (simp add: reservation_state_table put)
    qed
  next
    case None
    with l have "db \<noteq> dbOid" by auto
    with None show ?thesis by (simp add: reservation_state_table put)
  qed
qed

lemma reservation_state_here:
  "LookupEntryOrError h db = Inr e \<Longrightarrow> reservation_state h db rel = table_state (ws_reservations (hd_slots h ! e)) rel"
  by (simp add: reservation_state_table Lookup_Inr)

section \<open>Transitions\<close>

text \<open>The state changes a call can make (no entry: none), and the index it is about.\<close>

fun transitions :: "mem_call \<Rightarrow> (SvsMemReservationState option \<times> SvsMemReservationState option) list" where
  "transitions (ReserveBuild g env db rel bp est) =
     [(None, Some SVS_MEM_RESERVED), (Some SVS_MEM_RESIDENT, Some SVS_MEM_REBUILDING)]"
| "transitions (ConfirmBuild db rel bp measured) =
     [(Some SVS_MEM_RESERVED, Some SVS_MEM_CONFIRMED), (Some SVS_MEM_RESERVED, None),
      (Some SVS_MEM_REBUILDING, Some SVS_MEM_CONFIRMED), (Some SVS_MEM_REBUILDING, Some SVS_MEM_RESIDENT)]"
| "transitions (HandoffBuild db rel) = [(Some SVS_MEM_CONFIRMED, Some SVS_MEM_HANDOFF)]"
| "transitions (AbortBuild db rel) =
     [(Some SVS_MEM_RESERVED, None), (Some SVS_MEM_CONFIRMED, None), (Some SVS_MEM_HANDOFF, None),
      (Some SVS_MEM_REBUILDING, Some SVS_MEM_RESIDENT)]"
| "transitions (ReconcileLoad env db rel measured headroom) =
     [(None, Some SVS_MEM_RESIDENT), (Some SVS_MEM_CONFIRMED, Some SVS_MEM_RESIDENT),
      (Some SVS_MEM_HANDOFF, Some SVS_MEM_RESIDENT), (Some SVS_MEM_REBUILDING, Some SVS_MEM_RESIDENT)]"
| "transitions (AccountUnload db rel) =
     [(Some SVS_MEM_CONFIRMED, None), (Some SVS_MEM_HANDOFF, None), (Some SVS_MEM_RESIDENT, None),
      (Some SVS_MEM_REBUILDING, None)]"
| "transitions (ReapDeadReservations env) =
     [(Some SVS_MEM_RESERVED, None), (Some SVS_MEM_REBUILDING, Some SVS_MEM_RESIDENT)]"
| "transitions (ReconcileResidentReservations db live) = [(Some SVS_MEM_RESIDENT, None)]"
| "transitions (SeedDurableResidency env db rel durable) = [(None, Some SVS_MEM_RESIDENT)]"
| "transitions _ = []"

fun call_target :: "mem_call \<Rightarrow> oid \<Rightarrow> oid \<Rightarrow> bool" where
  "call_target (ReserveBuild g env db rel bp est) db' rel' \<longleftrightarrow> db' = db \<and> rel' = rel"
| "call_target (ConfirmBuild db rel bp measured) db' rel' \<longleftrightarrow> db' = db \<and> rel' = rel"
| "call_target (HandoffBuild db rel) db' rel' \<longleftrightarrow> db' = db \<and> rel' = rel"
| "call_target (AbortBuild db rel) db' rel' \<longleftrightarrow> db' = db \<and> rel' = rel"
| "call_target (ReconcileLoad env db rel measured headroom) db' rel' \<longleftrightarrow> db' = db \<and> rel' = rel"
| "call_target (AccountUnload db rel) db' rel' \<longleftrightarrow> db' = db \<and> rel' = rel"
| "call_target (ReconcileResidentReservations db live) db' rel' \<longleftrightarrow> db' = db \<and> rel' \<notin> set live"
| "call_target (SeedDurableResidency env db rel durable) db' rel' \<longleftrightarrow> db' = db \<and> rel' = rel"
| "call_target (ReapDeadReservations env) db' rel' \<longleftrightarrow> True"
| "call_target _ _ _ \<longleftrightarrow> False"

definition transition_ok :: "mem_call \<Rightarrow> VamanaWorkerShmemHeader \<Rightarrow> oid \<Rightarrow> oid \<Rightarrow> bool" where
  "transition_ok c h db rel \<longleftrightarrow>
     reservation_state (mem_exec c h) db rel = reservation_state h db rel \<or>
     call_target c db rel \<and> (reservation_state h db rel, reservation_state (mem_exec c h) db rel) \<in> set (transitions c)"

lemma put_dbOid [simp]:
  "ws_dbOid (put_reservation entry i r) = ws_dbOid entry"
  "ws_dbOid (put_insert_reservation entry i r') = ws_dbOid entry"
  "ws_dbOid (FreeReservation entry i) = ws_dbOid entry"
  "ws_dbOid (FreeInsertReservation entry i) = ws_dbOid entry"
  "ws_dbOid (release_peak r entry) = ws_dbOid entry"
  "ws_dbOid (ReleaseOldestInsertReservation entry rel) = ws_dbOid entry"
  by (simp_all add: put_reservation_def put_insert_reservation_def FreeReservation_def FreeInsertReservation_def
      release_peak_def ReleaseOldestInsertReservation_def split: option.split)

lemma release_peak_slots [simp]:
  "hd_slots (release_peak_global r h) = hd_slots h" "hd_slots (SubtractGlobalBuildCommitted h p) = hd_slots h"
  "ws_reservations (release_peak r entry) = ws_reservations entry"
  by (simp_all add: release_peak_global_def SubtractGlobalBuildCommitted_def release_peak_def)

lemma exact_table_ok: "mem_exact h \<Longrightarrow> e < length (hd_slots h) \<Longrightarrow> table_ok (ws_reservations (hd_slots h ! e))"
  by (simp add: mem_exact_def list_all_length entry_acct_def table_ok_def)

text \<open>Locating what a call is about: the control block, and the reservation if there is one.\<close>

lemma locate_reservation:
  assumes "mem_exact h"
  obtains (none) err where "LookupEntryOrError h dbOid = Inl err"
    | (absent) e where "LookupEntryOrError h dbOid = Inr e" "FindReservation (hd_slots h ! e) relid = None"
        "table_ok (ws_reservations (hd_slots h ! e))" "reservation_state h dbOid relid = None"
    | (present) e i where "LookupEntryOrError h dbOid = Inr e" "FindReservation (hd_slots h ! e) relid = Some i"
        "table_ok (ws_reservations (hd_slots h ! e))" "i < length (ws_reservations (hd_slots h ! e))"
        "mr_relid (ws_reservations (hd_slots h ! e) ! i) = relid"
        "reservation_state h dbOid relid = Some (mr_state (ws_reservations (hd_slots h ! e) ! i))"
proof (cases "LookupEntryOrError h dbOid")
  case (Inr e)
  note e = exact_table_ok [OF assms LookupEntryOrError_InrD(1) [OF Inr]]
  show ?thesis
  proof (cases "FindReservation (hd_slots h ! e) relid")
    case None
    with Inr e show ?thesis
      by (intro absent) (simp_all add: reservation_state_def Lookup_Inr)
  next
    case (Some i)
    with Inr e FindReservation_SomeD [OF Some] show ?thesis
      by (intro present) (simp_all add: reservation_state_def Lookup_Inr)
  qed
qed (use none in auto)

lemma HandoffBuild_transition:
  assumes "mem_exact h" and "OidIsValid relid" and "OidIsValid rel"
  shows "transition_ok (HandoffBuild dbOid relid) h db rel"
  using assms(1)
proof (cases rule: locate_reservation [where dbOid = dbOid and relid = relid])
  case (present e i)
  then show ?thesis
    using assms(2,3)
    by (auto simp: transition_ok_def SvsMemoryHandoffBuild_def Let_def reservation_state_put [OF present(1)]
        table_state_update reservation_state_here [OF present(1)])
qed (simp_all add: transition_ok_def SvsMemoryHandoffBuild_def)
lemma ConfirmBuild_transition:
  assumes "mem_exact h" and "OidIsValid relid" and "OidIsValid rel"
  shows "transition_ok (ConfirmBuild dbOid relid bp measured) h db rel"
  using assms(1)
proof (cases rule: locate_reservation [where dbOid = dbOid and relid = relid])
  case (present e i)
  then show ?thesis
    using assms(2,3)
    by (auto simp: transition_ok_def SvsMemoryConfirmBuild_def Let_def reservation_state_put [OF present(1)]
        table_state_update reservation_state_here [OF present(1)] RestorePriorResidency_def)
qed (simp_all add: transition_ok_def SvsMemoryConfirmBuild_def)

lemma AbortBuild_transition:
  assumes "mem_exact h" and "OidIsValid relid" and "OidIsValid rel"
  shows "transition_ok (AbortBuild dbOid relid) h db rel"
  using assms(1)
proof (cases rule: locate_reservation [where dbOid = dbOid and relid = relid])
  case (present e i)
  then show ?thesis
    using assms(2,3)
    by (cases "mr_state (ws_reservations (hd_slots h ! e) ! i)")
      (auto simp: transition_ok_def SvsMemoryAbortBuild_def Let_def reservation_state_put [OF present(1)]
        table_state_update reservation_state_here [OF present(1)] RestorePriorResidency_def)
qed (simp_all add: transition_ok_def SvsMemoryAbortBuild_def)

lemma AccountUnload_transition:
  assumes "mem_exact h" and "OidIsValid relid" and "OidIsValid rel"
    and "reservation_state h dbOid relid \<noteq> Some SVS_MEM_RESERVED"
  shows "transition_ok (AccountUnload dbOid relid) h db rel"
  using assms(1)
proof (cases rule: locate_reservation [where dbOid = dbOid and relid = relid])
  case (present e i)
  then show ?thesis
    using assms(2-4)
    by (cases "mr_state (ws_reservations (hd_slots h ! e) ! i)")
      (auto simp: transition_ok_def SvsMemoryAccountUnload_def Let_def reservation_state_put [OF present(1)]
        table_state_update reservation_state_here [OF present(1)])
qed (simp_all add: transition_ok_def SvsMemoryAccountUnload_def)

lemma ReserveBuild_transition:
  assumes "mem_exact h" and "OidIsValid relid" and "OidIsValid rel"
  shows "transition_ok (ReserveBuild g env dbOid relid bp est) h db rel"
  using assms(1)
proof (cases rule: locate_reservation [where dbOid = dbOid and relid = relid])
  case (present e i)
  then show ?thesis
    using assms(2,3)
    by (auto simp: transition_ok_def SvsMemoryReserveBuild_def TryAddGlobalBuildCommitted_def Let_def
        reservation_state_put [OF present(1)] table_state_update reservation_state_here [OF present(1)]
        split: option.split)
next
  case (absent e)
  show ?thesis
  proof (cases "AllocateReservation (hd_slots h ! e) relid")
    case (Inr p)
    obtain j entry' where p: "p = (j, entry')" by force
    note al = AllocateReservation_InrD [OF Inr [unfolded p]]
    have fresh: "\<forall>r \<in> set (ws_reservations (hd_slots h ! e)). mr_relid r \<noteq> relid"
      using FindReservation_NoneD [OF absent(2)] by blast
    from absent al Inr p fresh show ?thesis
      using assms(2,3)
      by (auto simp: transition_ok_def SvsMemoryReserveBuild_def TryAddGlobalBuildCommitted_def Let_def
          reservation_state_put [OF absent(1)] table_state_update reservation_state_here [OF absent(1)]
          split: option.split)
  qed (use absent in \<open>auto simp: transition_ok_def SvsMemoryReserveBuild_def Let_def split: option.split\<close>)
qed (simp_all add: transition_ok_def SvsMemoryReserveBuild_def)
lemma ReconcileLoad_transition:
  assumes "mem_exact h" and "OidIsValid relid" and "OidIsValid rel"
    and "reservation_state h dbOid relid \<noteq> Some SVS_MEM_RESERVED"
  shows "transition_ok (ReconcileLoad env dbOid relid measured headroom) h db rel"
  using assms(1)
proof (cases rule: locate_reservation [where dbOid = dbOid and relid = relid])
  case (present e i)
  then show ?thesis
    using assms(2-4)
    by (cases "mr_state (ws_reservations (hd_slots h ! e) ! i)")
      (auto simp: transition_ok_def SvsMemoryReconcileLoad_def Let_def
        reservation_state_put [OF present(1)] table_state_update reservation_state_here [OF present(1)]
        split: option.split)
next
  case (absent e)
  show ?thesis
  proof (cases "AllocateReservation (hd_slots h ! e) relid")
    case (Inr p)
    obtain j entry' where p: "p = (j, entry')" by force
    note al = AllocateReservation_InrD [OF Inr [unfolded p]]
    have fresh: "\<forall>r \<in> set (ws_reservations (hd_slots h ! e)). mr_relid r \<noteq> relid"
      using FindReservation_NoneD [OF absent(2)] by blast
    from absent al Inr p fresh show ?thesis
      using assms(2,3)
      by (auto simp: transition_ok_def SvsMemoryReconcileLoad_def Let_def
          reservation_state_put [OF absent(1)] table_state_update reservation_state_here [OF absent(1)]
          split: option.split)
  qed (use absent in \<open>auto simp: transition_ok_def SvsMemoryReconcileLoad_def Let_def split: option.split\<close>)
qed (simp_all add: transition_ok_def SvsMemoryReconcileLoad_def)

lemma SeedDurable_transition:
  assumes "mem_exact h" and "OidIsValid relid" and "OidIsValid rel"
  shows "transition_ok (SeedDurableResidency env dbOid relid durable) h db rel"
  using assms(1)
proof (cases rule: locate_reservation [where dbOid = dbOid and relid = relid])
  case (absent e)
  with ReconcileLoad_transition [OF assms, of dbOid env durable 0 db] show ?thesis
    by (auto simp: transition_ok_def SvsMemorySeedDurableResidency_def split: prod.split sum.split)
qed (simp_all add: transition_ok_def SvsMemorySeedDurableResidency_def)

text \<open>Calls that change no state: they rewrite a reservation in its place or touch no reservation.\<close>

lemma quiet_put_same:
  assumes "LookupEntryOrError h dbOid = Inr e" and "hd_slots h' = hd_slots h"
    and "ws_dbOid entry' = ws_dbOid (hd_slots h ! e)" and "ws_reservations entry' = ws_reservations (hd_slots h ! e)"
  shows "reservation_state (put_entry h' e entry') db rel = reservation_state h db rel"
  using assms by (simp add: reservation_state_put [OF assms(1)] reservation_state_here [OF assms(1)])

lemmas quiet_defs = SvsMemoryReserveInsert_def SvsMemoryReanchorInsert_def SvsMemoryReconcileResident_def
  SvsMemoryAbortInsert_def SvsMemoryCreditAbortedInserts_def SvsMemoryRecheckSearchScratchOptions_def
  SvsMemorySetSearchScratchBytesPerQuery_def FindResidentReservationOrError_def Let_def

lemma FindReservation_counter [simp]:
  "FindReservation (entry\<lparr>ws_residencyBytesCommitted := c\<rparr>) rel = FindReservation entry rel"
  by (simp add: FindReservation_def)

lemma ReserveInsert_quiet:
  assumes "mem_exact h" and "OidIsValid rel"
  shows "reservation_state (snd (SvsMemoryReserveInsert env dbOid relid delta h)) db rel = reservation_state h db rel"
  using assms(1)
proof (cases rule: locate_reservation [where dbOid = dbOid and relid = relid])
  case (present e i)
  note l = present(1) [unfolded Lookup_Inr]
  from present assms(2) show ?thesis
    by (auto simp: quiet_defs l reservation_state_put [OF present(1)] table_state_update table_state_at
        reservation_state_here [OF present(1)] split: option.split)
next
  case (absent e)
  note l = absent(1) [unfolded Lookup_Inr]
  from absent show ?thesis
    by (auto simp: quiet_defs l split: option.split intro!: quiet_put_same [OF absent(1)])
qed (simp add: quiet_defs Lookup_Inr(2))

lemma ReanchorInsert_quiet:
  assumes "mem_exact h" and "OidIsValid rel"
  shows "reservation_state (snd (SvsMemoryReanchorInsert dbOid relid measured h)) db rel = reservation_state h db rel"
  using assms(1)
proof (cases rule: locate_reservation [where dbOid = dbOid and relid = relid])
  case (present e i)
  note l = present(1) [unfolded Lookup_Inr]
  from present assms(2) show ?thesis
    by (auto simp: quiet_defs l reservation_state_put [OF present(1)] table_state_update table_state_at
        reservation_state_here [OF present(1)] split: option.split)
next
  case (absent e)
  note l = absent(1) [unfolded Lookup_Inr]
  from absent show ?thesis
    by (auto simp: quiet_defs l split: option.split intro!: quiet_put_same [OF absent(1)])
qed (simp add: quiet_defs Lookup_Inr(2))

lemma ReconcileResident_quiet:
  assumes "mem_exact h" and "OidIsValid rel"
  shows "reservation_state (snd (SvsMemoryReconcileResident dbOid relid measured hr h)) db rel = reservation_state h db rel"
  using assms(1)
proof (cases rule: locate_reservation [where dbOid = dbOid and relid = relid])
  case (present e i)
  note l = present(1) [unfolded Lookup_Inr]
  from present assms(2) show ?thesis
    by (auto simp: quiet_defs l reservation_state_put [OF present(1)] table_state_update table_state_at
        reservation_state_here [OF present(1)] split: option.split)
next
  case (absent e)
  note l = absent(1) [unfolded Lookup_Inr]
  from absent show ?thesis
    by (auto simp: quiet_defs l split: option.split intro!: quiet_put_same [OF absent(1)])
qed (simp add: quiet_defs Lookup_Inr(2))

lemma AbortInsert_quiet:
  assumes "mem_exact h" and "OidIsValid rel"
  shows "reservation_state (snd (SvsMemoryAbortInsert env dbOid relid h)) db rel = reservation_state h db rel"
  using assms(1)
proof (cases rule: locate_reservation [where dbOid = dbOid and relid = relid])
  case (present e i)
  note l = present(1) [unfolded Lookup_Inr]
  from present assms(2) show ?thesis
    by (auto simp: quiet_defs l reservation_state_put [OF present(1)] table_state_update table_state_at
        reservation_state_here [OF present(1)] split: option.split)
next
  case (absent e)
  note l = absent(1) [unfolded Lookup_Inr]
  from absent show ?thesis
    by (auto simp: quiet_defs l split: option.split intro!: quiet_put_same [OF absent(1)])
qed (simp add: quiet_defs Lookup_Inr(2))

lemma CreditAbortedInserts_quiet:
  assumes "mem_exact h" and "OidIsValid rel"
  shows "reservation_state (snd (SvsMemoryCreditAbortedInserts g dbOid relid gen growth h)) db rel = reservation_state h db rel"
  using assms(1)
proof (cases rule: locate_reservation [where dbOid = dbOid and relid = relid])
  case (present e i)
  note l = present(1) [unfolded Lookup_Inr]
  from present assms(2) show ?thesis
    by (auto simp: quiet_defs l reservation_state_put [OF present(1)] table_state_update table_state_at
        reservation_state_here [OF present(1)] split: option.split)
next
  case (absent e)
  note l = absent(1) [unfolded Lookup_Inr]
  from absent show ?thesis
    by (auto simp: quiet_defs l split: option.split intro!: quiet_put_same [OF absent(1)])
qed (simp add: quiet_defs Lookup_Inr(2))

lemma RecheckSearchScratchOptions_quiet:
  assumes "mem_exact h" and "OidIsValid rel"
  shows "reservation_state (SvsMemoryRecheckSearchScratchOptions dbOid relid win hist h) db rel = reservation_state h db rel"
  using assms(1)
proof (cases rule: locate_reservation [where dbOid = dbOid and relid = relid])
  case (present e i)
  note l = present(1) [unfolded Lookup_Inr]
  from present assms(2) show ?thesis
    by (auto simp: quiet_defs l reservation_state_put [OF present(1)] table_state_update table_state_at
        reservation_state_here [OF present(1)] split: option.split)
next
  case (absent e)
  note l = absent(1) [unfolded Lookup_Inr]
  from absent show ?thesis
    by (auto simp: quiet_defs l split: option.split intro!: quiet_put_same [OF absent(1)])
qed (simp add: quiet_defs Lookup_Inr(2))

lemma SetSearchScratchBytesPerQuery_quiet:
  assumes "mem_exact h" and "OidIsValid rel"
  shows "reservation_state (SvsMemorySetSearchScratchBytesPerQuery dbOid relid bytes h) db rel = reservation_state h db rel"
  using assms(1)
proof (cases rule: locate_reservation [where dbOid = dbOid and relid = relid])
  case (present e i)
  note l = present(1) [unfolded Lookup_Inr]
  from present assms(2) show ?thesis
    by (auto simp: quiet_defs l reservation_state_put [OF present(1)] table_state_update table_state_at
        reservation_state_here [OF present(1)] split: option.split)
next
  case (absent e)
  note l = absent(1) [unfolded Lookup_Inr]
  from absent show ?thesis
    by (auto simp: quiet_defs l split: option.split intro!: quiet_put_same [OF absent(1)])
qed (simp add: quiet_defs Lookup_Inr(2))
lemma other_calls_quiet:
  "reservation_state (snd (SvsMemoryCloseInsertReservation dbOid relid h)) db rel = reservation_state h db rel"
  "reservation_state (snd (SvsMemoryAdmitDatabase g dbOid budget durable h)) db rel = reservation_state h db rel"
  "reservation_state (SvsMemoryRestoreResidencyBudget dbOid prior h) db rel = reservation_state h db rel"
  "reservation_state (snd (SvsMemoryReserveSearchScratch g dbOid bytes h)) db rel = reservation_state h db rel"
  "reservation_state (snd (SvsMemoryReleaseSearchScratch dbOid bytes h)) db rel = reservation_state h db rel"
  by (auto simp: SvsMemoryCloseInsertReservation_def SvsMemoryAdmitDatabase_def SvsMemoryRestoreResidencyBudget_def
      SvsMemoryReserveSearchScratch_def SvsMemoryReleaseSearchScratch_def Let_def Lookup_Inr(1) [symmetric]
      split: sum.split option.split intro!: quiet_put_same)

text \<open>The scans: each visits every position once, and what it does to one index it does not undo.\<close>

definition reaped :: "SvsMemReservationState option \<Rightarrow> SvsMemReservationState option \<Rightarrow> bool" where
  "reaped s s' \<longleftrightarrow> s' = s \<or> s = Some SVS_MEM_RESERVED \<and> s' = None \<or>
     s = Some SVS_MEM_REBUILDING \<and> s' = Some SVS_MEM_RESIDENT"

lemma reaped_refl [simp]: "reaped s s" by (simp add: reaped_def)

lemma reaped_trans: "reaped s t \<Longrightarrow> reaped t u \<Longrightarrow> reaped s u"
  by (auto simp: reaped_def)

lemma ReapReservationAt_state:
  assumes "table_ok (ws_reservations entry)" and "i < length (ws_reservations entry)" and "OidIsValid rel"
    and "ReapReservationAt env i (entry, h) = (entry', h')"
  shows "table_ok (ws_reservations entry') \<and> length (ws_reservations entry') = length (ws_reservations entry) \<and>
    ws_dbOid entry' = ws_dbOid entry \<and> hd_slots h' = hd_slots h \<and>
    reaped (table_state (ws_reservations entry) rel) (table_state (ws_reservations entry') rel)"
proof -
  let ?r = "ws_reservations entry ! i"
  show ?thesis
  proof (cases "OidIsValid (mr_relid ?r) \<and> (mr_state ?r = SVS_MEM_RESERVED \<or> mr_state ?r = SVS_MEM_REBUILDING) \<and>
      OwnerPidIsDead env (mr_ownerPid ?r) (mr_reservedAt ?r)")
    case True
    then have at: "table_state (ws_reservations entry) (mr_relid ?r) = Some (mr_state ?r)"
      using table_state_at [OF assms(1,2)] by blast
    show ?thesis
    proof (cases "mr_state ?r = SVS_MEM_REBUILDING")
      case rebuild: True
      with True assms(4) have r: "ws_reservations entry' = (ws_reservations entry)[i := RestorePriorResidency ?r]"
        "ws_dbOid entry' = ws_dbOid entry" "hd_slots h' = hd_slots h" by (auto simp: ReapReservationAt_def Let_def)
      show ?thesis
        using r rebuild at assms(1-3)
        by (auto simp: table_state_update table_ok_update reaped_def RestorePriorResidency_def)
    next
      case False
      with True assms(4) have r: "ws_reservations entry' = (ws_reservations entry)[i := ?r\<lparr>mr_relid := InvalidOid\<rparr>]"
        "ws_dbOid entry' = ws_dbOid entry" "hd_slots h' = hd_slots h" by (auto simp: ReapReservationAt_def Let_def)
      from False True have "mr_state ?r = SVS_MEM_RESERVED" by blast
      with r at assms(1-3) show ?thesis
        by (auto simp: table_state_update table_ok_update reaped_def)
    qed
  next
    case False
    then have "ReapReservationAt env i (entry, h) = (entry, h)" by (auto simp: ReapReservationAt_def Let_def)
    with assms show ?thesis by simp
  qed
qed

lemma ReapReservations_state:
  assumes "table_ok (ws_reservations entry)" and "\<forall>i \<in> set js. i < length (ws_reservations entry)"
    and "OidIsValid rel" and "fold (ReapReservationAt env) js (entry, h) = (entry', h')"
  shows "table_ok (ws_reservations entry') \<and> ws_dbOid entry' = ws_dbOid entry \<and> hd_slots h' = hd_slots h \<and>
    reaped (table_state (ws_reservations entry) rel) (table_state (ws_reservations entry') rel)"
  using assms
proof (induction js arbitrary: entry h)
  case (Cons i js)
  obtain entry1 h1 where step: "ReapReservationAt env i (entry, h) = (entry1, h1)" by force
  have i: "i < length (ws_reservations entry)" using Cons.prems(2) by simp
  note one = ReapReservationAt_state [OF Cons.prems(1) i Cons.prems(3) step]
  with Cons.prems step have "fold (ReapReservationAt env) js (entry1, h1) = (entry', h')"
    "\<forall>i \<in> set js. i < length (ws_reservations entry1)" by simp_all
  with Cons.IH [of entry1 h1] one Cons.prems(3) show ?case by (auto intro: reaped_trans)
qed (simp add: reaped_def)

lemma ReapInserts_fields:
  "ws_reservations (fold (ReapInsertAt env) js entry) = ws_reservations entry"
  "ws_dbOid (fold (ReapInsertAt env) js entry) = ws_dbOid entry"
  by (induction js arbitrary: entry) (simp_all add: ReapInsertAt_def Let_def)

lemma ReapEntry_state:
  assumes "mem_exact h" and "LookupEntryOrError h dbOid = Inr e" and "OidIsValid rel"
  shows "reaped (reservation_state h db rel) (reservation_state (ReapEntryReservations env e h) db rel)"
proof -
  note e = LookupEntryOrError_InrD(1) [OF assms(2)]
  obtain entry h' where f: "fold (ReapReservationAt env) [0..<VAMANA_MAX_INDEXES] (hd_slots h ! e, h) = (entry, h')"
    by force
  have "length (ws_reservations (hd_slots h ! e)) = VAMANA_MAX_INDEXES"
    using assms(1) e by (simp add: mem_exact_def list_all_length entry_acct_def)
  then have r: "ws_dbOid entry = ws_dbOid (hd_slots h ! e)" "hd_slots h' = hd_slots h"
    "reaped (table_state (ws_reservations (hd_slots h ! e)) rel) (table_state (ws_reservations entry) rel)"
    using ReapReservations_state [OF exact_table_ok [OF assms(1) e] _ assms(3) f] by simp_all
  have put: "ReapEntryReservations env e h =
      put_entry h' e (fold (ReapInsertAt env) [0..<SVS_MAX_PENDING_INSERT_RESERVATIONS] entry)"
    by (simp add: ReapEntryReservations_def f)
  show ?thesis
    unfolding put using r by (subst reservation_state_put [OF assms(2)])
      (simp_all add: ReapInserts_fields reservation_state_here [OF assms(2)])
qed

lemma ReapEntry_exact:
  "mem_exact h \<Longrightarrow> LookupEntryOrError h dbOid = Inr e \<Longrightarrow> mem_exact (ReapEntryReservations env e h)"
  using ReapEntryReservations_acct(1) [of "\<lambda>_. 0" "\<lambda>_. 0" h e env] LookupEntryOrError_InrD(1) [of h dbOid e]
  by (simp add: mem_exact_acct)

lemma ReapDead_transition:
  assumes "mem_exact h" and "OidIsValid rel"
  shows "transition_ok (ReapDeadReservations env) h db rel"
proof -
  have "reaped (reservation_state h db rel) (reservation_state (fold (\<lambda>dbOid h.
      case VamanaWorkerLookupSlot h dbOid of None \<Rightarrow> h | Some e \<Rightarrow> ReapEntryReservations env e h) dbs h) db rel)"
    for dbs using assms(1)
  proof (induction dbs arbitrary: h)
    case (Cons d dbs)
    show ?case
    proof (cases "VamanaWorkerLookupSlot h d")
      case (Some e)
      then have l: "LookupEntryOrError h d = Inr e" by (simp add: Lookup_Inr)
      with Some Cons.IH [OF ReapEntry_exact [OF Cons.prems l]] ReapEntry_state [OF Cons.prems l assms(2)]
      show ?thesis by (auto intro: reaped_trans)
    qed (use Cons in simp)
  qed (simp add: reaped_def)
  then show ?thesis
    by (auto simp: transition_ok_def SvsMemoryReapDeadReservations_def reaped_def)
qed
lemma DropResidentAt_state:
  assumes "table_ok (ws_reservations entry)" and "i < length (ws_reservations entry)" and "OidIsValid rel"
    and "DropResidentAt live i (dropped, entry) = (dropped', entry')"
  shows "table_ok (ws_reservations entry') \<and> length (ws_reservations entry') = length (ws_reservations entry) \<and>
    ws_dbOid entry' = ws_dbOid entry \<and>
    (table_state (ws_reservations entry') rel = table_state (ws_reservations entry) rel \<or>
     rel \<notin> set live \<and> table_state (ws_reservations entry) rel = Some SVS_MEM_RESIDENT \<and>
     table_state (ws_reservations entry') rel = None)"
proof -
  let ?r = "ws_reservations entry ! i"
  show ?thesis
  proof (cases "OidIsValid (mr_relid ?r) \<and> mr_state ?r = SVS_MEM_RESIDENT \<and> \<not> OidInArray (mr_relid ?r) live")
    case True
    then have at: "table_state (ws_reservations entry) (mr_relid ?r) = Some SVS_MEM_RESIDENT"
      using table_state_at [OF assms(1,2)] by simp
    from True assms(4) have r: "ws_reservations entry' = (ws_reservations entry)[i := ?r\<lparr>mr_relid := InvalidOid\<rparr>]"
      "ws_dbOid entry' = ws_dbOid entry" by (auto simp: DropResidentAt_def Let_def)
    with at True assms(1-3) show ?thesis
      by (auto simp: table_state_update table_ok_update OidInArray_def)
  next
    case False
    then have "DropResidentAt live i (dropped, entry) = (dropped, entry)" by (auto simp: DropResidentAt_def Let_def)
    with assms show ?thesis by simp
  qed
qed

lemma DropResidents_state:
  assumes "table_ok (ws_reservations entry)" and "\<forall>i \<in> set js. i < length (ws_reservations entry)"
    and "OidIsValid rel" and "fold (DropResidentAt live) js (dropped, entry) = (dropped', entry')"
  shows "ws_dbOid entry' = ws_dbOid entry \<and>
    (table_state (ws_reservations entry') rel = table_state (ws_reservations entry) rel \<or>
     rel \<notin> set live \<and> table_state (ws_reservations entry) rel = Some SVS_MEM_RESIDENT \<and>
     table_state (ws_reservations entry') rel = None)"
  using assms
proof (induction js arbitrary: dropped entry)
  case (Cons i js)
  obtain d1 entry1 where step: "DropResidentAt live i (dropped, entry) = (d1, entry1)" by force
  have i: "i < length (ws_reservations entry)" using Cons.prems(2) by simp
  note one = DropResidentAt_state [OF Cons.prems(1) i Cons.prems(3) step]
  with Cons.prems step have "fold (DropResidentAt live) js (d1, entry1) = (dropped', entry')"
    "\<forall>i \<in> set js. i < length (ws_reservations entry1)" by simp_all
  with Cons.IH [of entry1 d1] one Cons.prems(3) show ?case by auto
qed simp

lemma ReconcileResidentReservations_transition:
  assumes "mem_exact h" and "OidIsValid rel"
  shows "transition_ok (ReconcileResidentReservations dbOid live) h db rel"
proof (cases "LookupEntryOrError h dbOid")
  case (Inr e)
  note e = LookupEntryOrError_InrD(1) [OF Inr]
  obtain dropped entry where f: "fold (DropResidentAt live) [0..<VAMANA_MAX_INDEXES] ([], hd_slots h ! e) = (dropped, entry)"
    by force
  have "length (ws_reservations (hd_slots h ! e)) = VAMANA_MAX_INDEXES"
    using assms(1) e by (simp add: mem_exact_def list_all_length entry_acct_def)
  then have r: "ws_dbOid entry = ws_dbOid (hd_slots h ! e)"
    "table_state (ws_reservations entry) rel = table_state (ws_reservations (hd_slots h ! e)) rel \<or>
     rel \<notin> set live \<and> table_state (ws_reservations (hd_slots h ! e)) rel = Some SVS_MEM_RESIDENT \<and>
     table_state (ws_reservations entry) rel = None"
    using DropResidents_state [OF exact_table_ok [OF assms(1) e] _ assms(2) f] by simp_all
  have "snd (SvsMemoryReconcileResidentReservations dbOid live h) = put_entry h e entry"
    by (simp add: SvsMemoryReconcileResidentReservations_def Inr f)
  with r(2) show ?thesis
    by (auto simp: transition_ok_def reservation_state_put [OF Inr refl r(1)] reservation_state_here [OF Inr])
qed (simp add: transition_ok_def SvsMemoryReconcileResidentReservations_def)

section \<open>Property\<close>

definition accounting_call :: "mem_call \<Rightarrow> bool" where
  "accounting_call c = (case c of ReserveSlot _ \<Rightarrow> False | ReleaseSlot _ \<Rightarrow> False | _ \<Rightarrow> True)"



end
