(* ===== verification/Memory_Contracts.thy ===== *)
theory Memory_Contracts
  imports Memory_States
begin

text \<open>
  What single calls of \<open>svs_memory.c\<close> promise: refusals leave no trace, an aborted rebuild restores
  the index, credits of aborted inserts, search scratch under contention, and two calls that leak
  when they meet a build in progress.
\<close>

section \<open>Refusals\<close>

definition live_reservations :: "VamanaWorkerShmem \<Rightarrow> SvsMemReservation list" where
  "live_reservations entry = filter (\<lambda>r. OidIsValid (mr_relid r)) (ws_reservations entry)"

text \<open>Everything the accounting reads, in every control block.\<close>

definition accounting_view ::
    "VamanaWorkerShmemHeader \<Rightarrow> u64 \<times> u64 \<times> (oid \<times> u64 \<times> u64 \<times> u64 \<times> SvsMemReservation list \<times> SvsMemInsertReservation list) list" where
  "accounting_view h = (hd_totalBuildCommittedGlobal h, hd_totalResidencyCommittedGlobal h,
     map (\<lambda>entry. (ws_dbOid entry, ws_residencyBudget entry, ws_residencyBytesCommitted entry,
       ws_buildBytesCommitted entry, live_reservations entry, ws_insertReservations entry)) (hd_slots h))"

lemma filter_update_dead:
  "i < length xs \<Longrightarrow> \<not> P (xs ! i) \<Longrightarrow> \<not> P v \<Longrightarrow> filter P (xs[i := v]) = filter P xs"
  by (induction xs arbitrary: i) (auto split: nat.splits)

lemma map_update_same: "i < length xs \<Longrightarrow> f v = f (xs ! i) \<Longrightarrow> map f (xs[i := v]) = map f xs"
  by (simp add: map_update list_update_same_conv)

lemma refused_allocation:
  assumes "AllocateReservation (hd_slots h ! e) relid = Inr (i, entry')" and "e < length (hd_slots h)"
  shows "accounting_view (put_entry h e (FreeReservation entry' i)) = accounting_view h"
proof -
  note al = AllocateReservation_InrD [OF assms(1)]
  have "filter (\<lambda>r. OidIsValid (mr_relid r)) (ws_reservations (FreeReservation entry' i)) =
      filter (\<lambda>r. OidIsValid (mr_relid r)) (ws_reservations (hd_slots h ! e))"
    using al by (simp add: filter_update_dead)
  with al assms(2) show ?thesis
    unfolding accounting_view_def put_entry_simps
    by (subst map_update_same) (simp_all add: live_reservations_def)
qed

lemma ReserveBuild_refused:
  assumes "fst (SvsMemoryReserveBuild g env dbOid relid bp est h) = Inl err"
  shows "accounting_view (snd (SvsMemoryReserveBuild g env dbOid relid bp est h)) = accounting_view h"
proof (cases "LookupEntryOrError h dbOid")
  case (Inr e)
  note e = LookupEntryOrError_InrD(1) [OF Inr]
  show ?thesis
  proof (cases "FindReservation (hd_slots h ! e) relid")
    case None
    then show ?thesis
      using assms Inr refused_allocation [OF _ e]
      by (auto simp: SvsMemoryReserveBuild_def TryAddGlobalBuildCommitted_def Let_def
          split: option.splits sum.splits if_splits)
  next
    case (Some i)
    then show ?thesis
      using assms Inr
      by (auto simp: SvsMemoryReserveBuild_def TryAddGlobalBuildCommitted_def Let_def
          split: option.splits sum.splits if_splits)
  qed
qed (simp add: SvsMemoryReserveBuild_def)
text \<open>The calls that can refuse: an error, or the answer that the request does not fit.\<close>

fun refused :: "mem_call \<Rightarrow> VamanaWorkerShmemHeader \<Rightarrow> bool" where
  "refused (ReserveBuild g env db rel bp est) h \<longleftrightarrow> isl (fst (SvsMemoryReserveBuild g env db rel bp est h))"
| "refused (ConfirmBuild db rel bp measured) h \<longleftrightarrow> isl (fst (SvsMemoryConfirmBuild db rel bp measured h))"
| "refused (HandoffBuild db rel) h \<longleftrightarrow> isl (fst (SvsMemoryHandoffBuild db rel h))"
| "refused (ReconcileLoad env db rel measured headroom) h \<longleftrightarrow>
     isl (fst (SvsMemoryReconcileLoad env db rel measured headroom h)) \<or>
     fst (SvsMemoryReconcileLoad env db rel measured headroom h) = Inr False"
| "refused (ReserveInsert env db rel delta) h \<longleftrightarrow>
     isl (fst (SvsMemoryReserveInsert env db rel delta h)) \<or> fst (SvsMemoryReserveInsert env db rel delta h) = Inr False"
| "refused (ReanchorInsert db rel measured) h \<longleftrightarrow> isl (fst (SvsMemoryReanchorInsert db rel measured h))"
| "refused (ReconcileResident db rel measured headroom) h \<longleftrightarrow>
     isl (fst (SvsMemoryReconcileResident db rel measured headroom h))"
| "refused (SeedDurableResidency env db rel durable) h \<longleftrightarrow>
     isl (fst (SvsMemorySeedDurableResidency env db rel durable h))"
| "refused (AdmitDatabase g db budget durable) h \<longleftrightarrow> isl (fst (SvsMemoryAdmitDatabase g db budget durable h))"
| "refused (ReserveSearchScratch g db bytes) h \<longleftrightarrow>
     isl (fst (SvsMemoryReserveSearchScratch g db bytes h)) \<or> fst (SvsMemoryReserveSearchScratch g db bytes h) = Inr False"
| "refused _ h \<longleftrightarrow> False"

lemma other_calls_refused:
  "isl (fst (SvsMemoryConfirmBuild db rel bp measured h)) \<Longrightarrow> snd (SvsMemoryConfirmBuild db rel bp measured h) = h"
  "isl (fst (SvsMemoryHandoffBuild db rel h)) \<Longrightarrow> snd (SvsMemoryHandoffBuild db rel h) = h"
  "isl (fst (SvsMemoryReconcileLoad env db rel measured headroom h)) \<or>
     fst (SvsMemoryReconcileLoad env db rel measured headroom h) = Inr False \<Longrightarrow>
   snd (SvsMemoryReconcileLoad env db rel measured headroom h) = h"
  "isl (fst (SvsMemoryReserveInsert env db rel delta h)) \<or> fst (SvsMemoryReserveInsert env db rel delta h) = Inr False \<Longrightarrow>
   snd (SvsMemoryReserveInsert env db rel delta h) = h"
  "isl (fst (SvsMemoryReanchorInsert db rel measured h)) \<Longrightarrow> snd (SvsMemoryReanchorInsert db rel measured h) = h"
  "isl (fst (SvsMemoryReconcileResident db rel measured hr h)) \<Longrightarrow> snd (SvsMemoryReconcileResident db rel measured hr h) = h"
  "isl (fst (SvsMemoryAdmitDatabase g db budget durable h)) \<Longrightarrow> snd (SvsMemoryAdmitDatabase g db budget durable h) = h"
  "isl (fst (SvsMemoryReserveSearchScratch g db bytes h)) \<or> fst (SvsMemoryReserveSearchScratch g db bytes h) = Inr False \<Longrightarrow>
   snd (SvsMemoryReserveSearchScratch g db bytes h) = h"
  by (auto simp: SvsMemoryConfirmBuild_def SvsMemoryHandoffBuild_def SvsMemoryReconcileLoad_def
      SvsMemoryReserveInsert_def SvsMemoryReanchorInsert_def SvsMemoryReconcileResident_def
      SvsMemoryAdmitDatabase_def SvsMemoryReserveSearchScratch_def Let_def
      split: option.splits sum.splits if_split_asm prod.splits)

lemma Seed_refused:
  "isl (fst (SvsMemorySeedDurableResidency env db rel durable h)) \<Longrightarrow>
   snd (SvsMemorySeedDurableResidency env db rel durable h) = h"
  using other_calls_refused(3) [of env db rel durable 0 h]
  by (auto simp: SvsMemorySeedDurableResidency_def split: sum.splits if_split_asm prod.splits)


text \<open>A build whose residency fits but whose peak does not: it takes a record, then gives it back.\<close>

definition big_build :: mem_call where
  "big_build = ReserveBuild demo_gucs demo_env 7 44 5000000000 600000"

section \<open>Rebuilds\<close>

definition reservation_of :: "VamanaWorkerShmemHeader \<Rightarrow> oid \<Rightarrow> oid \<Rightarrow> SvsMemReservation option" where
  "reservation_of h dbOid relid =
     (case VamanaWorkerLookupSlot h dbOid of
        None \<Rightarrow> None
      | Some e \<Rightarrow> map_option (\<lambda>i. ws_reservations (hd_slots h ! e) ! i) (FindReservation (hd_slots h ! e) relid))"

definition counters :: "VamanaWorkerShmemHeader \<Rightarrow> u64 \<times> u64 \<times> (u64 \<times> u64 \<times> u64) list" where
  "counters h = (hd_totalBuildCommittedGlobal h, hd_totalResidencyCommittedGlobal h,
     map (\<lambda>entry. (ws_residencyBudget entry, ws_residencyBytesCommitted entry, ws_buildBytesCommitted entry)) (hd_slots h))"

lemma SubtractFloored_add:
  assumes "no_wrap c p"
  shows "SubtractFloored (c + p) p = c"
proof -
  have "unat (c + p) = unat c + unat p" using assms by (simp add: no_wrap_def unat_word_ariths)
  then show ?thesis by (simp add: SubtractFloored_def word_less_nat_alt)
qed

lemma find_index_eqI:
  assumes "i < length xs" and "P (xs ! i)" and "\<And>j. j < i \<Longrightarrow> \<not> P (xs ! j)"
  shows "find_index P xs = Some i"
proof -
  obtain j where "j \<le> i" and j: "find_index P xs = Some j" using find_index_ex [of i xs P] assms(1,2) by blast
  with find_index_SomeD(2) [OF j] assms(3) show ?thesis by (cases "j = i") auto
qed

lemma FindReservation_put_same:
  assumes "FindReservation entry relid = Some i" and "ws_reservations entry' = (ws_reservations entry)[i := r']"
    and "mr_relid r' = relid"
  shows "FindReservation entry' relid = Some i"
proof -
  note i = find_index_SomeD [OF assms(1) [unfolded FindReservation_def]]
  show ?thesis
    unfolding FindReservation_def assms(2)
    by (rule find_index_eqI) (use i assms(3) in simp_all)
qed

text \<open>The shared memory after a rebuild was reserved, and what aborting it makes of that.\<close>

lemma rebuild_reserved:
  assumes "fst (SvsMemoryReserveBuild g env dbOid relid bp est h) = Inr ()"
    and "LookupEntryOrError h dbOid = Inr e" and "FindReservation (hd_slots h ! e) relid = Some i"
  shows "mr_state (ws_reservations (hd_slots h ! e) ! i) = SVS_MEM_RESIDENT"
    and "snd (SvsMemoryReserveBuild g env dbOid relid bp est h) =
      put_entry (h\<lparr>hd_totalBuildCommittedGlobal := hd_totalBuildCommittedGlobal h + bp\<rparr>) e
        (put_reservation ((hd_slots h ! e)\<lparr>ws_buildBytesCommitted := ws_buildBytesCommitted (hd_slots h ! e) + bp\<rparr>) i
          ((ws_reservations (hd_slots h ! e) ! i)\<lparr>mr_ownerPid := MyProcPid env,
             mr_reservedAt := GetCurrentTimestamp env, mr_estimateBytes := est, mr_measuredBytes := 0,
             mr_buildPeakBytes := bp,
             mr_priorResidentBytes := mr_measuredBytes (ws_reservations (hd_slots h ! e) ! i),
             mr_state := SVS_MEM_REBUILDING\<rparr>))"
  using assms
  by (auto simp: SvsMemoryReserveBuild_def TryAddGlobalBuildCommitted_def Let_def put_reservation_def
      split: option.splits if_split_asm)

text \<open>
  C16: an aborted rebuild restores the index. When a REINDEX reserved its build over a resident
  index and is then aborted, the index is resident again with the measured bytes, reclaimable
  bytes, headroom and generation it had, no peak is outstanding, and every counter and roll-up of
  every database is back at its value from before the rebuild.
\<close>

theorem rebuild_abort_roundtrip:
  assumes "mem_exact h" and "OidIsValid relid" and "no_wrap (hd_totalBuildCommittedGlobal h) bp"
    and "reservation_of h dbOid relid = Some r" and "mr_state r = SVS_MEM_RESIDENT"
    and "SvsMemoryReserveBuild g env dbOid relid bp est h = (Inr (), h1)"
    and "SvsMemoryAbortBuild dbOid relid h1 = (res, h2)"
  shows "reservation_of h2 dbOid relid = Some (r\<lparr>mr_ownerPid := 0, mr_reservedAt := GetCurrentTimestamp env,
      mr_estimateBytes := est, mr_buildPeakBytes := 0, mr_priorResidentBytes := 0\<rparr>) \<and>
    counters h2 = counters h"
proof -
  obtain e i where e: "LookupEntryOrError h dbOid = Inr e" "FindReservation (hd_slots h ! e) relid = Some i"
    and r: "r = ws_reservations (hd_slots h ! e) ! i"
    using assms(4) by (auto simp: reservation_of_def Lookup_Inr split: option.splits)
  have le: "e < length (hd_slots h)" by (rule LookupEntryOrError_InrD(1) [OF e(1)])
  note i = FindReservation_SomeD [OF e(2)]
  have nw: "no_wrap (ws_buildBytesCommitted (hd_slots h ! e)) bp"
    using assms(3) build_le_total(1) [OF assms(1) [unfolded mem_exact_acct] le]
    by (simp add: no_wrap_def word_le_nat_alt)
  define r1 where "r1 = r\<lparr>mr_ownerPid := MyProcPid env, mr_reservedAt := GetCurrentTimestamp env,
    mr_estimateBytes := est, mr_measuredBytes := 0, mr_buildPeakBytes := bp,
    mr_priorResidentBytes := mr_measuredBytes r, mr_state := SVS_MEM_REBUILDING\<rparr>"
  define entry1 where "entry1 = put_reservation ((hd_slots h ! e)\<lparr>ws_buildBytesCommitted :=
    ws_buildBytesCommitted (hd_slots h ! e) + bp\<rparr>) i r1"
  have h1: "h1 = put_entry (h\<lparr>hd_totalBuildCommittedGlobal := hd_totalBuildCommittedGlobal h + bp\<rparr>) e entry1"
    using rebuild_reserved(2) [of g env dbOid relid bp est h e i] assms(6) e by (simp add: r r1_def entry1_def)
  have d1: "ws_dbOid entry1 = ws_dbOid (hd_slots h ! e)" by (simp add: entry1_def)
  have look: "VamanaWorkerLookupSlot h1 dbOid = Some e"
    using e(1) unfolding h1 by (subst Lookup_put [OF le _ d1]) (simp_all add: Lookup_Inr)
  have find: "FindReservation entry1 relid = Some i"
    by (rule FindReservation_put_same [OF e(2), of _ r1]) (simp_all add: entry1_def r1_def r i(2))
  have slots1: "hd_slots h1 = (hd_slots h)[e := entry1]" by (simp add: h1)
  have ab: "h2 = put_entry (release_peak_global r1 h1) e
      (put_reservation (release_peak r1 entry1) i (RestorePriorResidency r1))"
    using assms(7) look find i(1) le
    by (auto simp: SvsMemoryAbortBuild_def Lookup_Inr(1) [symmetric] slots1 Let_def entry1_def r1_def)
  define entry2 where "entry2 = put_reservation (release_peak r1 entry1) i (RestorePriorResidency r1)"
  have h2: "h2 = put_entry (release_peak_global r1 h1) e entry2" by (simp add: ab entry2_def)
  have le1: "e < length (hd_slots h1)" using le by (simp add: slots1)
  have look2: "VamanaWorkerLookupSlot h2 dbOid = Some e"
    using look unfolding h2 by (subst Lookup_put [OF le1]) (use le in \<open>simp_all add: slots1 entry2_def d1\<close>)
  have res2: "ws_reservations entry2 = (ws_reservations (hd_slots h ! e))[i := RestorePriorResidency r1]"
    by (simp add: entry2_def entry1_def)
  have find2: "FindReservation entry2 relid = Some i"
    by (rule FindReservation_put_same [OF e(2) res2]) (simp add: r1_def r i(2) RestorePriorResidency_def)
  have slots2: "hd_slots h2 = (hd_slots h)[e := entry2]" by (simp add: h2 slots1)
  have "reservation_of h2 dbOid relid = Some (RestorePriorResidency r1)"
    using look2 find2 le i(1) by (simp add: reservation_of_def slots2 res2)
  moreover have "RestorePriorResidency r1 = r\<lparr>mr_ownerPid := 0, mr_reservedAt := GetCurrentTimestamp env,
      mr_estimateBytes := est, mr_buildPeakBytes := 0, mr_priorResidentBytes := 0\<rparr>"
    using assms(5) by (simp add: RestorePriorResidency_def r1_def)
  moreover have "counters h2 = counters h"
    unfolding counters_def slots2
    by (subst map_update_same [OF le]) (simp_all add: entry2_def entry1_def h2 h1 release_peak_always r1_def
        SubtractFloored_add [OF nw] SubtractFloored_add [OF assms(3)])
  ultimately show ?thesis by simp
qed

theorem rebuild_abort_roundtrip_witness:
  "counters (snd (SvsMemoryAbortBuild 7 42 (run_calls (drop 7 demo_calls) (run_calls (take 7 demo_calls)
     (VamanaWorkerShmemStartup 2 4))))) = counters (run_calls (take 7 demo_calls) (VamanaWorkerShmemStartup 2 4))"
proof -
  let ?h = "run_calls (take 7 demo_calls) (VamanaWorkerShmemStartup 2 4)"
  have "calls_ok (BuildMemoryCeilingBytes demo_gucs) (take 7 demo_calls) (VamanaWorkerShmemStartup 2 4)" by code_simp
  then have ex: "mem_exact ?h" using mem_reachable_exact [OF run_calls_reachable [OF mem_startup]] by blast
  have nw: "no_wrap (hd_totalBuildCommittedGlobal ?h) 4000000" by code_simp
  have st: "map_option mr_state (reservation_of ?h 7 42) = Some SVS_MEM_RESIDENT" by code_simp
  have ok: "fst (SvsMemoryReserveBuild demo_gucs demo_env 7 42 4000000 800000 ?h) = Inr ()" by code_simp
  have run: "run_calls (drop 7 demo_calls) ?h = snd (SvsMemoryReserveBuild demo_gucs demo_env 7 42 4000000 800000 ?h)"
    by (simp add: demo_calls_def)
  from st obtain r where r: "reservation_of ?h 7 42 = Some r" "mr_state r = SVS_MEM_RESIDENT" by auto
  let ?b = "SvsMemoryReserveBuild demo_gucs demo_env 7 42 4000000 800000 ?h"
  have b: "?b = (Inr (), snd ?b)" using ok by (simp add: prod_eq_iff)
  obtain res h2 where a: "SvsMemoryAbortBuild 7 42 (snd ?b) = (res, h2)" by force
  have v: "OidIsValid 42" by simp
  show ?thesis
    unfolding run a snd_conv using rebuild_abort_roundtrip [OF ex v nw r b a] by (rule conjunct2)
qed
section \<open>Raw measurements and credits\<close>

lemma reservation_of_put:
  assumes "LookupEntryOrError h dbOid = Inr e" and "FindReservation (hd_slots h ! e) relid = Some i"
    and "hd_slots h' = hd_slots h" and "ws_dbOid entry' = ws_dbOid (hd_slots h ! e)"
    and "ws_reservations entry' = (ws_reservations (hd_slots h ! e))[i := r']" and "mr_relid r' = relid"
  shows "reservation_of (put_entry h' e entry') dbOid relid = Some r'"
proof -
  note e = LookupEntryOrError_InrD(1) [OF assms(1)]
  have "VamanaWorkerLookupSlot (put_entry h' e entry') dbOid = Some e"
    using assms(1) by (subst Lookup_put [OF e assms(3,4)]) (simp add: Lookup_Inr)
  with FindReservation_put_same [OF assms(2,5,6)] FindReservation_SomeD(1) [OF assms(2)] e assms(3,5)
  show ?thesis by (simp add: reservation_of_def)
qed

lemma reservation_of_SomeE:
  assumes "reservation_of h dbOid relid = Some r"
  obtains e i where "LookupEntryOrError h dbOid = Inr e" "FindReservation (hd_slots h ! e) relid = Some i"
    "r = ws_reservations (hd_slots h ! e) ! i" "mr_relid r = relid"
proof -
  obtain e i where e: "LookupEntryOrError h dbOid = Inr e" "FindReservation (hd_slots h ! e) relid = Some i"
    "r = ws_reservations (hd_slots h ! e) ! i"
    using assms by (auto simp: reservation_of_def Lookup_Inr split: option.splits)
  with that FindReservation_SomeD(2) [OF e(2)] show thesis by blast
qed

lemma ReanchorInsert_reservation:
  assumes "reservation_of h dbOid relid = Some r"
    and "SvsMemoryReanchorInsert dbOid relid measured h = (Inr (growth, gen), h1)"
  shows "reservation_of h1 dbOid relid = Some (r\<lparr>mr_reclaimableBytes := min measured (mr_reclaimableBytes r),
      mr_measuredBytes := measured - min measured (mr_reclaimableBytes r)\<rparr>)"
    and "gen = mr_residentGeneration r"
    and "growth = (if measured > mr_measuredBytes r + mr_reclaimableBytes r
      then measured - (mr_measuredBytes r + mr_reclaimableBytes r) else 0)"
proof -
  from assms(1) obtain e i where e: "LookupEntryOrError h dbOid = Inr e"
    "FindReservation (hd_slots h ! e) relid = Some i" and r: "r = ws_reservations (hd_slots h ! e) ! i" "mr_relid r = relid"
    by (rule reservation_of_SomeE)
  have m: "min measured (mr_reclaimableBytes r) =
      (if measured < mr_reclaimableBytes r then measured else mr_reclaimableBytes r)" by (auto simp: min_def)
  show "gen = mr_residentGeneration r" "growth = (if measured > mr_measuredBytes r + mr_reclaimableBytes r
      then measured - (mr_measuredBytes r + mr_reclaimableBytes r) else 0)"
    using assms(2) e by (auto simp: SvsMemoryReanchorInsert_def FindResidentReservationOrError_def Let_def r)
  have "\<exists>X. h1 = put_entry h e (put_reservation X i (r\<lparr>mr_reclaimableBytes := min measured (mr_reclaimableBytes r),
        mr_measuredBytes := measured - min measured (mr_reclaimableBytes r)\<rparr>)) \<and>
      ws_dbOid X = ws_dbOid (hd_slots h ! e) \<and> ws_reservations X = ws_reservations (hd_slots h ! e)"
    using assms(2) e unfolding m
    by (auto simp: SvsMemoryReanchorInsert_def FindResidentReservationOrError_def Let_def r(1) [symmetric] simp del: not_less)
  then obtain X where h1: "h1 = put_entry h e (put_reservation X i (r\<lparr>mr_reclaimableBytes :=
        min measured (mr_reclaimableBytes r), mr_measuredBytes := measured - min measured (mr_reclaimableBytes r)\<rparr>))"
    and X: "ws_dbOid X = ws_dbOid (hd_slots h ! e)" "ws_reservations X = ws_reservations (hd_slots h ! e)" by blast
  show "reservation_of h1 dbOid relid = Some (r\<lparr>mr_reclaimableBytes := min measured (mr_reclaimableBytes r),
      mr_measuredBytes := measured - min measured (mr_reclaimableBytes r)\<rparr>)"
    unfolding h1 by (rule reservation_of_put [OF e]) (simp_all add: r(2) X)
qed

lemma Credit_reservation:
  assumes "reservation_of h dbOid relid = Some r" and "mr_state r = SVS_MEM_RESIDENT"
    and "mr_residentGeneration r = generation" and "vamana_compact_threshold_pct g < 100"
    and "SvsMemoryCreditAbortedInserts g dbOid relid generation growth h = (k, h')"
  shows "reservation_of h' dbOid relid =
    Some (r\<lparr>mr_measuredBytes := SubtractFloored (mr_measuredBytes r) (min growth (mr_measuredBytes r)),
      mr_reclaimableBytes := mr_reclaimableBytes r + min growth (mr_measuredBytes r)\<rparr>)"
proof -
  from assms(1) obtain e i where e: "LookupEntryOrError h dbOid = Inr e"
    "FindReservation (hd_slots h ! e) relid = Some i" and r: "r = ws_reservations (hd_slots h ! e) ! i" "mr_relid r = relid"
    by (rule reservation_of_SomeE)
  have h': "h' = put_entry h e (put_reservation ((hd_slots h ! e)\<lparr>ws_residencyBytesCommitted :=
        SubtractFloored (ws_residencyBytesCommitted (hd_slots h ! e)) (min growth (mr_measuredBytes r))\<rparr>) i
      (r\<lparr>mr_measuredBytes := SubtractFloored (mr_measuredBytes r) (min growth (mr_measuredBytes r)),
        mr_reclaimableBytes := mr_reclaimableBytes r + min growth (mr_measuredBytes r)\<rparr>))"
    using assms(2-5) e(2) e(1) [unfolded Lookup_Inr]
    by (simp add: SvsMemoryCreditAbortedInserts_def Let_def r(1) [symmetric])
  show ?thesis unfolding h' by (rule reservation_of_put [OF e]) (simp_all add: r(2))
qed

lemma Credit_stale:
  assumes "reservation_of h dbOid relid = Some r" and "mr_residentGeneration r \<noteq> generation"
  shows "SvsMemoryCreditAbortedInserts g dbOid relid generation growth h = (False, h)"
  using assms
  by (auto simp: SvsMemoryCreditAbortedInserts_def reservation_of_def Let_def split: option.splits)

text \<open>Index 42 resident at 650000 bytes, before any rebuild.\<close>

definition resident_state :: VamanaWorkerShmemHeader where
  "resident_state = run_calls (take 6 demo_calls) (VamanaWorkerShmemStartup 2 4)"


section \<open>Search scratch under contention\<close>

lemma reserve_scratch_loop_granted:
  "reserve_scratch_loop budget bytes current lives = Some (Some v) \<Longrightarrow> \<exists>c \<in> set lives. v = c + bytes \<and> v \<le> budget"
  by (induction budget bytes current lives rule: reserve_scratch_loop.induct) (auto split: if_split_asm)

lemma reserve_scratch_loop_refused:
  "reserve_scratch_loop budget bytes current lives = Some None \<Longrightarrow> \<exists>c \<in> set (current # lives). c + bytes > budget"
  by (induction budget bytes current lives rule: reserve_scratch_loop.induct) (auto split: if_split_asm)

lemma reserve_scratch_loop_ends:
  "reserve_scratch_loop budget bytes current (lives @ [last (current # lives)]) \<noteq> None"
  by (induction budget bytes current lives rule: reserve_scratch_loop.induct) auto

lemma release_scratch_loop_ends:
  "release_scratch_loop bytes before (lives @ [last (before # lives)]) \<noteq> None"
  by (induction bytes before lives rule: release_scratch_loop.induct) auto

lemma release_scratch_loop_spec:
  "release_scratch_loop bytes before lives = Some v \<Longrightarrow> \<exists>c \<in> set lives. v = SubtractFloored c bytes"
  by (induction bytes before lives rule: release_scratch_loop.induct)
    (auto simp: SubtractFloored_def split: if_split_asm)



section \<open>Calls on a build in progress\<close>

lemma mem_exec_acct:
  assumes "mem_acct K B h" and "mem_call_ok C c h" and "accounting_call c"
  shows "mem_acct K B (mem_exec c h)"
proof (cases c)
  case (ReleaseSlot db)
  with assms(3) show ?thesis by (simp add: accounting_call_def)
qed (use assms in \<open>simp_all add: ReserveBuild_acct ConfirmBuild_acct HandoffBuild_acct
    AbortBuild_acct ReconcileLoad_acct AccountUnload_acct ReserveInsert_acct ReanchorInsert_acct
    ReconcileResident_acct CloseInsertReservation_acct AbortInsert_acct CreditAbortedInserts_acct
    ReapDeadReservations_acct ReconcileResidentReservations_acct SeedDurableResidency_acct
    AdmitDatabase_acct RestoreResidencyBudget_acct RecheckSearchScratchOptions_acct
    SetSearchScratchBytesPerQuery_acct SearchScratch_acct ReserveSlot_mem_acct\<close>)

lemma run_calls_acct:
  "mem_acct K B h \<Longrightarrow> calls_ok C cs h \<Longrightarrow> list_all accounting_call cs \<Longrightarrow> mem_acct K B (run_calls cs h)"
  by (induction cs arbitrary: h) (auto intro: mem_exec_acct)

lemma load_over_reserved:
  assumes "LookupEntryOrError h dbOid = Inr e" and "FindReservation (hd_slots h ! e) relid = Some i"
    and "mr_state (ws_reservations (hd_slots h ! e) ! i) = SVS_MEM_RESERVED"
    and "SvsMemoryReconcileLoad env dbOid relid measured headroom h = (Inr True, h1)"
  shows "\<exists>entry'. h1 = put_entry h e entry' \<and>
    ws_reservations entry' = (ws_reservations (hd_slots h ! e))[i := ws_reservations entry' ! i] \<and>
    mr_relid (ws_reservations entry' ! i) = mr_relid (ws_reservations (hd_slots h ! e) ! i) \<and>
    mr_state (ws_reservations entry' ! i) = SVS_MEM_RESIDENT \<and>
    mr_measuredBytes (ws_reservations entry' ! i) = measured \<and> mr_buildPeakBytes (ws_reservations entry' ! i) = 0 \<and>
    ws_insertReservations entry' = ws_insertReservations (hd_slots h ! e) \<and>
    ws_residencyBytesCommitted entry' = SubtractFloored (ws_residencyBytesCommitted (hd_slots h ! e))
      (mr_estimateBytes (ws_reservations (hd_slots h ! e) ! i)) + measured \<and>
    ws_buildBytesCommitted entry' = ws_buildBytesCommitted (hd_slots h ! e) \<and>
    ws_residencyBudget entry' = ws_residencyBudget (hd_slots h ! e)"
  using assms FindReservation_SomeD(1) [OF assms(2)]
  by (auto simp: SvsMemoryReconcileLoad_def Let_def split: option.splits if_split_asm)

text \<open>
  C40: a load that meets a build in progress leaks its peak. The load path accepts a reservation
  that is still reserved (it knows what such a reservation contributed to residency), makes the
  index resident and forgets the outstanding build peak without giving it back: from then on, after
  any accounting calls whatsoever, the database's build counter exceeds the peaks of its running
  builds by exactly that peak, and the cluster-wide counter contains it.
\<close>

theorem reserved_build_peak_leaks:
  assumes "mem_exact h" and "OidIsValid relid" and "room h dbOid measured"
    and "VamanaWorkerLookupSlot h dbOid = Some e"
    and "reservation_of h dbOid relid = Some r" and "mr_state r = SVS_MEM_RESERVED"
    and "SvsMemoryReconcileLoad env dbOid relid measured headroom h = (Inr True, h1)"
    and "calls_ok C cs h1" and "list_all accounting_call cs" and "e < length (hd_slots (run_calls cs h1))"
  shows "unat (ws_buildBytesCommitted (hd_slots (run_calls cs h1) ! e)) =
    peaks_held (hd_slots (run_calls cs h1) ! e) + unat (mr_buildPeakBytes r)"
proof -
  have look: "LookupEntryOrError h dbOid = Inr e" using assms(4) by (simp add: Lookup_Inr)
  from assms(5) obtain e' i where e': "LookupEntryOrError h dbOid = Inr e'"
    and f': "FindReservation (hd_slots h ! e') relid = Some i" and r': "r = ws_reservations (hd_slots h ! e') ! i"
    and rel: "mr_relid r = relid" by (rule reservation_of_SomeE)
  have "e' = e" using look e' by simp
  note f = f' [unfolded this] and r = r' [unfolded this] rel
  note e = LookupEntryOrError_InrD(1) [OF look] and i = FindReservation_SomeD(1) [OF f]
  note acct = assms(1) [unfolded mem_exact_acct]
  have ea: "entry_acct 0 0 (hd_slots h ! e)" using mem_acct_entry [OF acct e] by simp
  obtain entry' where h1: "h1 = put_entry h e entry'" and new: "ws_reservations entry' =
        (ws_reservations (hd_slots h ! e))[i := ws_reservations entry' ! i]"
      "mr_relid (ws_reservations entry' ! i) = relid" "mr_state (ws_reservations entry' ! i) = SVS_MEM_RESIDENT"
      "mr_measuredBytes (ws_reservations entry' ! i) = measured" "mr_buildPeakBytes (ws_reservations entry' ! i) = 0"
      "ws_insertReservations entry' = ws_insertReservations (hd_slots h ! e)"
      "ws_residencyBytesCommitted entry' =
        SubtractFloored (ws_residencyBytesCommitted (hd_slots h ! e)) (mr_estimateBytes r) + measured"
      "ws_buildBytesCommitted entry' = ws_buildBytesCommitted (hd_slots h ! e)"
      "ws_residencyBudget entry' = ws_residencyBudget (hd_slots h ! e)"
    using load_over_reserved [OF look f _ assms(7)] assms(6) r by auto
  have c: "contribution r = mr_estimateBytes r" using assms(6) by (simp add: contribution_def)
  have rep: "unat (SubtractFloored (ws_residencyBytesCommitted (hd_slots h ! e)) (mr_estimateBytes r) + measured) +
      unat (mr_estimateBytes r) = unat (ws_residencyBytesCommitted (hd_slots h ! e)) + unat measured"
    using contribution_replace [OF ea f assms(2) roomD [OF assms(3) look]] by (simp add: c r(1) [symmetric])
  have "entry_acct 0 (unat (mr_buildPeakBytes r)) entry'"
    by (rule entry_acct_reservation [OF ea i new(1,6)])
      (use new(2-8) r(2) rep assms(2,6) in \<open>simp_all add: held_def peak_def peak_settled_def contribution_def r(1) [symmetric] new(2-5)\<close>)
  then have "mem_acct (\<lambda>_. 0) ((\<lambda>_. 0)(e := unat (mr_buildPeakBytes r))) h1"
    unfolding h1 by (intro mem_acct_put [OF acct e, where entry' = entry']) (simp_all add: new(8,9))
  then have "mem_acct (\<lambda>_. 0) ((\<lambda>_. 0)(e := unat (mr_buildPeakBytes r))) (run_calls cs h1)"
    using assms(8,9) by (rule run_calls_acct)
  from mem_acct_entry [OF this assms(10)] show ?thesis by (simp add: entry_acct_def)
qed

theorem reserved_build_peak_leaks_witness:
  "peaks_held (hd_slots (snd (SvsMemoryReconcileLoad demo_env 7 43 300000 0 demo_state)) ! 0) = 4000000 \<and>
   unat (ws_buildBytesCommitted (hd_slots (snd (SvsMemoryReconcileLoad demo_env 7 43 300000 0 demo_state)) ! 0)) = 6000000"
proof -
  have ex: "mem_exact demo_state" by (rule mem_reachable_exact [OF demo_reachable])
  have rm: "room demo_state 7 300000" by code_simp
  have look: "VamanaWorkerLookupSlot demo_state 7 = Some 0" by code_simp
  have "map_option (\<lambda>r. (mr_state r, mr_buildPeakBytes r)) (reservation_of demo_state 7 43) =
    Some (SVS_MEM_RESERVED, 2000000)" by code_simp
  then obtain r where r: "reservation_of demo_state 7 43 = Some r" "mr_state r = SVS_MEM_RESERVED"
    "mr_buildPeakBytes r = 2000000" by auto
  let ?l = "SvsMemoryReconcileLoad demo_env 7 43 300000 0 demo_state"
  have "fst ?l = Inr True" by code_simp
  then have l: "?l = (Inr True, snd ?l)" by (simp add: prod_eq_iff)
  have c: "ws_buildBytesCommitted (hd_slots (snd ?l) ! 0) = 6000000" by code_simp
  have n: "length (hd_slots (snd ?l)) = 2" by code_simp
  have v: "OidIsValid 43" by simp
  show ?thesis
    using reserved_build_peak_leaks [OF ex v rm look r(1,2) l, of 0 "[]"] r(3) c n by simp
qed


end
