(* ===== verification/Capacity_Headroom.thy ===== *)
theory Capacity_Headroom
  imports Svs_Prelude "HOL-Library.Monad_Syntax"
begin

text \<open>
  Insert headroom: the binary search of \<open>svs_capacity_search.c\<close> and its use in \<open>svs_wrapper.c\<close>
  (block size of a dynamic index, capacity headroom of a build configuration).  What the SVS library
  estimates is a parameter, as is PostgreSQL's rounding to a power of two; the searches run on 64-bit
  words.
\<close>

section \<open>The capacity search\<close>

text \<open>A cost function can raise an error, which passes through the search.\<close>

function headroom_loop :: "(u64 \<Rightarrow> errcode + u64) \<Rightarrow> u64 \<Rightarrow> u64 \<Rightarrow> u64 \<Rightarrow> u64 \<Rightarrow> errcode + u64" where
  "headroom_loop costFn numVectors baseline goodDelta badDelta =
     (if badDelta - goodDelta > 1 then
        let midDelta = goodDelta + (badDelta - goodDelta) div 2
        in case costFn (numVectors + midDelta) of
             Inl err \<Rightarrow> Inl err
           | Inr cost \<Rightarrow>
               if cost = baseline
               then headroom_loop costFn numVectors baseline midDelta badDelta
               else headroom_loop costFn numVectors baseline goodDelta midDelta
      else Inr goodDelta)"
  by auto

lemma halving:
  fixes good bad :: u64
  assumes "1 < bad - good"
  shows "unat (bad - (good + (bad - good) div 2)) < unat (bad - good)"
    and "unat (good + (bad - good) div 2 - good) < unat (bad - good)"
proof -
  have half: "unat ((bad - good) div 2) < unat (bad - good)" "0 < unat ((bad - good) div 2)"
    using assms by (simp_all add: unat_div word_less_nat_alt)
  have "bad - (good + (bad - good) div 2) = (bad - good) - (bad - good) div 2" by simp
  also have "unat \<dots> = unat (bad - good) - unat ((bad - good) div 2)"
    using half by (intro unat_sub) (simp add: word_le_nat_alt)
  finally show "unat (bad - (good + (bad - good) div 2)) < unat (bad - good)" using half by simp
  show "unat (good + (bad - good) div 2 - good) < unat (bad - good)" using half by simp
qed

termination headroom_loop
  by (relation "measure (\<lambda>(costFn, n, b, good, bad). unat (bad - good))") (use halving in auto)

declare headroom_loop.simps [simp del]

definition SvsSearchCapacityHeadroom :: "(u64 \<Rightarrow> errcode + u64) \<Rightarrow> u64 \<Rightarrow> u64 \<Rightarrow> errcode + u64" where
  "SvsSearchCapacityHeadroom costFn numVectors maxSearchVectors =
     (case costFn numVectors of
        Inl err \<Rightarrow> Inl err
      | Inr baseline \<Rightarrow> headroom_loop costFn numVectors baseline 0 (maxSearchVectors + 1))"

section \<open>Block sizes and headroom of a build configuration\<close>

text \<open>
  \<open>svs_index_builder_estimate_memory_dynamic\<close> for a number of vectors and a block size: the graph and
  the data bytes, or no answer when it fails.
\<close>

type_synonym estimator = "u64 \<Rightarrow> u64 \<Rightarrow> (u64 \<times> u64) option"

definition fits_block :: "estimator \<Rightarrow> u64 \<Rightarrow> bool" where
  "fits_block estimate blocksizeBytes = (estimate 1 blocksizeBytes \<noteq> None)"

definition MAX_BLOCK :: u64 where
  "MAX_BLOCK = push_bit 48 1"

text \<open>The doubling phase; \<open>hi = 0\<close> would double forever.\<close>

partial_function (option) double_block :: "estimator \<Rightarrow> u64 \<Rightarrow> u64 \<Rightarrow> (u64 \<times> u64) option" where
  "double_block estimate lo hi =
     (if hi \<le> MAX_BLOCK \<and> \<not> fits_block estimate hi then double_block estimate hi (push_bit 1 hi)
      else Some (lo, hi))"

function bisect_block :: "estimator \<Rightarrow> u64 \<Rightarrow> u64 \<Rightarrow> u64" where
  "bisect_block estimate lo hi =
     (if hi - lo > 1 then
        let mid = lo + (hi - lo) div 2
        in if fits_block estimate mid then bisect_block estimate lo mid else bisect_block estimate mid hi
      else hi)"
  by auto
termination bisect_block
  by (relation "measure (\<lambda>(estimate, lo, hi). unat (hi - lo))") (use halving in auto)

declare bisect_block.simps [simp del]

definition SVSFindMinViableBlockSizeBytes :: "estimator \<Rightarrow> (errcode + u64) option" where
  "SVSFindMinViableBlockSizeBytes estimate =
     do {
       (lo, hi) \<leftarrow> double_block estimate 0 1;
       Some (if hi > MAX_BLOCK then Inl ERRCODE_INTERNAL_ERROR else Inr (bisect_block estimate lo hi))
     }"

text \<open>\<open>pg_nextpower2_size_t\<close> and the library's default block size are parameters.\<close>

definition SVSComputeBlockSizeBytes ::
    "(u64 \<Rightarrow> u64) \<Rightarrow> u64 \<Rightarrow> estimator \<Rightarrow> int \<Rightarrow> (errcode + u64) option" where
  "SVSComputeBlockSizeBytes nextpower2 defaultBlockSizeBytes estimate numVectors =
     do {
       r \<leftarrow> SVSFindMinViableBlockSizeBytes estimate;
       Some (case r of
           Inl err \<Rightarrow> Inl err
         | Inr vectorBytes \<Rightarrow>
             let dataBytes = word_of_int numVectors * vectorBytes
             in Inr (nextpower2 (max vectorBytes (min dataBytes defaultBlockSizeBytes))))
     }"

definition SvsBuildEstimateCost :: "estimator \<Rightarrow> u64 \<Rightarrow> bool \<Rightarrow> u64 \<Rightarrow> errcode + u64" where
  "SvsBuildEstimateCost estimate blocksizeBytes useGraphBytes numVectors =
     (case estimate numVectors blocksizeBytes of
        None \<Rightarrow> Inl ERRCODE_INTERNAL_ERROR
      | Some (graph_bytes, data_bytes) \<Rightarrow> Inr (if useGraphBytes then graph_bytes else data_bytes))"

definition SVSComputeCapacityHeadroomVectors ::
    "(u64 \<Rightarrow> u64) \<Rightarrow> u64 \<Rightarrow> estimator \<Rightarrow> int \<Rightarrow> (errcode + u64) option" where
  "SVSComputeCapacityHeadroomVectors nextpower2 defaultBlockSizeBytes estimate numVectors =
     do {
       r \<leftarrow> SVSComputeBlockSizeBytes nextpower2 defaultBlockSizeBytes estimate numVectors;
       Some (case r of
           Inl err \<Rightarrow> Inl err
         | Inr blocksizeBytes \<Rightarrow>
             (case SvsSearchCapacityHeadroom (SvsBuildEstimateCost estimate blocksizeBytes False)
                     (word_of_int numVectors) blocksizeBytes of
                Inl err \<Rightarrow> Inl err
              | Inr dataHeadroom \<Rightarrow>
                  (case SvsSearchCapacityHeadroom (SvsBuildEstimateCost estimate blocksizeBytes True)
                          (word_of_int numVectors) blocksizeBytes of
                     Inl err \<Rightarrow> Inl err
                   | Inr graphHeadroom \<Rightarrow> Inr (min dataHeadroom graphHeadroom))))
     }"

section \<open>Correctness of the search\<close>

lemma half_gap:
  fixes good bad :: u64
  assumes "good < bad" and "1 < bad - good"
  shows "good < good + (bad - good) div 2" and "good + (bad - good) div 2 < bad"
proof -
  have gap: "unat (bad - good) = unat bad - unat good" using assms(1) by (intro unat_sub) simp
  have "unat bad < 2 ^ 64" using unsigned_less [of bad] by simp
  then have "unat (good + (bad - good) div 2) = unat good + (unat bad - unat good) div 2"
    using assms(1) gap by (simp add: unat_word_ariths unat_div word_less_nat_alt)
  with assms gap show "good < good + (bad - good) div 2" "good + (bad - good) div 2 < bad"
    by (simp_all add: word_less_nat_alt)
qed

lemma gap_one:
  fixes good bad :: u64
  assumes "good < bad" and "\<not> 1 < bad - good"
  shows "good + 1 = bad"
proof -
  have "unat (bad - good) = unat bad - unat good" using assms(1) by (intro unat_sub) simp
  with assms have bad: "unat bad = unat good + 1" by (simp add: word_less_nat_alt)
  have "unat bad < 2 ^ 64" using unsigned_less [of bad] by simp
  with bad have "unat (good + 1) = unat bad" by (simp add: unat_word_ariths)
  then show ?thesis by (rule unsigned_word_eqI)
qed

text \<open>
  What the loop keeps, for any cost function that does not fail: the cost at the lower end is the
  baseline, and the upper end is past the baseline or the end of the range.
\<close>

lemma headroom_loop_correct:
  assumes "good < bad" and "cost (n + good) = b" and "cost (n + bad) \<noteq> b \<or> bad = stop"
    and "\<And>d. d < bad \<Longrightarrow> costFn (n + d) = Inr (cost (n + d))"
  shows "\<exists>d. headroom_loop costFn n b good bad = Inr d \<and> good \<le> d \<and> d < bad \<and> cost (n + d) = b \<and>
    (cost (n + (d + 1)) \<noteq> b \<or> d + 1 = stop)"
  using assms
proof (induction costFn n b good bad rule: headroom_loop.induct)
  case (1 costFn n b good bad)
  show ?case
  proof (cases "1 < bad - good")
    case True
    let ?mid = "good + (bad - good) div 2"
    note half = half_gap [OF "1.prems"(1) True]
    have mid: "costFn (n + ?mid) = Inr (cost (n + ?mid))" by (rule "1.prems"(4) [OF half(2)])
    show ?thesis
    proof (cases "cost (n + ?mid) = b")
      case flat: True
      have "headroom_loop costFn n b good bad = headroom_loop costFn n b ?mid bad"
        using True mid flat by (subst headroom_loop.simps) (simp add: Let_def)
      with "1.IH"(1) [OF True refl mid flat half(2) flat "1.prems"(3,4)] half(1) show ?thesis by force
    next
      case grown: False
      have "headroom_loop costFn n b good bad = headroom_loop costFn n b good ?mid"
        using True mid grown by (subst headroom_loop.simps) (simp add: Let_def)
      with "1.IH"(2) [OF True refl mid grown half(1) "1.prems"(2) disjI1 [OF grown]]
        "1.prems"(4) half(2) show ?thesis by force
    qed
  next
    case False
    then have "headroom_loop costFn n b good bad = Inr good" by (subst headroom_loop.simps) simp
    with gap_one [OF "1.prems"(1) False] "1.prems" show ?thesis by auto
  qed
qed

text \<open>The contract the header states: the cost is monotonic in the number of rows, within a range.\<close>

locale capacity_cost =
  fixes costFn :: "u64 \<Rightarrow> errcode + u64" and cost :: "u64 \<Rightarrow> u64" and range_end :: u64
  assumes answers: "n \<le> range_end \<Longrightarrow> costFn n = Inr (cost n)"
    and monotonic: "n \<le> m \<Longrightarrow> m \<le> range_end \<Longrightarrow> cost n \<le> cost m"
begin

lemma flat_below:
  assumes "cost (n + d) = cost n" and "unat d' \<le> unat d" and "unat n + unat d \<le> unat range_end"
  shows "cost (n + d') = cost n"
proof -
  have "unat range_end < 2 ^ 64" using unsigned_less [of range_end] by simp
  then have "n \<le> n + d'" "n + d' \<le> n + d" "n + d \<le> range_end"
    using assms(2,3) by (simp_all add: word_le_nat_alt unat_word_ariths)
  with monotonic [of n "n + d'"] monotonic [of "n + d'" "n + d"] assms(1) show ?thesis by simp
qed

lemma headroom_greatest:
  assumes "unat n + unat maxSearch \<le> unat range_end" and "unat n + unat maxSearch + 1 < 2 ^ 64"
  shows "\<exists>d. SvsSearchCapacityHeadroom costFn n maxSearch = Inr d \<and> d \<le> maxSearch \<and>
    (\<forall>d' \<le> maxSearch. cost (n + d') = cost n \<longleftrightarrow> d' \<le> d)"
proof -
  have ends: "unat (maxSearch + 1) = unat maxSearch + 1" using assms(2) by (simp add: unat_word_ariths)
  then have pos: "0 < maxSearch + 1" by (simp add: word_less_nat_alt)
  have le: "n + d \<le> range_end" if "d < maxSearch + 1" for d
    using that assms(1,2) ends by (simp add: word_less_nat_alt word_le_nat_alt unat_word_ariths)
  have "costFn n = Inr (cost n)" using answers [OF le [OF pos]] by simp
  moreover obtain d where d: "headroom_loop costFn n (cost n) 0 (maxSearch + 1) = Inr d" "d < maxSearch + 1"
    "cost (n + d) = cost n" "cost (n + (d + 1)) \<noteq> cost n \<or> d + 1 = maxSearch + 1"
    using headroom_loop_correct [OF pos _ disjI2 [OF refl], of cost n "cost n" costFn] answers le by auto
  ultimately have res: "SvsSearchCapacityHeadroom costFn n maxSearch = Inr d"
    by (simp add: SvsSearchCapacityHeadroom_def)
  have dle: "d \<le> maxSearch" using d(2) ends by (simp add: word_less_nat_alt word_le_nat_alt)
  have "cost (n + d') = cost n \<longleftrightarrow> d' \<le> d" if d': "d' \<le> maxSearch" for d'
  proof
    assume "d' \<le> d"
    then show "cost (n + d') = cost n"
      using flat_below [OF d(3)] assms(1) dle by (simp add: word_le_nat_alt)
  next
    assume flat: "cost (n + d') = cost n"
    show "d' \<le> d"
    proof (rule ccontr)
      assume gt: "\<not> d' \<le> d"
      with d' have "d \<noteq> maxSearch" by auto
      then have grown: "cost (n + (d + 1)) \<noteq> cost n" using d(4) by simp
      have "unat (d + 1) = unat d + 1"
        using dle assms(2) by (simp add: unat_word_ariths word_le_nat_alt)
      then have "unat (d + 1) \<le> unat d'" using gt by (simp add: word_le_nat_alt)
      with grown flat_below [OF flat] assms(1) d' show False by (simp add: word_le_nat_alt)
    qed
  qed
  with res dle show ?thesis by blast
qed

end
section \<open>Correctness of the block sizes\<close>

lemma unat_pow: "k < 64 \<Longrightarrow> unat (push_bit k (1 :: u64)) = 2 ^ k"
  by (simp only: unsigned_push_bit_eq) (simp add: push_bit_eq_mult take_bit_nat_eq_self_iff power_strict_increasing)

lemma unat_pow2: "k < 64 \<Longrightarrow> unat ((2 :: u64) ^ k) = 2 ^ k"
  using unat_pow [of k] by simp

lemma double_block_spec:
  assumes fits: "\<And>b. fits_block estimate b \<longleftrightarrow> v \<le> b"
    and "k \<le> 49" and "lo < v" and "lo < push_bit k 1" and "k = 49 \<longrightarrow> lo = MAX_BLOCK"
  shows "\<exists>lo' hi'. double_block estimate lo (push_bit k 1) = Some (lo', hi') \<and> lo' < v \<and>
    (v \<le> hi' \<and> hi' \<le> MAX_BLOCK \<or> MAX_BLOCK < v \<and> MAX_BLOCK < hi')"
  using assms(2-)
proof (induction "49 - k" arbitrary: k lo)
  case 0
  then have "k = 49" by simp
  moreover from this 0 have "double_block estimate lo (push_bit k 1) = Some (lo, push_bit k 1)"
    by (subst double_block.simps) (simp add: MAX_BLOCK_def)
  ultimately show ?case using 0 by auto
next
  case (Suc j)
  then have k: "k \<le> 48" by simp
  then have small: "push_bit k 1 \<le> MAX_BLOCK"
    using power_increasing [of k 48 "2 :: nat"] by (simp add: MAX_BLOCK_def word_le_nat_alt unat_pow2)
  show ?case
  proof (cases "v \<le> push_bit k 1")
    case True
    then have "double_block estimate lo (push_bit k 1) = Some (lo, push_bit k 1)"
      using fits by (subst double_block.simps) simp
    with True small Suc.prems(2) show ?thesis by blast
  next
    case False
    have step: "double_block estimate lo (push_bit k 1) = double_block estimate (push_bit k 1) (push_bit (Suc k) 1)"
      using False small fits by (subst double_block.simps) (simp add: mult.commute)
    have lt: "push_bit k (1 :: u64) < push_bit (Suc k) 1"
      using k unat_pow2 [of k] unat_pow2 [of "Suc k"] by (simp add: word_less_nat_alt)
    have top: "Suc k = 49 \<longrightarrow> push_bit k 1 = MAX_BLOCK" by (auto simp: MAX_BLOCK_def)
    show ?thesis
      unfolding step by (rule Suc.hyps(1)) (use Suc.hyps(2) k False lt top in auto)
  qed
qed

lemma bisect_block_spec:
  assumes "\<And>b. fits_block estimate b \<longleftrightarrow> v \<le> b" and "lo < v" and "v \<le> hi"
  shows "bisect_block estimate lo hi = v"
  using assms
proof (induction estimate lo hi rule: bisect_block.induct)
  case (1 estimate lo hi)
  have lt: "lo < hi" using "1.prems"(2,3) by (rule less_le_trans)
  show ?case
  proof (cases "1 < hi - lo")
    case True
    let ?mid = "lo + (hi - lo) div 2"
    show ?thesis
    proof (cases "v \<le> ?mid")
      case fit: True
      then have "bisect_block estimate lo hi = bisect_block estimate lo ?mid"
        using True "1.prems"(1) by (subst bisect_block.simps) (simp add: Let_def)
      with "1.IH"(1) [OF True refl _ "1.prems"(1,2) fit] fit "1.prems"(1) show ?thesis by simp
    next
      case False
      then have "bisect_block estimate lo hi = bisect_block estimate ?mid hi"
        using True "1.prems"(1) by (subst bisect_block.simps) (simp add: Let_def)
      with "1.IH"(2) [OF True refl _ "1.prems"(1) _ "1.prems"(3)] False "1.prems"(1) show ?thesis
        by (simp add: not_le)
    qed
  next
    case False
    then have "bisect_block estimate lo hi = hi" by (subst bisect_block.simps) simp
    moreover have "unat hi = unat lo + 1"
      using gap_one [OF lt False] unat_sub [of lo hi] lt False
      by (simp add: word_less_nat_alt word_le_nat_alt unat_word_ariths)
    then have "hi \<le> v" using "1.prems"(2) by (simp add: word_less_nat_alt word_le_nat_alt)
    ultimately show ?thesis using "1.prems"(3) by simp
  qed
qed

text \<open>
  What the code relies on of the library: the estimate for one vector fails exactly when the block
  cannot hold one element, and for viable blocks both sizes are monotonic in the number of vectors.
\<close>

locale viable_blocks =
  fixes estimate :: estimator and vectorBytes :: u64
  assumes viable: "estimate 1 b \<noteq> None \<longleftrightarrow> vectorBytes \<le> b" and element: "0 < vectorBytes"
begin

lemma fits_iff: "fits_block estimate b \<longleftrightarrow> vectorBytes \<le> b"
  using viable [of b] by (simp add: fits_block_def)

lemma min_viable:
  "SVSFindMinViableBlockSizeBytes estimate =
     Some (if vectorBytes \<le> MAX_BLOCK then Inr vectorBytes else Inl ERRCODE_INTERNAL_ERROR)"
proof -
  obtain lo hi where d: "double_block estimate 0 1 = Some (lo, hi)" "lo < vectorBytes"
    "vectorBytes \<le> hi \<and> hi \<le> MAX_BLOCK \<or> MAX_BLOCK < vectorBytes \<and> MAX_BLOCK < hi"
    using double_block_spec [of estimate vectorBytes 0 0] fits_iff element by auto
  from d(3) show ?thesis
  proof
    assume "vectorBytes \<le> hi \<and> hi \<le> MAX_BLOCK"
    with d bisect_block_spec [OF fits_iff d(2), of hi] show ?thesis
      by (auto simp: SVSFindMinViableBlockSizeBytes_def)
  qed (use d in \<open>auto simp: SVSFindMinViableBlockSizeBytes_def\<close>)
qed

end

locale block_estimator = viable_blocks +
  fixes graph data :: "u64 \<Rightarrow> u64 \<Rightarrow> u64" and range_end :: u64
  assumes estimates: "vectorBytes \<le> b \<Longrightarrow> n \<le> range_end \<Longrightarrow> estimate n b = Some (graph n b, data n b)"
    and graph_mono: "n \<le> m \<Longrightarrow> m \<le> range_end \<Longrightarrow> graph n b \<le> graph m b"
    and data_mono: "n \<le> m \<Longrightarrow> m \<le> range_end \<Longrightarrow> data n b \<le> data m b"
begin

lemma cost_contract:
  assumes "vectorBytes \<le> b"
  shows "capacity_cost (SvsBuildEstimateCost estimate b g) (\<lambda>n. if g then graph n b else data n b) range_end"
  using estimates [OF assms] graph_mono data_mono
  by unfold_locales (auto simp: SvsBuildEstimateCost_def)

lemma headroom_of_block:
  assumes "vectorBytes \<le> b" and "unat n + unat b \<le> unat range_end" and "unat n + unat b + 1 < 2 ^ 64"
  shows "\<exists>dh gh. SvsSearchCapacityHeadroom (SvsBuildEstimateCost estimate b False) n b = Inr dh \<and>
    SvsSearchCapacityHeadroom (SvsBuildEstimateCost estimate b True) n b = Inr gh \<and> dh \<le> b \<and>
    (\<forall>d \<le> b. graph (n + d) b = graph n b \<and> data (n + d) b = data n b \<longleftrightarrow> d \<le> min dh gh)"
  using capacity_cost.headroom_greatest [OF cost_contract [OF assms(1), of False] assms(2,3)]
    capacity_cost.headroom_greatest [OF cost_contract [OF assms(1), of True] assms(2,3)]
  by auto

end

section \<open>Properties\<close>

text \<open>A library that needs 400 bytes per element, in units of blocks; and rounding to powers of two.\<close>

definition demo_estimate :: estimator where
  "demo_estimate n b = (if b < 400 then None else Some (n div 100, n div (b div 400)))"

fun pow2_ge :: "nat \<Rightarrow> u64 \<Rightarrow> u64" where
  "pow2_ge 0 x = push_bit 62 1"
| "pow2_ge (Suc k) x = (if x \<le> push_bit (61 - k) 1 then push_bit (61 - k) 1 else pow2_ge k x)"

lemma word_div_mono: "n \<le> m \<Longrightarrow> n div k \<le> m div (k :: u64)"
  by (simp add: word_le_nat_alt unat_div div_le_mono)

interpretation demo_blocks: block_estimator demo_estimate 400 "\<lambda>n b. n div 100" "\<lambda>n b. n div (b div 400)" "- 1"
  by unfold_locales (auto simp: demo_estimate_def word_div_mono not_less)

interpretation demo_graph_cost: capacity_cost "SvsBuildEstimateCost demo_estimate 524288 True"
    "\<lambda>n. if True then n div 100 else n div (524288 div 400)" "- 1"
  by (rule demo_blocks.cost_contract) simp

lemma pow2_ge_bounds: "x \<le> push_bit 62 1 \<Longrightarrow> x \<le> pow2_ge k x \<and> pow2_ge k x \<le> push_bit 62 1"
proof (induction k)
  case (Suc k)
  have "(2 :: nat) ^ (61 - k) \<le> 2 ^ 62" by (rule power_increasing) auto
  then have "push_bit (61 - k) (1 :: u64) \<le> push_bit 62 1"
    unfolding word_le_nat_alt by (subst (1 2) unat_pow) simp_all
  with Suc show ?case by (simp del: push_bit_of_1)
qed simp

text \<open>
  C38: the smallest viable block is found. When the library's estimate for one vector fails exactly
  below some element size, both loops end, and the result is that element size; only an element of
  more than 2 to the 48 bytes makes the search give up with an error.
\<close>

theorem SVSFindMinViableBlockSizeBytes_exact:
  assumes "viable_blocks estimate vectorBytes"
  shows "SVSFindMinViableBlockSizeBytes estimate =
    Some (if vectorBytes \<le> MAX_BLOCK then Inr vectorBytes else Inl ERRCODE_INTERNAL_ERROR)"
  using assms by (rule viable_blocks.min_viable)

theorem SVSFindMinViableBlockSizeBytes_exact_witness:
  "SVSFindMinViableBlockSizeBytes demo_estimate = Some (Inr 400)"
  using SVSFindMinViableBlockSizeBytes_exact [OF demo_blocks.viable_blocks_axioms] by (simp add: MAX_BLOCK_def)

text \<open>
  C39: the headroom of a build configuration is exact. For a library whose estimates are monotonic,
  the block size can hold an element, both binary searches end, and the result is the number of
  rows that can be inserted before a block of either the graph or the data has to be added: within
  the searched range, neither size changes for a number of additional rows if and only if that
  number is at most the result.
\<close>

theorem SVSComputeCapacityHeadroomVectors_exact:
  assumes "block_estimator estimate vectorBytes graph data range_end" and "vectorBytes \<le> MAX_BLOCK"
    and "0 \<le> numVectors" and "numVectors < 2 ^ 31" and "defaultBlock \<le> push_bit 62 1"
    and "\<forall>x. x \<le> push_bit 62 1 \<longrightarrow> x \<le> nextpower2 x \<and> nextpower2 x \<le> push_bit 62 1" and "push_bit 63 1 \<le> range_end"
  shows "\<exists>b headroom. SVSComputeBlockSizeBytes nextpower2 defaultBlock estimate numVectors = Some (Inr b) \<and>
    vectorBytes \<le> b \<and>
    SVSComputeCapacityHeadroomVectors nextpower2 defaultBlock estimate numVectors = Some (Inr headroom) \<and>
    (\<forall>d \<le> b. graph (word_of_int numVectors + d) b = graph (word_of_int numVectors) b \<and>
       data (word_of_int numVectors + d) b = data (word_of_int numVectors) b \<longleftrightarrow> d \<le> headroom)"
proof -
  note vb = block_estimator.axioms(1) [OF assms(1)]
  let ?size = "max vectorBytes (min (word_of_int numVectors * vectorBytes) defaultBlock)"
  define b where "b = nextpower2 ?size"
  have "MAX_BLOCK \<le> push_bit 62 1" by (simp add: MAX_BLOCK_def)
  then have "?size \<le> push_bit 62 1" using assms(2,5) by (auto simp: min_def max_def)
  then have b: "?size \<le> b" "b \<le> push_bit 62 1" using assms(6) unfolding b_def by blast+
  have vb_b: "vectorBytes \<le> b" by (rule order_trans [OF max.cobounded1 b(1)])
  have blk: "SVSComputeBlockSizeBytes nextpower2 defaultBlock estimate numVectors = Some (Inr b)"
    using viable_blocks.min_viable [OF vb] assms(2) by (simp add: SVSComputeBlockSizeBytes_def b_def Let_def)
  have n: "unat (word_of_int numVectors :: u64) < 2 ^ 31"
    using assms(3,4) by (simp add: unat_eq_nat_uint uint_word_of_int nat_less_iff)
  have "unat b \<le> 2 ^ 62" using b(2) unfolding word_le_nat_alt by (subst (asm) unat_pow) simp_all
  moreover have "2 ^ 63 \<le> unat range_end" using assms(7) unfolding word_le_nat_alt by (subst (asm) unat_pow) simp_all
  ultimately have "unat (word_of_int numVectors :: u64) + unat b \<le> unat range_end"
    "unat (word_of_int numVectors :: u64) + unat b + 1 < 2 ^ 64" using n by simp_all
  from block_estimator.headroom_of_block [OF assms(1) vb_b this] blk vb_b show ?thesis
    by (auto simp: SVSComputeCapacityHeadroomVectors_def)
qed

theorem SVSComputeCapacityHeadroomVectors_exact_witness:
  "SVSComputeBlockSizeBytes (pow2_ge 62) 1073741824 demo_estimate 1234 = Some (Inr 524288) \<and>
   SVSComputeCapacityHeadroomVectors (pow2_ge 62) 1073741824 demo_estimate 1234 = Some (Inr 65)"
proof -
  have "pow2_ge 62 493600 = 524288" by code_simp
  then have b: "SVSComputeBlockSizeBytes (pow2_ge 62) 1073741824 demo_estimate 1234 = Some (Inr 524288)"
    using demo_blocks.min_viable by (simp add: SVSComputeBlockSizeBytes_def MAX_BLOCK_def Let_def)
  obtain h where h: "SVSComputeCapacityHeadroomVectors (pow2_ge 62) 1073741824 demo_estimate 1234 = Some (Inr h)"
    and iff: "\<And>d. d \<le> 524288 \<Longrightarrow> (1234 + d) div 100 = 12 \<and> (1234 + d) div 1310 = 0 \<longleftrightarrow> d \<le> (h :: u64)"
    using SVSComputeCapacityHeadroomVectors_exact [OF demo_blocks.block_estimator_axioms, of 1234 1073741824 "pow2_ge 62"]
      pow2_ge_bounds b by (auto simp: MAX_BLOCK_def)
  have "65 \<le> h" using iff [of 65] by simp
  moreover have "\<not> 66 \<le> h" using iff [of 66] by simp
  ultimately have "unat h = 65" by (simp add: word_le_nat_alt)
  then have "h = 65" by (intro unsigned_word_eqI [where 'a = nat]) simp
  with h b show ?thesis by simp
qed

end
