(* ===== verification/Vector_Buffer.thy ===== *)
theory Vector_Buffer
  imports Svs_Memory
begin

text \<open>
  \<open>svs_vector_buffer.c\<close>: the flat array that collects the vectors of a build, grown by doubling under
  the build-memory ceiling.  \<open>int64\<close> fields are integers with the wrap-around of their arithmetic
  written out; byte counts are 64-bit words.  A float is any value; memory that was allocated but not
  written holds \<open>undefined_float\<close>.
\<close>

section \<open>The buffer\<close>

definition SVS_VECTOR_BUFFER_DEFAULT_CAPACITY :: int where
  "SVS_VECTOR_BUFFER_DEFAULT_CAPACITY = 1000"

definition cast_i64 :: "int \<Rightarrow> int" where
  "cast_i64 x = (x + 2 ^ 63) mod 2 ^ 64 - 2 ^ 63"

record 'f SvsVectorBuffer =
  vb_data :: "'f list"
  vb_count :: int
  vb_capacity :: int
  vb_dimensions :: int

text \<open>
  \<open>MemoryContextAllocHuge\<close> and \<open>repalloc_huge\<close> refuse more than half of the address space; a float
  takes four bytes.
\<close>

definition MaxAllocHugeSize :: u64 where
  "MaxAllocHugeSize = 0x7FFFFFFFFFFFFFFF"

definition alloc_floats :: "'f \<Rightarrow> u64 \<Rightarrow> errcode + 'f list" where
  "alloc_floats undefined_float bytes =
     (if bytes > MaxAllocHugeSize then Inl ERRCODE_INTERNAL_ERROR
      else Inr (replicate (unat bytes div 4) undefined_float))"

definition realloc_floats :: "'f \<Rightarrow> 'f list \<Rightarrow> u64 \<Rightarrow> errcode + 'f list" where
  "realloc_floats undefined_float old bytes =
     (if bytes > MaxAllocHugeSize then Inl ERRCODE_INTERNAL_ERROR
      else Inr (take (unat bytes div 4) old @ replicate (unat bytes div 4 - length old) undefined_float))"

text \<open>\<open>memcpy\<close> of \<open>vec\<close> to a position of the array.\<close>

definition write_floats :: "'f list \<Rightarrow> nat \<Rightarrow> 'f list \<Rightarrow> 'f list" where
  "write_floats xs pos vec = take pos xs @ vec @ drop (pos + length vec) xs"

definition SvsVectorBufferInit :: "'f \<Rightarrow> int \<Rightarrow> int \<Rightarrow> errcode + 'f SvsVectorBuffer" where
  "SvsVectorBufferInit undefined_float estimatedRows dimensions =
     (let capacity = (if estimatedRows > 0 then estimatedRows else SVS_VECTOR_BUFFER_DEFAULT_CAPACITY)
      in case alloc_floats undefined_float (word_of_int (capacity * dimensions) * 4) of
           Inl err \<Rightarrow> Inl err
         | Inr floats \<Rightarrow> Inr \<lparr>vb_data = floats, vb_count = 0, vb_capacity = capacity, vb_dimensions = dimensions\<rparr>)"

definition SvsVectorBufferAppend ::
    "'f \<Rightarrow> SvsMemGucs \<Rightarrow> 'f list \<Rightarrow> 'f SvsVectorBuffer \<Rightarrow> (errcode + unit) \<times> 'f SvsVectorBuffer" where
  "SvsVectorBufferAppend undefined_float g vec buf =
     (case (if vb_count buf \<ge> vb_capacity buf then
              let newCapacity = cast_i64 (vb_capacity buf * 2);
                  newBytes = word_of_int newCapacity * word_of_int (vb_dimensions buf) * 4
              in case SvsMemoryCheckGrowthSize g newBytes of
                   Some err \<Rightarrow> Inl (err, buf)
                 | None \<Rightarrow>
                     let buf = buf\<lparr>vb_capacity := newCapacity\<rparr>
                     in case realloc_floats undefined_float (vb_data buf) newBytes of
                          Inl err \<Rightarrow> Inl (err, buf)
                        | Inr floats \<Rightarrow> Inr (buf\<lparr>vb_data := floats\<rparr>)
            else Inr buf) of
        Inl (err, buf) \<Rightarrow> (Inl err, buf)
      | Inr buf \<Rightarrow>
          (Inr (), buf\<lparr>vb_data := write_floats (vb_data buf) (nat (vb_count buf * vb_dimensions buf)) vec,
                       vb_count := vb_count buf + 1\<rparr>))"

definition SvsVectorBufferFree :: "'f SvsVectorBuffer \<Rightarrow> 'f SvsVectorBuffer" where
  "SvsVectorBufferFree buf = buf\<lparr>vb_data := [], vb_count := 0, vb_capacity := 0\<rparr>"

section \<open>What the buffer holds\<close>

definition contents :: "'f SvsVectorBuffer \<Rightarrow> 'f list" where
  "contents buf = take (nat (vb_count buf * vb_dimensions buf)) (vb_data buf)"

definition buffer_bytes :: "'f SvsVectorBuffer \<Rightarrow> int" where
  "buffer_bytes buf = vb_capacity buf * vb_dimensions buf * 4"

text \<open>The array has exactly its capacity, and fits the ceiling.\<close>

definition buffer_ok :: "SvsMemGucs \<Rightarrow> 'f SvsVectorBuffer \<Rightarrow> bool" where
  "buffer_ok g buf \<longleftrightarrow> 0 \<le> vb_count buf \<and> vb_count buf \<le> vb_capacity buf \<and> 0 < vb_capacity buf \<and>
     0 < vb_dimensions buf \<and> int (length (vb_data buf)) = vb_capacity buf * vb_dimensions buf \<and>
     buffer_bytes buf \<le> uint (BuildMemoryCeilingBytes g)"

definition gucs_ok :: "SvsMemGucs \<Rightarrow> bool" where
  "gucs_ok g \<longleftrightarrow> 1 \<le> vamana_max_build_memory_mb g \<and> vamana_max_build_memory_mb g \<le> 2 ^ 31 - 1"

lemma ceiling_bytes: "gucs_ok g \<Longrightarrow> uint (BuildMemoryCeilingBytes g) = vamana_max_build_memory_mb g * 1048576"
  by (simp add: gucs_ok_def BuildMemoryCeilingBytes_def uint_word_ariths uint_word_of_int)

lemma cast_i64_id: "- (2 ^ 63) \<le> x \<Longrightarrow> x < 2 ^ 63 \<Longrightarrow> cast_i64 x = x"
  by (simp add: cast_i64_def)

lemma doubled_bytes:
  assumes "gucs_ok g" and "buffer_ok g buf"
  shows "cast_i64 (vb_capacity buf * 2) = vb_capacity buf * 2"
    and "uint (word_of_int (vb_capacity buf * 2) * word_of_int (vb_dimensions buf) * 4 :: u64) = 2 * buffer_bytes buf"
    and "2 * buffer_bytes buf < 9007199254740992"
proof -
  show le: "2 * buffer_bytes buf < 9007199254740992"
    using assms ceiling_bytes [OF assms(1)] by (simp add: buffer_ok_def gucs_ok_def)
  have "vb_capacity buf * 1 \<le> vb_capacity buf * vb_dimensions buf"
    using assms(2) by (intro mult_left_mono) (simp_all add: buffer_ok_def)
  with le have "vb_capacity buf < 2251799813685248" unfolding buffer_bytes_def by linarith
  then show "cast_i64 (vb_capacity buf * 2) = vb_capacity buf * 2"
    using assms(2) by (intro cast_i64_id) (simp_all add: buffer_ok_def)
  have "word_of_int (vb_capacity buf * 2) * word_of_int (vb_dimensions buf) * 4 = (word_of_int (2 * buffer_bytes buf) :: u64)"
    by (simp add: buffer_bytes_def ac_simps)
  moreover have "uint (word_of_int N :: u64) = N" if "0 \<le> N" "N < 9007199254740992" for N
    using that by (simp add: uint_word_of_int)
  moreover have "0 \<le> 2 * buffer_bytes buf" using assms(2) by (simp add: buffer_ok_def buffer_bytes_def)
  ultimately show "uint (word_of_int (vb_capacity buf * 2) * word_of_int (vb_dimensions buf) * 4 :: u64) = 2 * buffer_bytes buf"
    using le by metis
qed

lemma write_at_end:
  assumes "pos + length vec \<le> length xs"
  shows "take (pos + length vec) (write_floats xs pos vec) = take pos xs @ vec"
    and "length (write_floats xs pos vec) = length xs"
  using assms by (simp_all add: write_floats_def)

lemma write_row:
  assumes "buffer_ok g buf" and "vb_count buf < vb_capacity buf" and "int (length vec) = vb_dimensions buf"
    and "buf' = buf\<lparr>vb_data := write_floats (vb_data buf) (nat (vb_count buf * vb_dimensions buf)) vec,
      vb_count := vb_count buf + 1\<rparr>"
  shows "buffer_ok g buf' \<and> contents buf' = contents buf @ vec"
proof -
  let ?pos = "nat (vb_count buf * vb_dimensions buf)"
  have nn: "0 \<le> vb_count buf * vb_dimensions buf" using assms(1) by (simp add: buffer_ok_def)
  have nxt: "nat ((vb_count buf + 1) * vb_dimensions buf) = ?pos + length vec"
    using nn assms(3) by (simp add: distrib_right nat_add_distrib)
  have "(vb_count buf + 1) * vb_dimensions buf \<le> vb_capacity buf * vb_dimensions buf"
    using assms(1,2) by (intro mult_right_mono) (simp_all add: buffer_ok_def)
  then have fit: "?pos + length vec \<le> length (vb_data buf)"
    using assms(1) by (simp add: buffer_ok_def nat_le_iff flip: nxt)
  from write_at_end [OF fit] assms nxt show ?thesis
    by (auto simp: buffer_ok_def contents_def buffer_bytes_def)
qed

lemma grown_ok:
  assumes "gucs_ok g" and "buffer_ok g buf" and "2 * buffer_bytes buf \<le> uint (BuildMemoryCeilingBytes g)"
    and "newBytes = word_of_int (vb_capacity buf * 2) * word_of_int (vb_dimensions buf) * (4 :: u64)"
  shows "\<exists>floats. realloc_floats u (vb_data buf) newBytes = Inr floats \<and>
    buffer_ok g (buf\<lparr>vb_capacity := vb_capacity buf * 2, vb_data := floats\<rparr>) \<and>
    contents (buf\<lparr>vb_capacity := vb_capacity buf * 2, vb_data := floats\<rparr>) = contents buf"
proof -
  note d = doubled_bytes [OF assms(1,2)]
  have bytes: "uint newBytes = 2 * buffer_bytes buf" using d(2) by (simp add: assms(4))
  have "\<not> newBytes > MaxAllocHugeSize"
    using d(3) bytes by (simp add: MaxAllocHugeSize_def word_less_def not_less)
  moreover have nn: "0 \<le> vb_capacity buf * vb_dimensions buf" using assms(2) by (simp add: buffer_ok_def)
  moreover have "int (unat newBytes div 4) = 2 * (vb_capacity buf * vb_dimensions buf)"
    using bytes nn unfolding unat_eq_nat_uint by (simp add: buffer_bytes_def zdiv_int)
  moreover have "nat (vb_count buf * vb_dimensions buf) \<le> length (vb_data buf)"
    using assms(2) by (simp add: buffer_ok_def nat_le_iff mult_right_mono)
  ultimately show ?thesis
    using assms(2,3) by (auto simp: realloc_floats_def buffer_ok_def contents_def buffer_bytes_def)
qed
lemma Append_spec:
  assumes "gucs_ok g" and "buffer_ok g buf" and "int (length vec) = vb_dimensions buf"
  shows "if vb_count buf < vb_capacity buf \<or> 2 * buffer_bytes buf \<le> uint (BuildMemoryCeilingBytes g)
    then \<exists>buf'. SvsVectorBufferAppend u g vec buf = (Inr (), buf') \<and> buffer_ok g buf' \<and>
      contents buf' = contents buf @ vec \<and> vb_count buf' = vb_count buf + 1 \<and> vb_dimensions buf' = vb_dimensions buf
    else SvsVectorBufferAppend u g vec buf = (Inl ERRCODE_OUT_OF_MEMORY, buf)"
proof (cases "vb_count buf < vb_capacity buf")
  case True
  with write_row [OF assms(2) True assms(3) refl] show ?thesis by (simp add: SvsVectorBufferAppend_def)
next
  case full: False
  define newBytes where "newBytes = word_of_int (vb_capacity buf * 2) * word_of_int (vb_dimensions buf) * (4 :: u64)"
  note d = doubled_bytes [OF assms(1,2), folded newBytes_def]
  have check: "SvsMemoryCheckGrowthSize g newBytes =
      (if 2 * buffer_bytes buf \<le> uint (BuildMemoryCeilingBytes g) then None else Some ERRCODE_OUT_OF_MEMORY)"
    by (simp add: SvsMemoryCheckGrowthSize_def word_less_def d(2) not_less)
  show ?thesis
  proof (cases "2 * buffer_bytes buf \<le> uint (BuildMemoryCeilingBytes g)")
    case True
    obtain floats where f: "realloc_floats u (vb_data buf) newBytes = Inr floats"
      "buffer_ok g (buf\<lparr>vb_capacity := vb_capacity buf * 2, vb_data := floats\<rparr>)"
      "contents (buf\<lparr>vb_capacity := vb_capacity buf * 2, vb_data := floats\<rparr>) = contents buf"
      using grown_ok [OF assms(1,2) True newBytes_def] by blast
    have room: "vb_count (buf\<lparr>vb_capacity := vb_capacity buf * 2, vb_data := floats\<rparr>) <
        vb_capacity (buf\<lparr>vb_capacity := vb_capacity buf * 2, vb_data := floats\<rparr>)"
      using assms(2) by (simp add: buffer_ok_def)
    from write_row [OF f(2) room _ refl, of vec] assms(3) True full f(1,3) d(1) check show ?thesis
      by (simp add: SvsVectorBufferAppend_def Let_def newBytes_def)
  next
    case False
    with full d(1) check show ?thesis by (simp add: SvsVectorBufferAppend_def Let_def newBytes_def)
  qed
qed

fun append_rows :: "'f \<Rightarrow> SvsMemGucs \<Rightarrow> 'f list list \<Rightarrow> 'f SvsVectorBuffer \<Rightarrow> (errcode + unit) \<times> 'f SvsVectorBuffer" where
  "append_rows u g [] buf = (Inr (), buf)"
| "append_rows u g (vec # vecs) buf =
     (case SvsVectorBufferAppend u g vec buf of
        (Inl err, buf) \<Rightarrow> (Inl err, buf)
      | (Inr _, buf) \<Rightarrow> append_rows u g vecs buf)"

lemma append_rows_spec:
  assumes "gucs_ok g" and "buffer_ok g buf" and "\<forall>vec \<in> set vecs. int (length vec) = vb_dimensions buf"
    and "append_rows u g vecs buf = (res, buf')"
  shows "buffer_ok g buf' \<and> vb_dimensions buf' = vb_dimensions buf \<and> (\<exists>n \<le> length vecs. vb_count buf' = vb_count buf + int n \<and>
    contents buf' = contents buf @ concat (take n vecs) \<and>
    (res = Inr () \<and> n = length vecs \<or>
     res = Inl ERRCODE_OUT_OF_MEMORY \<and> vb_count buf' = vb_capacity buf' \<and>
     2 * buffer_bytes buf' > uint (BuildMemoryCeilingBytes g)))"
  using assms(2-)
proof (induction vecs arbitrary: buf)
  case (Cons vec vecs)
  have len: "int (length vec) = vb_dimensions buf" using Cons.prems(2) by simp
  note ap = Append_spec [OF assms(1) Cons.prems(1) len, of u]
  show ?case
  proof (cases "vb_count buf < vb_capacity buf \<or> 2 * buffer_bytes buf \<le> uint (BuildMemoryCeilingBytes g)")
    case True
    with ap obtain b where b: "SvsVectorBufferAppend u g vec buf = (Inr (), b)" "buffer_ok g b"
      "contents b = contents buf @ vec" "vb_count b = vb_count buf + 1" "vb_dimensions b = vb_dimensions buf" by auto
    from Cons.IH [OF b(2)] Cons.prems b obtain n where "n \<le> length vecs" "buffer_ok g buf'" "vb_dimensions buf' = vb_dimensions b"
      "vb_count buf' = vb_count b + int n" "contents buf' = contents b @ concat (take n vecs)"
      "res = Inr () \<and> n = length vecs \<or> res = Inl ERRCODE_OUT_OF_MEMORY \<and> vb_count buf' = vb_capacity buf' \<and>
       2 * buffer_bytes buf' > uint (BuildMemoryCeilingBytes g)" by auto
    with b show ?thesis by (auto intro!: exI [of _ "Suc n"])
  next
    case False
    with ap have "SvsVectorBufferAppend u g vec buf = (Inl ERRCODE_OUT_OF_MEMORY, buf)" by simp
    with Cons.prems False show ?thesis by (auto simp: buffer_ok_def intro!: exI [of _ 0])
  qed
qed simp

section \<open>Property\<close>

text \<open>
  The build buffer collects every vector within the memory ceiling. Starting from an estimate
  that fits \<open>svs.max_build_memory\<close>, appending any number of vectors either stores all of them in
  order, or stops with an out-of-memory error at the first one for which the array would have to be
  doubled past the ceiling, with all earlier vectors intact; the array never exceeds the ceiling, is
  never overrun, and no 64-bit size wraps.
\<close>

theorem vector_buffer_collects:
  assumes "gucs_ok g" and "0 < dimensions" and "\<forall>vec \<in> set vecs. int (length vec) = dimensions"
    and "(if estimatedRows > 0 then estimatedRows else SVS_VECTOR_BUFFER_DEFAULT_CAPACITY) * dimensions * 4
      \<le> uint (BuildMemoryCeilingBytes g)"
  shows "\<exists>buf0. SvsVectorBufferInit u estimatedRows dimensions = Inr buf0 \<and>
    (let (res, buf) = append_rows u g vecs buf0 in
      buffer_bytes buf \<le> uint (BuildMemoryCeilingBytes g) \<and>
      vb_count buf * dimensions \<le> int (length (vb_data buf)) \<and>
      contents buf = concat (take (nat (vb_count buf)) vecs) \<and>
      (res = Inr () \<and> vb_count buf = int (length vecs) \<or>
       res = Inl ERRCODE_OUT_OF_MEMORY \<and> 2 * buffer_bytes buf > uint (BuildMemoryCeilingBytes g)))"
proof -
  define cap where "cap = (if estimatedRows > 0 then estimatedRows else SVS_VECTOR_BUFFER_DEFAULT_CAPACITY)"
  have cap: "0 < cap" by (simp add: cap_def SVS_VECTOR_BUFFER_DEFAULT_CAPACITY_def)
  have fit: "cap * dimensions * 4 \<le> uint (BuildMemoryCeilingBytes g)" using assms(4) by (simp add: cap_def)
  then have small: "cap * dimensions * 4 < 9007199254740992"
    using assms(1) ceiling_bytes [OF assms(1)] by (simp add: gucs_ok_def)
  have nn: "0 \<le> cap * dimensions" using cap assms(2) by simp
  have w: "uint (word_of_int N * 4 :: u64) = N * 4" if "0 \<le> N" "N * 4 < 9007199254740992" for N
    using that by (simp add: uint_word_ariths uint_word_of_int)
  let ?bytes = "word_of_int (cap * dimensions) * 4 :: u64"
  have bytes: "uint ?bytes = cap * dimensions * 4" by (rule w [OF nn small])
  have "\<not> ?bytes > MaxAllocHugeSize"
    using bytes small by (simp add: MaxAllocHugeSize_def word_less_def not_less)
  moreover have len: "int (unat ?bytes div 4) = cap * dimensions"
    using bytes nn unfolding unat_eq_nat_uint by (simp add: zdiv_int)
  ultimately have init: "SvsVectorBufferInit u estimatedRows dimensions =
      Inr \<lparr>vb_data = replicate (unat ?bytes div 4) u, vb_count = 0, vb_capacity = cap, vb_dimensions = dimensions\<rparr>"
    by (simp add: SvsVectorBufferInit_def alloc_floats_def cap_def Let_def)
  define buf0 where "buf0 = \<lparr>vb_data = replicate (unat ?bytes div 4) u, vb_count = 0, vb_capacity = cap,
    vb_dimensions = dimensions\<rparr>"
  have ok: "buffer_ok g buf0"
    using cap fit len assms(2) by (simp add: buffer_ok_def buf0_def buffer_bytes_def)
  obtain res buf where run: "append_rows u g vecs buf0 = (res, buf)" by force
  have dims: "\<forall>vec \<in> set vecs. int (length vec) = vb_dimensions buf0" using assms(3) by (simp add: buf0_def)
  from append_rows_spec [OF assms(1) ok dims run] obtain n where n: "buffer_ok g buf" "vb_dimensions buf = dimensions"
    "n \<le> length vecs" "vb_count buf = int n" "contents buf = concat (take n vecs)"
    "res = Inr () \<and> n = length vecs \<or>
     res = Inl ERRCODE_OUT_OF_MEMORY \<and> 2 * buffer_bytes buf > uint (BuildMemoryCeilingBytes g)"
    by (auto simp: buf0_def contents_def)
  have "vb_count buf * dimensions \<le> vb_capacity buf * dimensions"
    using n(1,2) by (intro mult_right_mono) (auto simp: buffer_ok_def)
  with n init run show ?thesis by (auto simp: buf0_def buffer_ok_def)
qed

definition demo_buffer_gucs :: SvsMemGucs where
  "demo_buffer_gucs = \<lparr>vamana_max_build_memory_mb = 1, vamana_max_residency_memory_mb = 1,
     vamana_default_residency_memory_mb = 1, vamana_default_search_work_mem_mb = 1, vamana_compact_threshold_pct = 50\<rparr>"

theorem vector_buffer_collects_witness:
  "\<exists>buf0. SvsVectorBufferInit (0 :: nat) 1 2 = Inr buf0 \<and>
    contents (snd (append_rows 0 demo_buffer_gucs [[11, 12], [21, 22], [31, 32]] buf0)) = [11, 12, 21, 22, 31, 32]"
proof -
  have c: "uint (BuildMemoryCeilingBytes demo_buffer_gucs) = 1048576"
    by (simp add: BuildMemoryCeilingBytes_def demo_buffer_gucs_def)
  have g: "gucs_ok demo_buffer_gucs" by (simp add: gucs_ok_def demo_buffer_gucs_def)
  define rows where "rows = ([[11, 12], [21, 22], [31, 32]] :: nat list list)"
  have dims: "\<forall>vec \<in> set rows. int (length vec) = 2" by (simp add: rows_def)
  have fit: "(if (0 :: int) < 1 then 1 else SVS_VECTOR_BUFFER_DEFAULT_CAPACITY) * 2 * 4
      \<le> uint (BuildMemoryCeilingBytes demo_buffer_gucs)" by (simp add: c)
  obtain buf0 where b: "SvsVectorBufferInit (0 :: nat) 1 2 = Inr buf0"
    and r: "let (res, buf) = append_rows 0 demo_buffer_gucs rows buf0 in
      buffer_bytes buf \<le> uint (BuildMemoryCeilingBytes demo_buffer_gucs) \<and>
      vb_count buf * 2 \<le> int (length (vb_data buf)) \<and> contents buf = concat (take (nat (vb_count buf)) rows) \<and>
      (res = Inr () \<and> vb_count buf = int (length rows) \<or>
       res = Inl ERRCODE_OUT_OF_MEMORY \<and> 2 * buffer_bytes buf > uint (BuildMemoryCeilingBytes demo_buffer_gucs))"
    using vector_buffer_collects [OF g _ dims fit, of 0] by auto
  obtain res buf where run: "append_rows 0 demo_buffer_gucs rows buf0 = (res, buf)" by force
  have "fst (append_rows 0 demo_buffer_gucs rows (projr (SvsVectorBufferInit (0 :: nat) 1 2))) = Inr ()"
    unfolding rows_def by code_simp
  with b run have "res = Inr ()" by simp
  with r run have "contents buf = concat rows" by simp
  with b run show ?thesis by (auto simp: rows_def)
qed

end
