(* ===== verification/Cpu_Slots.thy ===== *)
theory Cpu_Slots
  imports Svs_Prelude
begin

text \<open>
  \<open>svs_cpu_slots.c\<close>: a set of parked background workers that is converged on a target count.  What the
  server answers (the status of a worker, whether a registration succeeds and the worker starts) is
  part of the environment; memory contexts and the wording of logs are not represented.
\<close>

section \<open>The slot set\<close>

datatype BgwHandleStatus = BGWH_STARTED | BGWH_NOT_YET_STARTED | BGWH_STOPPED | BGWH_POSTMASTER_DIED

type_synonym BackgroundWorkerHandle = nat

record SvsParkedSlotArg =
  arg_slotIndex :: int
  arg_slotTotal :: int
  arg_reserved :: int
  arg_datname :: string
  arg_dbOid :: oid
  arg_ownerPid :: pid

record SvsSlotEntry =
  se_handle :: BackgroundWorkerHandle
  se_slotIndex :: int

text \<open>The array up to \<open>count\<close>; \<open>ss_capacity\<close> is what is allocated.\<close>

record SvsSlotSet =
  ss_datname :: string
  ss_dbOid :: oid
  ss_ownerPid :: pid
  ss_entries :: "SvsSlotEntry list"
  ss_capacity :: int
  ss_inShortfall :: bool

definition ss_count :: "SvsSlotSet \<Rightarrow> int" where
  "ss_count s = int (length (ss_entries s))"

definition SvsSlotSetCreate :: "pid \<Rightarrow> string \<Rightarrow> oid \<Rightarrow> SvsSlotSet" where
  "SvsSlotSetCreate MyProcPid datname dbOid =
     \<lparr>ss_datname = datname, ss_dbOid = dbOid, ss_ownerPid = MyProcPid, ss_entries = [], ss_capacity = 0,
      ss_inShortfall = False\<rparr>"

definition EnsureCapacity :: "int \<Rightarrow> SvsSlotSet \<Rightarrow> SvsSlotSet" where
  "EnsureCapacity needed s =
     (if needed \<le> ss_capacity s then s
      else s\<lparr>ss_capacity := max needed (max (ss_capacity s * 2) 8)\<rparr>)"

text \<open>The scan of \<open>ReapDeadSlots\<close>: a dead entry is removed and the later ones slide down.\<close>

fun reap_scan :: "(BackgroundWorkerHandle \<Rightarrow> BgwHandleStatus) \<Rightarrow> SvsSlotEntry list \<Rightarrow> SvsSlotEntry list" where
  "reap_scan status [] = []"
| "reap_scan status (entry # entries) =
     (if status (se_handle entry) = BGWH_STOPPED \<or> status (se_handle entry) = BGWH_POSTMASTER_DIED
      then reap_scan status entries
      else entry # reap_scan status entries)"

definition ReapDeadSlots :: "(BackgroundWorkerHandle \<Rightarrow> BgwHandleStatus) \<Rightarrow> SvsSlotSet \<Rightarrow> SvsSlotSet" where
  "ReapDeadSlots status s = s\<lparr>ss_entries := reap_scan status (ss_entries s)\<rparr>"

definition SvsSlotSetCount :: "(BackgroundWorkerHandle \<Rightarrow> BgwHandleStatus) \<Rightarrow> SvsSlotSet \<Rightarrow> int \<times> SvsSlotSet" where
  "SvsSlotSetCount status s = (let s = ReapDeadSlots status s in (ss_count s, s))"

text \<open>The smallest free label; no result is the end of the loop the code takes to be unreachable.\<close>

definition AllocateSlotIndex :: "SvsSlotSet \<Rightarrow> int option" where
  "AllocateSlotIndex s =
     find (\<lambda>candidate. \<not> list_ex (\<lambda>entry. se_slotIndex entry = candidate) (ss_entries s))
       (map int [1..<length (ss_entries s) + 2])"

definition SVS_SLOT_SHUTDOWN_TIMEOUT_MS :: int where
  "SVS_SLOT_SHUTDOWN_TIMEOUT_MS = 10000"

text \<open>
  The poll loop of \<open>WaitForSlotShutdownBounded\<close>.  A round sees the status of the worker, whether an
  interrupt is raised, the time elapsed, and whether the latch wait reports the death of the
  postmaster.  At the end of the rounds it is still waiting.
\<close>

record shutdown_round =
  rd_status :: BgwHandleStatus
  rd_interrupt :: bool
  rd_elapsedMs :: int
  rd_postmaster_death :: bool

datatype shutdown_wait = Wait_returns bool | Wait_interrupted | Wait_goes_on

fun WaitForSlotShutdownBounded :: "int \<Rightarrow> shutdown_round list \<Rightarrow> shutdown_wait" where
  "WaitForSlotShutdownBounded timeoutMs [] = Wait_goes_on"
| "WaitForSlotShutdownBounded timeoutMs (rd # rounds) =
     (if rd_status rd = BGWH_STOPPED then Wait_returns True
      else if rd_status rd = BGWH_POSTMASTER_DIED then Wait_returns False
      else if rd_interrupt rd then Wait_interrupted
      else if timeoutMs - rd_elapsedMs rd \<le> 0 then Wait_returns False
      else if rd_postmaster_death rd then Wait_returns False
      else WaitForSlotShutdownBounded timeoutMs rounds)"

datatype slot_stop = Stop_interrupted | Stop_waiting

text \<open>
  The shrink loop: the most recently registered worker is terminated first.  With the entries kept
  come the handles whose shutdown was waited for, in that order; an interrupted wait leaves the entry
  in the set.
\<close>

function shrink_loop ::
    "(BackgroundWorkerHandle \<Rightarrow> shutdown_round list) \<Rightarrow> int \<Rightarrow> SvsSlotEntry list
     \<Rightarrow> (slot_stop + BackgroundWorkerHandle list) \<times> SvsSlotEntry list" where
  "shrink_loop rounds target entries =
     (if int (length entries) > target \<and> entries \<noteq> [] then
        let handle = se_handle (last entries) in
        case WaitForSlotShutdownBounded SVS_SLOT_SHUTDOWN_TIMEOUT_MS (rounds handle) of
          Wait_interrupted \<Rightarrow> (Inl Stop_interrupted, entries)
        | Wait_goes_on \<Rightarrow> (Inl Stop_waiting, entries)
        | Wait_returns _ \<Rightarrow>
            let (r, kept) = shrink_loop rounds target (butlast entries)
            in (map_sum id (\<lambda>terminated. handle # terminated) r, kept)
      else (Inr [], entries))"
  by pat_completeness auto
termination by (relation "measure (\<lambda>(_, _, entries). length entries)") auto

text \<open>
  The growth loop.  \<open>register n\<close> is what the n-th registration comes to: refused by the server,
  interrupted while waiting for the start, or a handle with the status after that wait.  The
  arguments handed to the workers that started are returned with the set.
\<close>

datatype register_outcome =
    Register_refused
  | Startup_interrupted
  | Startup_status BackgroundWorkerHandle BgwHandleStatus

definition slot_arg :: "int \<Rightarrow> int \<Rightarrow> SvsSlotSet \<Rightarrow> SvsParkedSlotArg" where
  "slot_arg slotIndex target s =
     \<lparr>arg_slotIndex = slotIndex, arg_slotTotal = target, arg_reserved = target,
      arg_datname = ss_datname s, arg_dbOid = ss_dbOid s, arg_ownerPid = ss_ownerPid s\<rparr>"

definition add_entry :: "BackgroundWorkerHandle \<Rightarrow> int \<Rightarrow> SvsSlotSet \<Rightarrow> SvsSlotSet" where
  "add_entry handle slotIndex s =
     s\<lparr>ss_entries := ss_entries s @ [\<lparr>se_handle = handle, se_slotIndex = slotIndex\<rparr>]\<rparr>"

fun grow_loop ::
    "(nat \<Rightarrow> register_outcome) \<Rightarrow> int \<Rightarrow> nat \<Rightarrow> nat \<Rightarrow> SvsSlotSet
     \<Rightarrow> (slot_stop + SvsParkedSlotArg list) \<times> SvsSlotSet" where
  "grow_loop register target attempt 0 s = (Inr [], s)"
| "grow_loop register target attempt (Suc missing) s =
     (let s = EnsureCapacity (ss_count s + 1) s in
      case AllocateSlotIndex s of
        None \<Rightarrow> (Inr [], s)
      | Some slotIndex \<Rightarrow>
          (case register attempt of
             Register_refused \<Rightarrow> (Inr [], s)
           | Startup_interrupted \<Rightarrow> (Inl Stop_interrupted, s)
           | Startup_status handle status \<Rightarrow>
               if status \<noteq> BGWH_STARTED then (Inr [], s)
               else
                 let (r, s') = grow_loop register target (Suc attempt) missing (add_entry handle slotIndex s)
                 in (map_sum id (\<lambda>args. slot_arg slotIndex target s # args) r, s')))"

datatype ShortfallLog = LogHolding int int | LogCleared int int

definition LogShortfallTransition :: "int \<Rightarrow> SvsSlotSet \<Rightarrow> ShortfallLog option \<times> SvsSlotSet" where
  "LogShortfallTransition target s =
     (let nowShort = (ss_count s < target);
          log = (if nowShort \<and> \<not> ss_inShortfall s then Some (LogHolding (ss_count s) target)
                 else if \<not> nowShort \<and> ss_inShortfall s then Some (LogCleared (ss_count s) target)
                 else None)
      in (log, s\<lparr>ss_inShortfall := nowShort\<rparr>))"

record SlotResizeResult =
  rs_count :: int
  rs_terminated :: "BackgroundWorkerHandle list"
  rs_args :: "SvsParkedSlotArg list"
  rs_log :: "ShortfallLog option"

text \<open>What one call meets: statuses, shutdowns and registrations.\<close>

record slot_env =
  env_status :: "BackgroundWorkerHandle \<Rightarrow> BgwHandleStatus"
  env_rounds :: "BackgroundWorkerHandle \<Rightarrow> shutdown_round list"
  env_register :: "nat \<Rightarrow> register_outcome"

definition SvsSlotSetResize :: "slot_env \<Rightarrow> int \<Rightarrow> SvsSlotSet \<Rightarrow> (slot_stop + SlotResizeResult) \<times> SvsSlotSet" where
  "SvsSlotSetResize E target s =
     (let target = (if target < 0 then 0 else target);
          s = ReapDeadSlots (env_status E) s;
          (shrunk, entries) = shrink_loop (env_rounds E) target (ss_entries s);
          s = s\<lparr>ss_entries := entries\<rparr>
      in case shrunk of
           Inl stop \<Rightarrow> (Inl stop, s)
         | Inr terminated \<Rightarrow>
             (let (grown, s) = grow_loop (env_register E) target 0 (nat (target - ss_count s)) s
              in case grown of
                   Inl stop \<Rightarrow> (Inl stop, s)
                 | Inr args \<Rightarrow>
                     (let (log, s) = LogShortfallTransition target s
                      in (Inr \<lparr>rs_count = ss_count s, rs_terminated = terminated, rs_args = args,
                               rs_log = log\<rparr>, s))))"

definition SvsSlotSetReleaseAll :: "slot_env \<Rightarrow> SvsSlotSet \<Rightarrow> (slot_stop + unit) \<times> SvsSlotSet" where
  "SvsSlotSetReleaseAll E s = apfst (map_sum id (\<lambda>_. ())) (SvsSlotSetResize E 0 s)"

text \<open>
  The parked worker itself.  A round of its loop sees whether an interrupt is raised, whether the
  termination signal has arrived, and whether its owner is alive; \<open>None\<close>: still parked.
\<close>

record parked_round =
  pr_interrupt :: bool
  pr_sigterm :: bool
  pr_owner_alive :: bool

datatype parked_exit = Parked_error | Parked_proc_exit int

definition SvsParkedSlotResolveOwnerAliveFn :: "SvsParkedSlotArg \<Rightarrow> (parked_round \<Rightarrow> bool) option" where
  "SvsParkedSlotResolveOwnerAliveFn arg = (if \<not> OidIsValid (arg_dbOid arg) then None else Some pr_owner_alive)"

fun parked_loop :: "(parked_round \<Rightarrow> bool) option \<Rightarrow> parked_round list \<Rightarrow> parked_exit option" where
  "parked_loop ownerIsAlive [] = None"
| "parked_loop ownerIsAlive (rd # rounds) =
     (if pr_interrupt rd then Some Parked_error
      else if pr_sigterm rd then Some (Parked_proc_exit 0)
      else if (case ownerIsAlive of None \<Rightarrow> False | Some alive \<Rightarrow> \<not> alive rd) then Some (Parked_proc_exit 0)
      else parked_loop ownerIsAlive rounds)"

definition SvsParkedSlotMain :: "SvsParkedSlotArg \<Rightarrow> parked_round list \<Rightarrow> parked_exit option" where
  "SvsParkedSlotMain arg rounds = parked_loop (SvsParkedSlotResolveOwnerAliveFn arg) rounds"

lemma parked_loop_exits:
  assumes "\<forall>rd \<in> set rounds. \<not> pr_interrupt rd"
  shows "parked_loop f rounds =
    (if \<exists>rd \<in> set rounds. pr_sigterm rd \<or> (\<exists>alive. f = Some alive \<and> \<not> alive rd) then Some (Parked_proc_exit 0) else None)"
  using assms by (induction rounds) (auto split: option.splits)

section \<open>Labels\<close>

definition labels :: "SvsSlotSet \<Rightarrow> int list" where
  "labels s = map se_slotIndex (ss_entries s)"

definition labels_ok :: "SvsSlotSet \<Rightarrow> bool" where
  "labels_ok s \<longleftrightarrow> distinct (labels s) \<and> (\<forall>i \<in> set (labels s). 1 \<le> i)"

lemma find_SomeD:
  assumes "find P xs = Some x"
  shows "P x" "x \<in> set xs"
  using assms by (auto simp: find_Some_iff)

lemma AllocateSlotIndex_spec:
  "\<exists>i. AllocateSlotIndex s = Some i \<and> 1 \<le> i \<and> i \<le> ss_count s + 1 \<and> i \<notin> set (labels s)"
proof -
  let ?n = "length (ss_entries s)"
  have "card (set (labels s)) \<le> ?n" by (metis card_length labels_def length_map)
  moreover have "card (int ` {1..<?n + 2}) = ?n + 1" by (simp add: card_image)
  ultimately have "\<not> int ` {1..<?n + 2} \<subseteq> set (labels s)"
    using card_mono [of "set (labels s)" "int ` {1..<?n + 2}"] by auto
  then obtain c where c: "c \<in> set (map int [1..<?n + 2])" "c \<notin> set (labels s)"
    unfolding set_map set_upt by blast
  have test: "\<not> list_ex (\<lambda>entry. se_slotIndex entry = i) (ss_entries s) \<longleftrightarrow> i \<notin> set (labels s)" for i
    by (auto simp: labels_def list_ex_iff)
  have "AllocateSlotIndex s \<noteq> None"
    unfolding AllocateSlotIndex_def test find_None_iff using c by blast
  then obtain i where i: "AllocateSlotIndex s = Some i" by blast
  then have "i \<notin> set (labels s)" "i \<in> set (map int [1..<?n + 2])"
    unfolding AllocateSlotIndex_def test using find_SomeD by fast+
  then have "1 \<le> i" "i \<le> int ?n + 1" unfolding set_map set_upt by auto
  with i \<open>i \<notin> set (labels s)\<close> show ?thesis by (simp add: ss_count_def)
qed

lemma labels_ok_subseq:
  assumes "labels_ok s" "distinct (map se_slotIndex es)" "set es \<subseteq> set (ss_entries s)"
  shows "labels_ok (s\<lparr>ss_entries := es\<rparr>)"
  using assms by (auto simp: labels_ok_def labels_def)

lemma reap_scan_filter:
  "reap_scan status es =
     filter (\<lambda>e. status (se_handle e) \<notin> {BGWH_STOPPED, BGWH_POSTMASTER_DIED}) es"
  by (induction es) auto

lemma EnsureCapacity_fields [simp]:
  "ss_entries (EnsureCapacity n s) = ss_entries s" "labels (EnsureCapacity n s) = labels s"
  "ss_count (EnsureCapacity n s) = ss_count s" "ss_inShortfall (EnsureCapacity n s) = ss_inShortfall s"
  "ss_datname (EnsureCapacity n s) = ss_datname s" "ss_dbOid (EnsureCapacity n s) = ss_dbOid s"
  "ss_ownerPid (EnsureCapacity n s) = ss_ownerPid s"
  by (auto simp: EnsureCapacity_def labels_def ss_count_def)

lemma EnsureCapacity_room: "n \<le> ss_capacity (EnsureCapacity n s)"
  by (auto simp: EnsureCapacity_def)

lemma add_entry_fields [simp]:
  "ss_entries (add_entry h i s) = ss_entries s @ [\<lparr>se_handle = h, se_slotIndex = i\<rparr>]"
  "labels (add_entry h i s) = labels s @ [i]" "ss_count (add_entry h i s) = ss_count s + 1"
  "ss_capacity (add_entry h i s) = ss_capacity s" "ss_inShortfall (add_entry h i s) = ss_inShortfall s"
  by (auto simp: add_entry_def labels_def ss_count_def)

declare shrink_loop.simps [simp del]

lemma shrink_loop_stop:
  assumes "\<not> (int (length entries) > target \<and> entries \<noteq> [])"
  shows "shrink_loop rounds target entries = (Inr [], entries)"
  using assms by (subst shrink_loop.simps) (simp only: if_False)

lemma shrink_loop_step:
  assumes "int (length entries) > target" "entries \<noteq> []"
  shows "shrink_loop rounds target entries =
    (case WaitForSlotShutdownBounded SVS_SLOT_SHUTDOWN_TIMEOUT_MS (rounds (se_handle (last entries))) of
       Wait_interrupted \<Rightarrow> (Inl Stop_interrupted, entries)
     | Wait_goes_on \<Rightarrow> (Inl Stop_waiting, entries)
     | Wait_returns _ \<Rightarrow>
         apfst (map_sum id (\<lambda>terminated. se_handle (last entries) # terminated))
           (shrink_loop rounds target (butlast entries)))"
  using assms by (subst shrink_loop.simps)
    (simp add: Let_def case_prod_unfold apfst_def map_prod_def split: shutdown_wait.splits)

lemma shrink_loop_prefix:
  "\<exists>dropped. entries = snd (shrink_loop rounds target entries) @ dropped"
proof (induction rounds target entries rule: shrink_loop.induct)
  case (1 rounds target entries)
  show ?case
  proof (cases "int (length entries) > target \<and> entries \<noteq> [] \<and>
      (\<exists>b. WaitForSlotShutdownBounded SVS_SLOT_SHUTDOWN_TIMEOUT_MS (rounds (se_handle (last entries)))
             = Wait_returns b)")
    case True
    then obtain d where d: "butlast entries = snd (shrink_loop rounds target (butlast entries)) @ d"
      using 1 by blast
    have "entries = butlast entries @ [last entries]" using True by simp
    also have "\<dots> = snd (shrink_loop rounds target entries) @ (d @ [last entries])"
      using True by (subst d) (auto simp: shrink_loop_step)
    finally show ?thesis by blast
  next
    case False
    then show ?thesis
      by (cases "int (length entries) > target \<and> entries \<noteq> []")
        (auto simp: shrink_loop_step shrink_loop_stop split: shutdown_wait.splits)
  qed
qed

lemma shrink_loop_done:
  assumes "shrink_loop rounds target entries = (Inr terminated, kept)" "0 \<le> target"
  shows "kept = take (nat target) entries"
    "terminated = rev (map se_handle (drop (nat target) entries))"
proof -
  have "0 \<le> target \<Longrightarrow> shrink_loop rounds target entries = (Inr terminated, kept) \<Longrightarrow>
     kept = take (nat target) entries \<and> terminated = rev (map se_handle (drop (nat target) entries))"
    for terminated kept
  proof (induction rounds target entries arbitrary: terminated kept rule: shrink_loop.induct)
    case (1 rounds target entries)
    show ?case
    proof (cases "int (length entries) > target \<and> entries \<noteq> []")
      case True
      then obtain b t where t: "shrink_loop rounds target (butlast entries) = (Inr t, kept)"
          "terminated = se_handle (last entries) # t"
          "WaitForSlotShutdownBounded SVS_SLOT_SHUTDOWN_TIMEOUT_MS (rounds (se_handle (last entries)))
             = Wait_returns b"
        using 1 (3) by (cases "shrink_loop rounds target (butlast entries)"; cases "fst (shrink_loop rounds target (butlast entries))")
          (auto simp: shrink_loop_step split: shutdown_wait.splits)
      then have ih: "kept = take (nat target) (butlast entries)"
          "t = rev (map se_handle (drop (nat target) (butlast entries)))"
        using 1 True by blast+
      have e: "entries = butlast entries @ [last entries]" using True by simp
      have "nat target \<le> length (butlast entries)" using True by auto
      with ih t(2) show ?thesis by (subst (1 2) e) simp
    next
      case False
      then show ?thesis using 1 (2,3) by (auto simp: shrink_loop_stop)
    qed
  qed
  then show "kept = take (nat target) entries"
    "terminated = rev (map se_handle (drop (nat target) entries))" using assms by auto
qed

text \<open>What the growth loop keeps: labels stay fresh, and earlier entries stay where they are.\<close>

lemma grow_loop_spec:
  assumes "labels_ok s" "ss_count s + int missing = target"
  shows "labels_ok (snd (grow_loop register target attempt missing s)) \<and>
    (\<exists>new. ss_entries (snd (grow_loop register target attempt missing s)) = ss_entries s @ new \<and>
       length new \<le> missing \<and>
       (\<forall>args. fst (grow_loop register target attempt missing s) = Inr args \<longrightarrow>
          map arg_slotIndex args = map se_slotIndex new \<and>
          (\<forall>arg \<in> set args. 1 \<le> arg_slotIndex arg \<and> arg_slotIndex arg \<le> arg_slotTotal arg)))"
  using assms
proof (induction missing arbitrary: attempt s)
  case 0
  then show ?case by simp
next
  case (Suc missing)
  let ?s = "EnsureCapacity (ss_count s + 1) s"
  obtain i where i: "AllocateSlotIndex ?s = Some i" "1 \<le> i" "i \<le> ss_count s + 1" "i \<notin> set (labels s)"
    using AllocateSlotIndex_spec [of ?s] by auto
  show ?case
  proof (cases "\<exists>h. register attempt = Startup_status h BGWH_STARTED")
    case True
    then obtain h where h: "register attempt = Startup_status h BGWH_STARTED" by blast
    let ?s' = "add_entry h i ?s"
    let ?g = "grow_loop register target (Suc attempt) missing ?s'"
    have ok: "labels_ok ?s'" using Suc.prems(1) i by (auto simp: labels_ok_def)
    obtain new where new: "labels_ok (snd ?g)" "ss_entries (snd ?g) = ss_entries ?s' @ new"
        "length new \<le> missing" "\<forall>args. fst ?g = Inr args \<longrightarrow> map arg_slotIndex args = map se_slotIndex new \<and>
          (\<forall>arg \<in> set args. 1 \<le> arg_slotIndex arg \<and> arg_slotIndex arg \<le> arg_slotTotal arg)"
      using Suc.IH [of ?s' "Suc attempt"] ok Suc.prems(2) by auto
    have le: "i \<le> target" using i(3) Suc.prems(2) by simp
    obtain r g where rg: "?g = (r, g)" by (cases ?g)
    show ?thesis using new i h le rg
      by (auto simp: Let_def slot_arg_def map_sum_def split: sum.splits
          intro!: exI [of _ "\<lparr>se_handle = h, se_slotIndex = i\<rparr> # new"])
  next
    case False
    then show ?thesis using Suc.prems i
      by (auto simp: Let_def labels_ok_def split: register_outcome.splits)
  qed
qed

lemma grow_loop_capacity:
  "ss_count s \<le> ss_capacity s \<Longrightarrow>
     ss_count (snd (grow_loop register target attempt missing s))
       \<le> ss_capacity (snd (grow_loop register target attempt missing s)) \<and>
     ss_inShortfall (snd (grow_loop register target attempt missing s)) = ss_inShortfall s"
proof (induction missing arbitrary: attempt s)
  case (Suc missing)
  let ?s = "EnsureCapacity (ss_count s + 1) s"
  have r: "ss_count s + 1 \<le> ss_capacity ?s" by (rule EnsureCapacity_room)
  have "ss_count (add_entry h i ?s) \<le> ss_capacity (add_entry h i ?s)" for h i using r by simp
  note Suc.IH [OF this]
  with r show ?case
    by (auto simp: Let_def case_prod_unfold split: option.splits register_outcome.splits)
qed simp

lemma grow_loop_all_start:
  assumes "\<forall>n. \<exists>h. register n = Startup_status h BGWH_STARTED"
  shows "ss_count (snd (grow_loop register target attempt missing s)) = ss_count s + int missing"
proof (induction missing arbitrary: attempt s)
  case (Suc missing)
  let ?s = "EnsureCapacity (ss_count s + 1) s"
  obtain i where "AllocateSlotIndex ?s = Some i" using AllocateSlotIndex_spec [of ?s] by blast
  moreover obtain h where "register attempt = Startup_status h BGWH_STARTED" using assms by blast
  ultimately show ?case using Suc.IH [of "Suc attempt" "add_entry h i ?s"]
    by (simp add: Let_def case_prod_unfold)
qed simp

definition slots_ok :: "SvsSlotSet \<Rightarrow> bool" where
  "slots_ok s \<longleftrightarrow> labels_ok s \<and> ss_count s \<le> ss_capacity s"

definition live_slots :: "slot_env \<Rightarrow> SvsSlotSet \<Rightarrow> SvsSlotEntry list" where
  "live_slots E s =
     filter (\<lambda>e. env_status E (se_handle e) \<notin> {BGWH_STOPPED, BGWH_POSTMASTER_DIED}) (ss_entries s)"

text \<open>The two loops of a resize, and how its outcome is put together from theirs.\<close>

definition shrunk_set :: "slot_env \<Rightarrow> int \<Rightarrow> SvsSlotSet \<Rightarrow> SvsSlotSet" where
  "shrunk_set E target s = s\<lparr>ss_entries := snd (shrink_loop (env_rounds E) target (live_slots E s))\<rparr>"

lemma ReapDeadSlots_live: "ReapDeadSlots (env_status E) s = s\<lparr>ss_entries := live_slots E s\<rparr>"
  by (simp add: ReapDeadSlots_def reap_scan_filter live_slots_def)

lemma SvsSlotSetResize_cases:
  assumes "SvsSlotSetResize E target s = (r, s')" "t = (if target < 0 then 0 else target)"
  obtains (stopped) stop where "r = Inl stop" "s' = shrunk_set E t s"
  | (grow_stopped) stop terminated where "r = Inl stop"
      "shrink_loop (env_rounds E) t (live_slots E s) = (Inr terminated, ss_entries (shrunk_set E t s))"
      "s' = snd (grow_loop (env_register E) t 0 (nat (t - ss_count (shrunk_set E t s))) (shrunk_set E t s))"
  | (returned) terminated args s1 where
      "shrink_loop (env_rounds E) t (live_slots E s) = (Inr terminated, ss_entries (shrunk_set E t s))"
      "grow_loop (env_register E) t 0 (nat (t - ss_count (shrunk_set E t s))) (shrunk_set E t s) = (Inr args, s1)"
      "s' = s1\<lparr>ss_inShortfall := ss_count s1 < t\<rparr>"
      "r = Inr \<lparr>rs_count = ss_count s1, rs_terminated = terminated, rs_args = args,
                rs_log = fst (LogShortfallTransition t s1)\<rparr>"
proof (cases "shrink_loop (env_rounds E) t (live_slots E s)")
  case (Pair a es)
  then have es: "shrunk_set E t s = s\<lparr>ss_entries := es\<rparr>" by (simp add: shrunk_set_def)
  have unf: "SvsSlotSetResize E target s =
      (case a of Inl stop \<Rightarrow> (Inl stop, shrunk_set E t s)
       | Inr terminated \<Rightarrow>
          (case grow_loop (env_register E) t 0 (nat (t - ss_count (shrunk_set E t s))) (shrunk_set E t s) of
             (grown, s1) \<Rightarrow> (case grown of Inl stop \<Rightarrow> (Inl stop, s1)
               | Inr args \<Rightarrow> (Inr \<lparr>rs_count = ss_count s1, rs_terminated = terminated, rs_args = args,
                   rs_log = fst (LogShortfallTransition t s1)\<rparr>, s1\<lparr>ss_inShortfall := ss_count s1 < t\<rparr>))))"
    unfolding SvsSlotSetResize_def Let_def assms(2) [symmetric] ReapDeadSlots_live es
    using Pair by (cases a) (auto simp: LogShortfallTransition_def Let_def ss_count_def split: prod.splits sum.splits)
  show thesis
  proof (cases a)
    case (Inl stop)
    then show thesis using unf assms(1) that(1) by simp
  next
    case (Inr terminated)
    obtain grown s1 where g: "grow_loop (env_register E) t 0 (nat (t - ss_count (shrunk_set E t s)))
        (shrunk_set E t s) = (grown, s1)" by fastforce
    have es': "es = ss_entries (shrunk_set E t s)" by (simp add: es)
    show thesis
    proof (cases grown)
      case (Inl stop)
      then show thesis using unf assms(1) that(2) Pair g \<open>a = Inr terminated\<close> es' by auto
    next
      case (Inr args)
      then show thesis using unf assms(1) that(3) Pair g \<open>a = Inr terminated\<close> es' by auto
    qed
  qed
qed

lemma shrunk_set_ok:
  assumes "slots_ok s"
  shows "slots_ok (shrunk_set E t s)" "ss_inShortfall (shrunk_set E t s) = ss_inShortfall s"
proof -
  let ?kept = "snd (shrink_loop (env_rounds E) t (live_slots E s))"
  obtain d where d: "live_slots E s = ?kept @ d" using shrink_loop_prefix by metis
  have "distinct (map se_slotIndex (live_slots E s))"
    using assms unfolding slots_ok_def labels_ok_def labels_def live_slots_def
    by (simp add: distinct_map_filter)
  then have "distinct (map se_slotIndex ?kept)" by (subst (asm) d) simp
  moreover have "set ?kept \<subseteq> set (live_slots E s)" by (subst (2) d) simp
  then have "set ?kept \<subseteq> set (ss_entries s)" by (auto simp: live_slots_def)
  moreover have "length ?kept \<le> length (live_slots E s)" by (subst (2) d) simp
  then have "length ?kept \<le> length (ss_entries s)"
    unfolding live_slots_def by (meson le_trans length_filter_le)
  ultimately show "slots_ok (shrunk_set E t s)" "ss_inShortfall (shrunk_set E t s) = ss_inShortfall s"
    using assms labels_ok_subseq [of s ?kept] by (auto simp: slots_ok_def shrunk_set_def ss_count_def)
qed

lemma grown_set_ok:
  assumes "slots_ok s" "ss_count s + int missing = target \<or> missing = 0"
  shows "slots_ok (snd (grow_loop register target attempt missing s))"
    "ss_inShortfall (snd (grow_loop register target attempt missing s)) = ss_inShortfall s"
  using assms grow_loop_spec [of s missing target register attempt]
    grow_loop_capacity [of s register target attempt missing]
  by (auto simp: slots_ok_def)

lemma SvsSlotSetResize_ok:
  assumes "slots_ok s"
  shows "slots_ok (snd (SvsSlotSetResize E target s))"
proof -
  let ?t = "if target < 0 then 0 else target"
  obtain r s' where r: "SvsSlotSetResize E target s = (r, s')" by fastforce
  note ok = shrunk_set_ok [OF assms, of E ?t]
  have miss: "ss_count u + int (nat (?t - ss_count u)) = ?t \<or> nat (?t - ss_count u) = 0" for u by auto
  note grown = grown_set_ok [OF ok(1) miss, of "env_register E" 0]
  from r refl [of ?t] have "slots_ok s'"
  proof (cases rule: SvsSlotSetResize_cases)
    case (returned terminated args s1)
    have "slots_ok s1" using grown(1) returned(2) by (metis snd_conv)
    with returned(3) show ?thesis by (simp add: slots_ok_def labels_ok_def labels_def ss_count_def)
  qed (use ok grown in \<open>auto\<close>)
  with r show ?thesis by simp
qed

text \<open>A history of resizes: the outcomes, oldest first, and the set they leave.\<close>

fun run_resizes :: "(slot_env \<times> int) list \<Rightarrow> SvsSlotSet \<Rightarrow> (slot_stop + SlotResizeResult) list \<times> SvsSlotSet" where
  "run_resizes [] s = ([], s)"
| "run_resizes ((E, target) # calls) s =
     (let (r, s) = SvsSlotSetResize E target s; (rs, s) = run_resizes calls s in (r # rs, s))"

fun shortfall_logs :: "(slot_stop + SlotResizeResult) list \<Rightarrow> ShortfallLog list" where
  "shortfall_logs [] = []"
| "shortfall_logs (Inl _ # rs) = shortfall_logs rs"
| "shortfall_logs (Inr r # rs) = (case rs_log r of None \<Rightarrow> [] | Some l \<Rightarrow> [l]) @ shortfall_logs rs"

fun alternating :: "bool \<Rightarrow> ShortfallLog list \<Rightarrow> bool" where
  "alternating short [] = True"
| "alternating short (LogHolding held target # ls) = (\<not> short \<and> held < target \<and> alternating True ls)"
| "alternating short (LogCleared held target # ls) = (short \<and> held \<ge> target \<and> alternating False ls)"

lemma SvsSlotSetResize_args:
  assumes "slots_ok s" "SvsSlotSetResize E target s = (Inr r, s')"
  shows "\<forall>arg \<in> set (rs_args r). 1 \<le> arg_slotIndex arg \<and> arg_slotIndex arg \<le> arg_slotTotal arg"
proof -
  let ?t = "if target < 0 then 0 else target"
  from assms(2) refl [of ?t] show ?thesis
  proof (cases rule: SvsSlotSetResize_cases)
    case (returned terminated args s1)
    let ?u = "shrunk_set E ?t s"
    show ?thesis
    proof (cases "nat (?t - ss_count ?u)")
      case 0
      then show ?thesis using returned by simp
    next
      case (Suc n)
      then have "ss_count ?u + int (nat (?t - ss_count ?u)) = ?t" by linarith
      from grow_loop_spec [OF _ this, of "env_register E" 0] show ?thesis
        using shrunk_set_ok(1) [OF assms(1)] returned by (auto simp: slots_ok_def)
    qed
  qed auto
qed

lemma SvsSlotSetResize_log:
  assumes "slots_ok s" "SvsSlotSetResize E target s = (r, s')"
  shows "alternating (ss_inShortfall s') (shortfall_logs rs) \<Longrightarrow>
     alternating (ss_inShortfall s) (shortfall_logs (r # rs))"
proof -
  let ?t = "if target < 0 then 0 else target"
  note ok = shrunk_set_ok [OF assms(1), of E ?t]
  have miss: "ss_count u + int (nat (?t - ss_count u)) = ?t \<or> nat (?t - ss_count u) = 0" for u by auto
  note grown = grown_set_ok(2) [OF ok(1) miss, of "env_register E" 0]
  assume rest: "alternating (ss_inShortfall s') (shortfall_logs rs)"
  from assms(2) refl [of ?t] show ?thesis
  proof (cases rule: SvsSlotSetResize_cases)
    case (returned terminated args s1)
    have "ss_inShortfall s1 = ss_inShortfall s" using grown ok(2) returned(2) by (metis snd_conv)
    then show ?thesis using rest returned(3,4)
      by (auto simp: LogShortfallTransition_def Let_def not_less)
  qed (use ok grown rest in \<open>auto\<close>)
qed

lemma run_resizes_ok:
  assumes "slots_ok s"
  shows "slots_ok (snd (run_resizes calls s)) \<and> alternating (ss_inShortfall s) (shortfall_logs (fst (run_resizes calls s))) \<and>
     (\<forall>r. Inr r \<in> set (fst (run_resizes calls s)) \<longrightarrow>
        (\<forall>arg \<in> set (rs_args r). 1 \<le> arg_slotIndex arg \<and> arg_slotIndex arg \<le> arg_slotTotal arg))"
  using assms
proof (induction calls s rule: run_resizes.induct)
  case (2 E target calls s)
  obtain r s' where r: "SvsSlotSetResize E target s = (r, s')" by fastforce
  have ok: "slots_ok s'" using SvsSlotSetResize_ok [OF 2(2), of E target] r by simp
  obtain rs t where rs: "run_resizes calls s' = (rs, t)" by fastforce
  have ih: "slots_ok t" "alternating (ss_inShortfall s') (shortfall_logs rs)"
    "\<forall>r. Inr r \<in> set rs \<longrightarrow>
        (\<forall>arg \<in> set (rs_args r). 1 \<le> arg_slotIndex arg \<and> arg_slotIndex arg \<le> arg_slotTotal arg)"
    using 2(1) [OF r [symmetric] refl] ok rs by auto
  note log = SvsSlotSetResize_log [OF 2(2) r ih(2)]
  have args: "\<forall>q. r = Inr q \<longrightarrow>
        (\<forall>arg \<in> set (rs_args q). 1 \<le> arg_slotIndex arg \<and> arg_slotIndex arg \<le> arg_slotTotal arg)"
    using SvsSlotSetResize_args [OF 2(2)] r by blast
  show ?case using ih(1,3) log args by (auto simp: r rs Let_def)
qed auto

lemma created_slots_ok [simp]: "slots_ok (SvsSlotSetCreate p d db)"
  by (simp add: SvsSlotSetCreate_def slots_ok_def labels_ok_def labels_def ss_count_def)

text \<open>
  An example: three workers start, the second one dies and the target becomes four while the server
  refuses the second registration, and then the target drops to two.
\<close>

definition demo_slot_env :: "nat \<Rightarrow> BackgroundWorkerHandle list \<Rightarrow> nat \<Rightarrow> slot_env" where
  "demo_slot_env base dead started =
     \<lparr>env_status = (\<lambda>h. if h \<in> set dead then BGWH_STOPPED else BGWH_STARTED),
      env_rounds = (\<lambda>h. [\<lparr>rd_status = BGWH_STARTED, rd_interrupt = False, rd_elapsedMs = 0,
                           rd_postmaster_death = False\<rparr>,
                         \<lparr>rd_status = BGWH_STOPPED, rd_interrupt = False, rd_elapsedMs = 1000,
                           rd_postmaster_death = False\<rparr>]),
      env_register = (\<lambda>n. if n < started then Startup_status (base + n) BGWH_STARTED else Register_refused)\<rparr>"

definition demo_resizes :: "(slot_env \<times> int) list" where
  "demo_resizes = [(demo_slot_env 10 [] 8, 3), (demo_slot_env 20 [11] 1, 4), (demo_slot_env 30 [] 8, 2)]"

definition demo_slots :: "nat \<Rightarrow> SvsSlotSet" where
  "demo_slots n = snd (run_resizes (take n demo_resizes) (SvsSlotSetCreate 42 ''db'' 5))"

lemma demo_slots_ok: "slots_ok (demo_slots n)"
  using run_resizes_ok [OF created_slots_ok] unfolding demo_slots_def by blast

section \<open>Properties\<close>

text \<open>
  C29: every worker that a slot set registers, over any history of resizes, is given a label between
  1 and the total it is told, the workers held at any time have pairwise different positive labels,
  and the entries never outgrow the allocated array.
\<close>

theorem slot_labels_unique:
  assumes "run_resizes calls (SvsSlotSetCreate MyProcPid datname dbOid) = (outcomes, s)"
  shows "distinct (map se_slotIndex (ss_entries s)) \<and> list_all (\<lambda>e. 1 \<le> se_slotIndex e) (ss_entries s) \<and>
    int (length (ss_entries s)) \<le> ss_capacity s \<and>
    (\<forall>r. Inr r \<in> set outcomes \<longrightarrow>
       list_all (\<lambda>arg. 1 \<le> arg_slotIndex arg \<and> arg_slotIndex arg \<le> arg_slotTotal arg) (rs_args r))"
  using run_resizes_ok [OF created_slots_ok, of calls MyProcPid datname dbOid] assms
  by (auto simp: slots_ok_def labels_ok_def labels_def list_all_iff ss_count_def)

theorem slot_labels_unique_witness:
  "map se_slotIndex (ss_entries (demo_slots 2)) = [1, 3, 2] \<and>
   distinct (map se_slotIndex (ss_entries (demo_slots 2)))"
proof -
  let ?run = "run_resizes (take 2 demo_resizes) (SvsSlotSetCreate 42 ''db'' 5)"
  have "distinct (map se_slotIndex (ss_entries (snd ?run)))"
    using slot_labels_unique [of "take 2 demo_resizes" 42 "''db''" 5 "fst ?run" "snd ?run"] by simp
  moreover have "map se_slotIndex (ss_entries (demo_slots 2)) = [1, 3, 2]" by code_simp
  ultimately show ?thesis by (simp add: demo_slots_def)
qed

text \<open>
  C31: a resize that returns holds at most the target.  The live workers are kept oldest first up to
  the target, the surplus is terminated newest first and nothing below the target is, new workers
  come after the ones kept, and when every registration starts the target is reached exactly.
\<close>

theorem SvsSlotSetResize_converges:
  assumes "slots_ok s" "SvsSlotSetResize E target s = (Inr r, s')" "0 \<le> target"
    "live = live_slots E s"
  shows "rs_count r = int (length (ss_entries s')) \<and> rs_count r \<le> target \<and>
    rs_terminated r = rev (map se_handle (drop (nat target) live)) \<and>
    (\<exists>new. ss_entries s' = take (nat target) live @ new \<and>
       map se_slotIndex new = map arg_slotIndex (rs_args r)) \<and>
    ((\<forall>n. \<exists>h. env_register E n = Startup_status h BGWH_STARTED) \<longrightarrow> rs_count r = target) \<and>
    (ss_inShortfall s' \<longleftrightarrow> rs_count r < target)"
proof -
  have t: "target = (if target < 0 then 0 else target)" using assms(3) by simp
  from assms(2) t show ?thesis
  proof (cases rule: SvsSlotSetResize_cases)
    case (returned terminated args s1)
    let ?u = "shrunk_set E target s"
    note sh = shrink_loop_done [OF returned(1) assms(3)]
    have le: "ss_count ?u \<le> target" using sh(1) assms(3) by (simp add: ss_count_def)
    then have miss: "ss_count ?u + int (nat (target - ss_count ?u)) = target" by simp
    obtain new where new: "ss_entries s1 = ss_entries ?u @ new" "length new \<le> nat (target - ss_count ?u)"
        "map arg_slotIndex args = map se_slotIndex new"
      using grow_loop_spec [OF _ miss, of "env_register E" 0] shrunk_set_ok(1) [OF assms(1)] returned(2)
      by (auto simp: slots_ok_def)
    have all: "\<forall>n. \<exists>h. env_register E n = Startup_status h BGWH_STARTED \<Longrightarrow> ss_count s1 = target"
      using grow_loop_all_start [of "env_register E" target 0 "nat (target - ss_count ?u)" ?u] returned(2) miss
      by simp
    have "ss_count s1 \<le> target" using new(1,2) le by (simp add: ss_count_def)
    then show ?thesis using returned(3,4) sh new all assms(4) by (auto simp: ss_count_def)
  qed auto
qed

theorem SvsSlotSetResize_converges_witness:
  "rs_terminated (projr (fst (SvsSlotSetResize (demo_slot_env 30 [] 8) 2 (demo_slots 2)))) = [20] \<and>
   rs_count (projr (fst (SvsSlotSetResize (demo_slot_env 30 [] 8) 2 (demo_slots 2)))) \<le> 2"
proof -
  let ?E = "demo_slot_env 30 [] 8"
  let ?run = "SvsSlotSetResize ?E 2 (demo_slots 2)"
  have "isl (fst ?run) = False" by code_simp
  then have "?run = (Inr (projr (fst ?run)), snd ?run)" by (simp add: prod_eq_iff)
  note c = SvsSlotSetResize_converges [OF demo_slots_ok this _ refl]
  have "rev (map se_handle (drop 2 (live_slots ?E (demo_slots 2)))) = [20]" by code_simp
  then show ?thesis using c by simp
qed

text \<open>
  Shortfall is logged on transitions only.  Over any history of resizes the messages alternate,
  a report of holding too few first, and each report states a shortfall that was there, each
  all-clear one that was not.
\<close>

theorem shortfall_logged_on_transitions:
  "alternating False (shortfall_logs (fst (run_resizes calls (SvsSlotSetCreate MyProcPid datname dbOid))))"
  using run_resizes_ok [OF created_slots_ok, of calls MyProcPid datname dbOid]
  by (simp add: SvsSlotSetCreate_def)

end
