(* ===== verification/Vamana_Undo.thy ===== *)
theory Vamana_Undo
  imports Pending_Array Memory_Contracts
begin

text \<open>
  \<open>vamana_undo.c\<close>: the per-transaction log of inserts a worker has applied, and the callbacks that
  delete them again when the (sub)transaction aborts.  The subtransaction of an entry is its tag in
  the pending array.  The worker's answers are part of the environment; the requests sent to it are
  recorded in the order they are sent.
\<close>

definition VAMANA_MAX_DELETE_IDS :: nat where "VAMANA_MAX_DELETE_IDS = 1000"

definition VAMANA_MAX_UNDO_LOG_MAX_ENTRIES :: int where
  "VAMANA_MAX_UNDO_LOG_MAX_ENTRIES = 16777216"

record VamanaUndoEntry =
  ue_indexRelid :: oid
  ue_externalId :: u64
  ue_growthBytes :: u64
  ue_generation :: u32

datatype VamanaMaintenance = VAMANA_MAINTENANCE_CONSOLIDATE | VAMANA_MAINTENANCE_COMPACT

record undo_env =
  un_gucs :: SvsMemGucs
  un_MyDatabaseId :: oid
  un_max_entries :: int
  un_available :: bool
  un_delete :: "nat \<Rightarrow> bool option"

text \<open>
  \<open>un_delete n\<close> is the answer to the n-th delete request of the session, none when it raises.
  \<open>us_deletes\<close> and \<open>us_maintenance\<close> are the requests sent so far.
\<close>

record undo_state =
  us_log :: "VamanaUndoEntry VamanaSubxidPendingArray option"
  us_registered :: bool
  us_header :: VamanaWorkerShmemHeader
  us_deletes :: "(oid \<times> u64 list) list"
  us_maintenance :: "(oid \<times> VamanaMaintenance) list"

section \<open>Recording inserts\<close>

definition GetOrCreateUndoLog :: "undo_state \<Rightarrow> VamanaUndoEntry VamanaSubxidPendingArray \<times> undo_state" where
  "GetOrCreateUndoLog st =
     (case us_log st of
        Some ulog \<Rightarrow> (ulog, st)
      | None \<Rightarrow> let ulog = VamanaSubxidPendingArrayCreate 16 in (ulog, st\<lparr>us_log := Some ulog\<rparr>))"

definition EnsureCallbacksRegistered :: "undo_state \<Rightarrow> undo_state" where
  "EnsureCallbacksRegistered st = (if \<not> us_registered st then st\<lparr>us_registered := True\<rparr> else st)"

definition VamanaUndoReserve :: "undo_env \<Rightarrow> undo_state \<Rightarrow> (errcode + unit) \<times> undo_state" where
  "VamanaUndoReserve U st =
     (let (ulog, st) = GetOrCreateUndoLog (EnsureCallbacksRegistered st) in
      if pa_count ulog \<ge> un_max_entries U then (Inl ERRCODE_OUT_OF_MEMORY, st)
      else case VamanaSubxidPendingArrayEnsureSpace ulog (un_max_entries U) of
             Inl err \<Rightarrow> (Inl err, st)
           | Inr ulog \<Rightarrow> (Inr (), st\<lparr>us_log := Some ulog\<rparr>))"

definition VamanaUndoAppend ::
    "subxid \<Rightarrow> oid \<Rightarrow> u64 \<Rightarrow> u64 \<Rightarrow> u32 \<Rightarrow> undo_state \<Rightarrow> (errcode + unit) \<times> undo_state" where
  "VamanaUndoAppend currentSubxid indexRelid externalId growthBytes generation st =
     (let (ulog, st) = GetOrCreateUndoLog st;
          entry = \<lparr>ue_indexRelid = indexRelid, ue_externalId = externalId,
                   ue_growthBytes = growthBytes, ue_generation = generation\<rparr>
      in case VamanaSubxidPendingArrayAppend currentSubxid entry ulog of
           Inl err \<Rightarrow> (Inl err, st)
         | Inr ulog \<Rightarrow> (Inr (), st\<lparr>us_log := Some ulog\<rparr>))"

section \<open>Batched undo\<close>

definition undo_entry_cmp_by_relid :: "VamanaUndoEntry \<Rightarrow> VamanaUndoEntry \<Rightarrow> int" where
  "undo_entry_cmp_by_relid a b =
     of_bool (ue_indexRelid a > ue_indexRelid b) - of_bool (ue_indexRelid a < ue_indexRelid b)"

text \<open>A request is recorded whether or not the worker honours it.\<close>

definition undo_flush_batch :: "undo_env \<Rightarrow> oid \<Rightarrow> u64 list \<Rightarrow> undo_state \<Rightarrow> bool \<times> undo_state" where
  "undo_flush_batch U relid ids st =
     (case un_delete U (length (us_deletes st)) of None \<Rightarrow> False | Some ok \<Rightarrow> ok,
      st\<lparr>us_deletes := us_deletes st @ [(relid, ids)]\<rparr>)"

text \<open>The arrays of the struct up to their counters.\<close>

record ConsolidatingUndoBatch =
  ub_currentRelid :: oid
  ub_batchIds :: "u64 list"
  ub_batchGrowth :: u64
  ub_batchGeneration :: u32
  ub_consolidateRelids :: "oid list"
  ub_compactRelids :: "oid list"

definition ConsolidatingUndoBatchInit :: ConsolidatingUndoBatch where
  "ConsolidatingUndoBatchInit =
     \<lparr>ub_currentRelid = InvalidOid, ub_batchIds = [], ub_batchGrowth = 0, ub_batchGeneration = 0,
      ub_consolidateRelids = [], ub_compactRelids = []\<rparr>"

definition ConsolidatingUndoBatchTrackRelid :: "oid list \<Rightarrow> oid \<Rightarrow> oid list" where
  "ConsolidatingUndoBatchTrackRelid relids relid =
     (if \<not> OidIsValid relid then relids
      else if relid \<in> set relids then relids
      else if length relids < VAMANA_MAX_INDEXES then relids @ [relid]
      else relids)"

definition ConsolidatingUndoBatchTrackConsolidate :: "oid \<Rightarrow> ConsolidatingUndoBatch \<Rightarrow> ConsolidatingUndoBatch" where
  "ConsolidatingUndoBatchTrackConsolidate relid batch =
     batch\<lparr>ub_consolidateRelids := ConsolidatingUndoBatchTrackRelid (ub_consolidateRelids batch) relid\<rparr>"

definition ConsolidatingUndoBatchTrackCompact :: "oid \<Rightarrow> ConsolidatingUndoBatch \<Rightarrow> ConsolidatingUndoBatch" where
  "ConsolidatingUndoBatchTrackCompact relid batch =
     batch\<lparr>ub_compactRelids := ConsolidatingUndoBatchTrackRelid (ub_compactRelids batch) relid\<rparr>"

definition ConsolidatingUndoBatchFlushCurrent ::
    "undo_env \<Rightarrow> ConsolidatingUndoBatch \<Rightarrow> undo_state \<Rightarrow> ConsolidatingUndoBatch \<times> undo_state" where
  "ConsolidatingUndoBatchFlushCurrent U batch st =
     (if ub_batchIds batch = [] then (batch, st)
      else
        let relid = ub_currentRelid batch;
            (ok, st) = undo_flush_batch U relid (ub_batchIds batch) st;
            (batch, st) =
              (if ok \<and> ub_batchGrowth batch > 0 then
                 let (over, h) = SvsMemoryCreditAbortedInserts (un_gucs U) (un_MyDatabaseId U) relid
                                   (ub_batchGeneration batch) (ub_batchGrowth batch) (us_header st)
                 in (if over then ConsolidatingUndoBatchTrackCompact relid batch else batch,
                     st\<lparr>us_header := h\<rparr>)
               else (batch, st))
        in (ConsolidatingUndoBatchTrackConsolidate relid batch, st))"

definition add_to_batch :: "VamanaUndoEntry \<Rightarrow> ConsolidatingUndoBatch \<Rightarrow> ConsolidatingUndoBatch" where
  "add_to_batch entry batch =
     (let batch = batch\<lparr>ub_batchIds := ub_batchIds batch @ [ue_externalId entry]\<rparr> in
      if ue_generation entry > ub_batchGeneration batch
      then batch\<lparr>ub_batchGeneration := ue_generation entry, ub_batchGrowth := ue_growthBytes entry\<rparr>
      else if ue_generation entry = ub_batchGeneration batch
      then batch\<lparr>ub_batchGrowth := ub_batchGrowth batch + ue_growthBytes entry\<rparr>
      else batch)"

definition ConsolidatingUndoBatchAdd ::
    "undo_env \<Rightarrow> VamanaUndoEntry \<Rightarrow> ConsolidatingUndoBatch \<times> undo_state \<Rightarrow> ConsolidatingUndoBatch \<times> undo_state" where
  "ConsolidatingUndoBatchAdd U entry bs =
     (let (batch, st) = bs;
          (batch, st) =
            (if ue_indexRelid entry \<noteq> ub_currentRelid batch \<or> length (ub_batchIds batch) \<ge> VAMANA_MAX_DELETE_IDS
             then let (batch, st) = ConsolidatingUndoBatchFlushCurrent U batch st
                  in (batch\<lparr>ub_currentRelid := ue_indexRelid entry, ub_batchIds := [],
                            ub_batchGrowth := 0, ub_batchGeneration := 0\<rparr>, st)
             else (batch, st))
      in (add_to_batch entry batch, st))"

definition ConsolidatingUndoBatchFinish ::
    "undo_env \<Rightarrow> ConsolidatingUndoBatch \<times> undo_state \<Rightarrow> undo_state" where
  "ConsolidatingUndoBatchFinish U bs =
     (let (batch, st) = ConsolidatingUndoBatchFlushCurrent U (fst bs) (snd bs)
      in st\<lparr>us_maintenance := us_maintenance st
              @ map (\<lambda>relid. (relid, VAMANA_MAINTENANCE_CONSOLIDATE)) (ub_consolidateRelids batch)
              @ map (\<lambda>relid. (relid, VAMANA_MAINTENANCE_COMPACT)) (ub_compactRelids batch)\<rparr>)"

text \<open>Both callbacks feed the entries they select, in order, to a fresh batch.\<close>

definition undo_entries :: "undo_env \<Rightarrow> VamanaUndoEntry list \<Rightarrow> undo_state \<Rightarrow> undo_state" where
  "undo_entries U entries st =
     ConsolidatingUndoBatchFinish U (fold (ConsolidatingUndoBatchAdd U) entries (ConsolidatingUndoBatchInit, st))"

section \<open>The transaction callbacks\<close>

definition undo_on_abort :: "qperm \<Rightarrow> undo_env \<Rightarrow> undo_state \<Rightarrow> undo_state" where
  "undo_on_abort qp U st =
     (case us_log st of
        None \<Rightarrow> st
      | Some ulog \<Rightarrow>
          if pa_count ulog > 0 \<and> un_available U
          then undo_entries U
                 (map fst (filter (\<lambda>(entry, subxid). subxid \<noteq> InvalidSubTransactionId)
                    (qsort qp (\<lambda>a b. undo_entry_cmp_by_relid (fst a) (fst b)) (pa_entries ulog)))) st
          else st)"

fun VamanaXactCallback :: "qperm \<Rightarrow> undo_env \<Rightarrow> XactEvent \<Rightarrow> undo_state \<Rightarrow> (errcode + unit) \<times> undo_state" where
  "VamanaXactCallback qp U XACT_EVENT_COMMIT st = (Inr (), st\<lparr>us_log := None\<rparr>)"
| "VamanaXactCallback qp U XACT_EVENT_PARALLEL_COMMIT st = (Inr (), st\<lparr>us_log := None\<rparr>)"
| "VamanaXactCallback qp U XACT_EVENT_ABORT st = (Inr (), (undo_on_abort qp U st)\<lparr>us_log := None\<rparr>)"
| "VamanaXactCallback qp U XACT_EVENT_PARALLEL_ABORT st = (Inr (), (undo_on_abort qp U st)\<lparr>us_log := None\<rparr>)"
| "VamanaXactCallback qp U XACT_EVENT_PRE_PREPARE st =
     (case us_log st of
        Some ulog \<Rightarrow> if VamanaSubxidPendingArrayHasLiveEntries ulog then (Inl ERRCODE_FEATURE_NOT_SUPPORTED, st)
                    else (Inr (), st)
      | None \<Rightarrow> (Inr (), st))"
| "VamanaXactCallback qp U XACT_EVENT_PREPARE st = (Inr (), st\<lparr>us_log := None\<rparr>)"
| "VamanaXactCallback qp U _ st = (Inr (), st)"

definition VamanaSubXactCallback ::
    "undo_env \<Rightarrow> SubXactEvent \<Rightarrow> subxid \<Rightarrow> subxid \<Rightarrow> undo_state \<Rightarrow> undo_state" where
  "VamanaSubXactCallback U event mySubid parentSubid st =
     (case us_log st of
        None \<Rightarrow> st
      | Some ulog \<Rightarrow>
          if event = SUBXACT_EVENT_COMMIT_SUB
          then st\<lparr>us_log := Some (VamanaSubxidPendingArrayReparentSubxact ulog mySubid parentSubid)\<rparr>
          else if event \<noteq> SUBXACT_EVENT_ABORT_SUB \<or> pa_count ulog = 0 \<or> \<not> un_available U then st
          else (undo_entries U (map fst (filter (\<lambda>(entry, subxid). subxid = mySubid) (pa_entries ulog))) st)
                 \<lparr>us_log := Some (VamanaSubxidPendingArrayPruneAbortedSubxact ulog mySubid)\<rparr>)"

section \<open>What a batch run does\<close>

text \<open>
  The specification: the entries are cut into groups, as long as possible, of at most
  \<open>VAMANA_MAX_DELETE_IDS\<close> neighbours of one index.  A group is deleted by one request and, when that
  succeeds, credited with the growth of its entries of the newest generation.
\<close>

definition same_index :: "VamanaUndoEntry \<Rightarrow> VamanaUndoEntry \<Rightarrow> bool" where
  "same_index a b \<longleftrightarrow> ue_indexRelid a = ue_indexRelid b"

function undo_groups :: "VamanaUndoEntry list \<Rightarrow> VamanaUndoEntry list list" where
  "undo_groups [] = []"
| "undo_groups (e # es) =
     (let g = takeWhile (same_index e) (take (VAMANA_MAX_DELETE_IDS - 1) es)
      in (e # g) # undo_groups (drop (length g) es))"
  by pat_completeness auto
termination by (relation "measure length") auto

definition group_relid :: "VamanaUndoEntry list \<Rightarrow> oid" where
  "group_relid g = ue_indexRelid (hd g)"

definition group_generation :: "VamanaUndoEntry list \<Rightarrow> u32" where
  "group_generation g = fold max (map ue_generation g) 0"

definition group_growth :: "VamanaUndoEntry list \<Rightarrow> u64" where
  "group_growth g = sum_list (map ue_growthBytes (filter (\<lambda>e. ue_generation e = group_generation g) g))"

text \<open>The credits of the groups, in order, the first request being the k-th: the indexes over the cap and the counters.\<close>

fun credit_groups ::
    "undo_env \<Rightarrow> nat \<Rightarrow> VamanaUndoEntry list list \<Rightarrow> VamanaWorkerShmemHeader \<Rightarrow> oid list \<times> VamanaWorkerShmemHeader" where
  "credit_groups U k [] h = ([], h)"
| "credit_groups U k (g # gs) h =
     (let (over, h) =
        (if un_delete U k = Some True \<and> group_growth g > 0
         then SvsMemoryCreditAbortedInserts (un_gucs U) (un_MyDatabaseId U) (group_relid g)
                (group_generation g) (group_growth g) h
         else (False, h));
        (overs, h) = credit_groups U (Suc k) gs h
      in (if over then group_relid g # overs else overs, h))"

definition track_all :: "oid list \<Rightarrow> oid list \<Rightarrow> oid list" where
  "track_all relids tracked = fold (\<lambda>relid tracked. ConsolidatingUndoBatchTrackRelid tracked relid) relids tracked"

lemma fold_max_ge: "(m :: 'a :: linorder) \<le> fold max xs m \<and> (\<forall>x \<in> set xs. x \<le> fold max xs m)"
proof (induction xs arbitrary: m)
  case (Cons x xs)
  from Cons.IH [of "max x m"] show ?case by (auto simp: max_def split: if_splits)
qed simp

lemma group_generation_snoc: "group_generation (g @ [e]) = max (ue_generation e) (group_generation g)"
  by (simp add: group_generation_def)

lemma group_generation_ge: "e \<in> set g \<Longrightarrow> ue_generation e \<le> group_generation g"
  using fold_max_ge [of 0 "map ue_generation g"] by (auto simp: group_generation_def)

lemma group_growth_snoc:
  "group_growth (g @ [e]) =
    (if ue_generation e > group_generation g then ue_growthBytes e
     else if ue_generation e = group_generation g then group_growth g + ue_growthBytes e
     else group_growth g)"
proof -
  have "filter (\<lambda>x. ue_generation x = ue_generation e) g = []" if "ue_generation e > group_generation g"
    using that group_generation_ge [of _ g] by (fastforce simp: filter_empty_conv)
  then show ?thesis by (auto simp: group_growth_def group_generation_snoc max_def)
qed

text \<open>A group under construction and the batch that holds it.\<close>

definition group_ok :: "VamanaUndoEntry list \<Rightarrow> bool" where
  "group_ok g \<longleftrightarrow> g \<noteq> [] \<and> length g \<le> VAMANA_MAX_DELETE_IDS \<and> list_all (same_index (hd g)) g"

definition batch_of :: "VamanaUndoEntry list \<Rightarrow> oid list \<Rightarrow> oid list \<Rightarrow> ConsolidatingUndoBatch" where
  "batch_of g cs ks =
     \<lparr>ub_currentRelid = group_relid g, ub_batchIds = map ue_externalId g, ub_batchGrowth = group_growth g,
      ub_batchGeneration = group_generation g, ub_consolidateRelids = cs, ub_compactRelids = ks\<rparr>"

definition flush_group ::
    "undo_env \<Rightarrow> VamanaUndoEntry list \<Rightarrow> (oid list \<times> oid list) \<times> undo_state \<Rightarrow> (oid list \<times> oid list) \<times> undo_state" where
  "flush_group U g x =
     (let ((cs, ks), st) = x;
          (overs, h) = credit_groups U (length (us_deletes st)) [g] (us_header st)
      in ((ConsolidatingUndoBatchTrackRelid cs (group_relid g), track_all overs ks),
          st\<lparr>us_header := h, us_deletes := us_deletes st @ [(group_relid g, map ue_externalId g)]\<rparr>))"

lemma batch_of_fields [simp]:
  "ub_currentRelid (batch_of g cs ks) = group_relid g" "ub_batchIds (batch_of g cs ks) = map ue_externalId g"
  "ub_consolidateRelids (batch_of g cs ks) = cs" "ub_compactRelids (batch_of g cs ks) = ks"
  by (simp_all add: batch_of_def)

lemma fresh_batch:
  "add_to_batch e (batch\<lparr>ub_currentRelid := ue_indexRelid e, ub_batchIds := [], ub_batchGrowth := 0,
      ub_batchGeneration := 0\<rparr>) = batch_of [e] (ub_consolidateRelids batch) (ub_compactRelids batch)"
  by (auto simp: add_to_batch_def batch_of_def Let_def group_relid_def group_growth_def group_generation_def
      not_less word_gt_0)

lemma add_to_batch_of:
  assumes "g \<noteq> []"
  shows "add_to_batch e (batch_of g cs ks) = batch_of (g @ [e]) cs ks"
  using assms by (auto simp: add_to_batch_def batch_of_def Let_def group_growth_snoc group_generation_snoc
      group_relid_def max_def)

lemma flush_batch_of:
  assumes "g \<noteq> []"
  shows "ConsolidatingUndoBatchFlushCurrent U (batch_of g cs ks) st =
    (case flush_group U g ((cs, ks), st) of ((cs', ks'), st') \<Rightarrow> (batch_of g cs' ks', st'))"
  using assms by (auto simp: ConsolidatingUndoBatchFlushCurrent_def flush_group_def batch_of_def
      undo_flush_batch_def Let_def ConsolidatingUndoBatchTrackCompact_def
      ConsolidatingUndoBatchTrackConsolidate_def track_all_def split: prod.splits option.splits)

lemma group_ok_index:
  "group_ok g \<Longrightarrow> g \<noteq> [] \<and> length g \<le> VAMANA_MAX_DELETE_IDS \<and> (\<forall>e \<in> set g. ue_indexRelid e = group_relid g)"
  by (simp add: group_ok_def same_index_def group_relid_def list_all_iff)

lemma undo_groups_cut:
  assumes "group_ok g" "es = [] \<or> \<not> same_index (hd g) (hd es) \<or> length g \<ge> VAMANA_MAX_DELETE_IDS"
  shows "undo_groups (g @ es) = g # undo_groups es"
proof -
  obtain a g' where g: "g = a # g'" using assms(1) by (cases g) (auto simp: group_ok_def)
  have same: "\<forall>x \<in> set g'. same_index a x" and len: "length g' \<le> VAMANA_MAX_DELETE_IDS - 1"
    using assms(1) by (auto simp: group_ok_def g list_all_iff)
  have "takeWhile (same_index a) (take (VAMANA_MAX_DELETE_IDS - 1) (g' @ es)) = g'"
  proof (cases "length g' = VAMANA_MAX_DELETE_IDS - 1")
    case True
    then show ?thesis using same by (simp add: takeWhile_eq_all_conv)
  next
    case False
    then have "es = [] \<or> \<not> same_index a (hd es)" using assms(2) len by (auto simp: g VAMANA_MAX_DELETE_IDS_def)
    then have "takeWhile (same_index a) (take (VAMANA_MAX_DELETE_IDS - 1 - length g') es) = []"
      using False len by (cases es; cases "VAMANA_MAX_DELETE_IDS - 1 - length g'") auto
    with len same show ?thesis by (simp add: takeWhile_append2)
  qed
  then show ?thesis by (simp add: g Let_def)
qed

definition finish_groups :: "(oid list \<times> oid list) \<times> undo_state \<Rightarrow> undo_state" where
  "finish_groups x =
     (let ((cs, ks), st) = x
      in st\<lparr>us_maintenance := us_maintenance st
              @ map (\<lambda>relid. (relid, VAMANA_MAINTENANCE_CONSOLIDATE)) cs
              @ map (\<lambda>relid. (relid, VAMANA_MAINTENANCE_COMPACT)) ks\<rparr>)"

lemma run_batch_groups:
  "group_ok g \<Longrightarrow>
    ConsolidatingUndoBatchFinish U (fold (ConsolidatingUndoBatchAdd U) es (batch_of g cs ks, st)) =
      finish_groups (fold (flush_group U) (undo_groups (g @ es)) ((cs, ks), st))"
proof (induction es arbitrary: g cs ks st)
  case Nil
  then have "g \<noteq> []" by (simp add: group_ok_def)
  then show ?case using undo_groups_cut [OF Nil, of "[]"]
    by (cases "flush_group U g ((cs, ks), st)")
      (auto simp: ConsolidatingUndoBatchFinish_def finish_groups_def flush_batch_of)
next
  case (Cons e es)
  have ne: "g \<noteq> []" using Cons.prems by (simp add: group_ok_def)
  show ?case
  proof (cases "ue_indexRelid e \<noteq> group_relid g \<or> length g \<ge> VAMANA_MAX_DELETE_IDS")
    case True
    obtain cs' ks' st' where f: "flush_group U g ((cs, ks), st) = ((cs', ks'), st')"
      by (metis prod.exhaust)
    have "\<not> same_index (hd g) e \<or> length g \<ge> VAMANA_MAX_DELETE_IDS"
      using True by (auto simp: same_index_def group_relid_def)
    then have cut: "undo_groups (g @ e # es) = g # undo_groups (e # es)"
      using undo_groups_cut [OF Cons.prems, of "e # es"] by simp
    have ok: "group_ok [e]" by (simp add: group_ok_def same_index_def VAMANA_MAX_DELETE_IDS_def)
    have "ConsolidatingUndoBatchAdd U e (batch_of g cs ks, st) = (batch_of [e] cs' ks', st')"
      using True ne f
      by (auto simp: ConsolidatingUndoBatchAdd_def flush_batch_of fresh_batch Let_def)
    with Cons.IH [OF ok] show ?thesis by (simp add: cut f)
  next
    case False
    then have ok: "group_ok (g @ [e])"
      using Cons.prems ne by (auto simp: group_ok_def same_index_def group_relid_def)
    have "ConsolidatingUndoBatchAdd U e (batch_of g cs ks, st) = (batch_of (g @ [e]) cs ks, st)"
      using False ne add_to_batch_of [OF ne, of e cs ks]
      by (auto simp: ConsolidatingUndoBatchAdd_def Let_def)
    with Cons.IH [OF ok] show ?thesis by simp
  qed
qed

lemma undo_entries_groups:
  "undo_entries U entries st = finish_groups (fold (flush_group U) (undo_groups entries) (([], []), st))"
proof (cases entries)
  case Nil
  then show ?thesis
    by (simp add: undo_entries_def ConsolidatingUndoBatchFinish_def ConsolidatingUndoBatchFlushCurrent_def
        ConsolidatingUndoBatchInit_def finish_groups_def)
next
  case (Cons e es)
  have ok: "group_ok [e]" by (simp add: group_ok_def same_index_def VAMANA_MAX_DELETE_IDS_def)
  have same: "ConsolidatingUndoBatchInit\<lparr>ub_currentRelid := InvalidOid, ub_batchIds := [], ub_batchGrowth := 0,
      ub_batchGeneration := 0\<rparr> = ConsolidatingUndoBatchInit"
    by (simp add: ConsolidatingUndoBatchInit_def)
  have "ConsolidatingUndoBatchAdd U e (ConsolidatingUndoBatchInit, st) = (batch_of [e] [] [], st)"
    using fresh_batch [of e ConsolidatingUndoBatchInit]
    by (cases "ue_indexRelid e = InvalidOid")
      (auto simp: ConsolidatingUndoBatchAdd_def Let_def ConsolidatingUndoBatchFlushCurrent_def
        ConsolidatingUndoBatchInit_def VAMANA_MAX_DELETE_IDS_def)
  with run_batch_groups [OF ok] show ?thesis by (simp add: undo_entries_def Cons)
qed

lemma credit_groups_Cons:
  "credit_groups U k (g # gs) h =
    (let (o1, h1) = credit_groups U k [g] h; (o2, h2) = credit_groups U (Suc k) gs h1 in (o1 @ o2, h2))"
  by (auto simp: Let_def split: prod.splits)

lemma flush_groups:
  "fold (flush_group U) G ((cs, ks), st) =
    ((track_all (map group_relid G) cs, track_all (fst (credit_groups U (length (us_deletes st)) G (us_header st))) ks),
     st\<lparr>us_header := snd (credit_groups U (length (us_deletes st)) G (us_header st)),
        us_deletes := us_deletes st @ map (\<lambda>g. (group_relid g, map ue_externalId g)) G\<rparr>)"
proof (induction G arbitrary: cs ks st)
  case Nil
  then show ?case by (simp add: track_all_def)
next
  case (Cons g G)
  obtain o1 h1 where c: "credit_groups U (length (us_deletes st)) [g] (us_header st) = (o1, h1)"
    by (metis prod.exhaust)
  have step: "flush_group U g ((cs, ks), st) =
      ((ConsolidatingUndoBatchTrackRelid cs (group_relid g), track_all o1 ks),
       st\<lparr>us_header := h1, us_deletes := us_deletes st @ [(group_relid g, map ue_externalId g)]\<rparr>)"
    unfolding flush_group_def by (simp add: c del: credit_groups.simps)
  have "credit_groups U (length (us_deletes st)) (g # G) (us_header st) =
      (o1 @ fst (credit_groups U (Suc (length (us_deletes st))) G h1),
       snd (credit_groups U (Suc (length (us_deletes st))) G h1))"
    by (subst credit_groups_Cons) (simp add: c case_prod_unfold Let_def del: credit_groups.simps)
  then show ?case by (simp add: step Cons.IH track_all_def del: credit_groups.simps)
qed

lemma undo_groups_partition: "concat (undo_groups entries) = entries \<and> list_all group_ok (undo_groups entries)"
proof (induction entries rule: undo_groups.induct)
  case (2 e es)
  define g where "g = takeWhile (same_index e) (take (VAMANA_MAX_DELETE_IDS - 1) es)"
  have len: "length g \<le> VAMANA_MAX_DELETE_IDS - 1"
    unfolding g_def by (metis length_take length_takeWhile_le min.cobounded2 order_trans)
  have "g = take (length g) (take (VAMANA_MAX_DELETE_IDS - 1) es)" unfolding g_def by (rule takeWhile_eq_take)
  also have "\<dots> = take (length g) es" using len by (simp add: min_def)
  finally have pre: "g @ drop (length g) es = es" by (metis append_take_drop_id)
  have "\<forall>x \<in> set g. same_index e x" unfolding g_def by (auto dest: set_takeWhileD)
  then have "group_ok (e # g)"
    using len by (auto simp: group_ok_def same_index_def list_all_iff VAMANA_MAX_DELETE_IDS_def)
  moreover have "undo_groups (e # es) = (e # g) # undo_groups (drop (length g) es)" by (simp add: g_def Let_def)
  ultimately show ?case using 2 [OF g_def] pre by simp
qed simp

lemma track_all_spec:
  assumes "\<forall>r \<in> set relids. OidIsValid r" "distinct tracked" "card (set relids \<union> set tracked) \<le> VAMANA_MAX_INDEXES"
  shows "distinct (track_all relids tracked) \<and> set (track_all relids tracked) = set relids \<union> set tracked"
  using assms
proof (induction relids arbitrary: tracked)
  case (Cons r relids)
  let ?t = "ConsolidatingUndoBatchTrackRelid tracked r"
  have room: "length tracked < VAMANA_MAX_INDEXES" if "r \<notin> set tracked"
  proof -
    have "Suc (length tracked) = card (insert r (set tracked))"
      using that Cons.prems(2) by (simp add: distinct_card)
    also have "\<dots> \<le> card (set (r # relids) \<union> set tracked)" by (rule card_mono) auto
    finally show ?thesis using Cons.prems(3) by simp
  qed
  then have t: "distinct ?t" "set ?t = insert r (set tracked)"
    using Cons.prems(1,2) by (auto simp: ConsolidatingUndoBatchTrackRelid_def)
  then have "card (set relids \<union> set ?t) \<le> VAMANA_MAX_INDEXES" using Cons.prems(3) by simp
  from Cons.IH [OF _ t(1) this] Cons.prems(1) t(2) show ?case by (simp add: track_all_def)
qed (simp add: track_all_def)

section \<open>Histories of a transaction\<close>

definition log_of :: "undo_state \<Rightarrow> VamanaUndoEntry VamanaSubxidPendingArray" where
  "log_of st = (case us_log st of None \<Rightarrow> VamanaSubxidPendingArrayCreate 16 | Some ulog \<Rightarrow> ulog)"

text \<open>
  What a backend does in a transaction with savepoints: an insert reserves room, has the worker apply
  the insert, and records it; the ends of subtransactions call back.
\<close>

fun undo_step ::
    "undo_env \<Rightarrow> VamanaUndoEntry savepoint_event \<Rightarrow> subxid list \<times> undo_state \<Rightarrow> errcode + subxid list \<times> undo_state" where
  "undo_step U (Append e) (s # rest, st) =
     (case VamanaUndoReserve U st of
        (Inl err, st) \<Rightarrow> Inl err
      | (Inr _, st) \<Rightarrow>
          (case VamanaUndoAppend s (ue_indexRelid e) (ue_externalId e) (ue_growthBytes e) (ue_generation e) st of
             (Inl err, st) \<Rightarrow> Inl err
           | (Inr _, st) \<Rightarrow> Inr (s # rest, st)))"
| "undo_step U (BeginSub s) (subs, st) = Inr (s # subs, VamanaSubXactCallback U SUBXACT_EVENT_START_SUB s (hd subs) st)"
| "undo_step U CommitSub (s # p # rest, st) = Inr (p # rest, VamanaSubXactCallback U SUBXACT_EVENT_COMMIT_SUB s p st)"
| "undo_step U AbortSub (s # p # rest, st) = Inr (p # rest, VamanaSubXactCallback U SUBXACT_EVENT_ABORT_SUB s p st)"
| "undo_step U _ x = Inr x"

definition undo_key :: "VamanaUndoEntry \<Rightarrow> oid \<times> u64" where
  "undo_key e = (ue_indexRelid e, ue_externalId e)"

text \<open>The rows whose deletion was requested, and those a history inserts.\<close>

definition deleted :: "undo_state \<Rightarrow> (oid \<times> u64) list" where
  "deleted st = concat (map (\<lambda>(relid, ids). map (Pair relid) ids) (us_deletes st))"

fun inserted :: "VamanaUndoEntry savepoint_event list \<Rightarrow> VamanaUndoEntry list" where
  "inserted [] = []"
| "inserted (Append e # evs) = e # inserted evs"
| "inserted (_ # evs) = inserted evs"

lemma group_keys: "group_ok g \<Longrightarrow> map (Pair (group_relid g)) (map ue_externalId g) = map undo_key g"
  by (auto simp: group_ok_def group_relid_def undo_key_def same_index_def list_all_iff)

lemma undo_entries_deleted:
  "deleted (undo_entries U entries st) = deleted st @ map undo_key entries"
  "us_log (undo_entries U entries st) = us_log st"
proof -
  have "concat (map (\<lambda>g. map (Pair (group_relid g)) (map ue_externalId g)) G) = map undo_key (concat G)"
    if "list_all group_ok G" for G
    using that group_keys by (induction G) (simp_all del: map_map)
  with undo_groups_partition [of entries] show "deleted (undo_entries U entries st) = deleted st @ map undo_key entries"
    by (simp add: undo_entries_groups flush_groups finish_groups_def deleted_def comp_def)
qed (simp add: undo_entries_groups flush_groups finish_groups_def)

lemma Reserve_log:
  assumes "VamanaUndoReserve U st = (r, st1)"
  shows "pa_entries (log_of st1) = pa_entries (log_of st)" "us_deletes st1 = us_deletes st" "us_log st1 \<noteq> None"
  using assms
  by (auto simp: VamanaUndoReserve_def GetOrCreateUndoLog_def EnsureCallbacksRegistered_def log_of_def Let_def
      VamanaSubxidPendingArrayEnsureSpace_def split: option.splits if_splits sum.splits)

lemma Append_log:
  assumes "VamanaUndoAppend s r x g k st = (Inr u, st1)" "us_log st \<noteq> None"
  shows "VamanaSubxidPendingArrayAppend s \<lparr>ue_indexRelid = r, ue_externalId = x, ue_growthBytes = g, ue_generation = k\<rparr>
    (log_of st) = Inr (log_of st1)" "us_deletes st1 = us_deletes st"
  using assms
  by (auto simp: VamanaUndoAppend_def GetOrCreateUndoLog_def log_of_def Let_def split: option.splits sum.splits)

lemma Append_entries:
  "VamanaSubxidPendingArrayAppend s x array = Inr array' \<Longrightarrow> pa_entries array' = pa_entries array @ [(x, s)]"
  by (auto simp: VamanaSubxidPendingArrayAppend_def VamanaSubxidPendingArrayEnsureSpace_def Let_def
      split: sum.splits if_splits)

lemma undo_step_array:
  assumes "un_available U" "undo_step U ev (subs, st) = Inr (subs', st')"
  shows "\<exists>array. pa_entries array = pa_entries (log_of st) \<and>
    array_step ev (subs, array) = Inr (subs', log_of st')"
  using assms
proof (induction U ev "(subs, st)" rule: undo_step.induct)
  case (1 U e s rest)
  then obtain st1 where r: "VamanaUndoReserve U st = (Inr (), st1)"
      "VamanaUndoAppend s (ue_indexRelid e) (ue_externalId e) (ue_growthBytes e) (ue_generation e) st1 = (Inr (), st')"
      "subs' = s # rest"
    by (auto split: prod.splits sum.splits)
  have "VamanaSubxidPendingArrayAppend s e (log_of st1) = Inr (log_of st')"
    using Append_log(1) [OF r(2) Reserve_log(3) [OF r(1)]] by (cases e) simp
  with Reserve_log(1) [OF r(1)] r(3) 1 show ?case by (auto intro!: exI [of _ "log_of st1"])
next
  case (4 U s p rest)
  have "pa_entries a = [] \<Longrightarrow> a\<lparr>pa_entries := []\<rparr> = a" for a :: "VamanaUndoEntry VamanaSubxidPendingArray"
    by (cases a) simp
  with 4 show ?case
    by (auto simp: VamanaSubXactCallback_def log_of_def pa_count_def VamanaSubxidPendingArrayPruneAbortedSubxact_def
        ReplaceMatchingSubxid_def VamanaSubxidPendingArrayCreate_def intro!: exI [of _ "log_of st"]
        split: option.splits if_splits)
qed (auto simp: VamanaSubXactCallback_def log_of_def undo_entries_deleted pa_count_def
    VamanaSubxidPendingArrayReparentSubxact_def VamanaSubxidPendingArrayPruneAbortedSubxact_def
    ReplaceMatchingSubxid_def VamanaSubxidPendingArrayCreate_def intro!: exI [of _ "log_of st"]
    split: option.splits)

lemma undo_step_deleted:
  assumes "un_available U" "undo_step U ev (subs, st) = Inr (subs', st')" "InvalidSubTransactionId \<notin> set subs" "subs \<noteq> []"
  shows "mset (deleted st') + mset (map (undo_key \<circ> fst) (live_entries (log_of st'))) =
    mset (deleted st) + mset (map (undo_key \<circ> fst) (live_entries (log_of st))) + mset (map undo_key (inserted [ev]))"
  using assms
proof (induction U ev "(subs, st)" rule: undo_step.induct)
  case (1 U e s rest)
  then obtain st1 where r: "VamanaUndoReserve U st = (Inr (), st1)"
      "VamanaUndoAppend s (ue_indexRelid e) (ue_externalId e) (ue_growthBytes e) (ue_generation e) st1 = (Inr (), st')"
    by (auto split: prod.splits sum.splits)
  have a: "VamanaSubxidPendingArrayAppend s e (log_of st1) = Inr (log_of st')"
    using Append_log(1) [OF r(2) Reserve_log(3) [OF r(1)]] by (cases e) simp
  have "pa_entries (log_of st') = pa_entries (log_of st) @ [(e, s)]"
    using Append_entries [OF a] Reserve_log(1) [OF r(1)] by simp
  moreover have "deleted st' = deleted st"
    using Append_log(2) [OF r(2) Reserve_log(3) [OF r(1)]] Reserve_log(2) [OF r(1)] by (simp add: deleted_def)
  ultimately show ?case using 1 by (auto simp: live_entries_def)
next
  case (2 U s)
  then have "st' = st" by (auto simp: VamanaSubXactCallback_def split: option.splits)
  then show ?case by simp
next
  case (3 U s p rest)
  then have st': "st' = (case us_log st of None \<Rightarrow> st
      | Some ulog \<Rightarrow> st\<lparr>us_log := Some (ReplaceMatchingSubxid ulog s p)\<rparr>)"
    by (auto simp: VamanaSubXactCallback_def VamanaSubxidPendingArrayReparentSubxact_def split: option.splits)
  show ?case using 3 by (cases "us_log st")
      (auto simp: st' log_of_def deleted_def live_Replace_other comp_def case_prod_unfold multiset.map_comp)
next
  case (4 U s p rest)
  show ?case
  proof (cases "us_log st")
    case None
    with 4 show ?thesis by (auto simp: VamanaSubXactCallback_def)
  next
    case (Some ulog)
    let ?mine = "filter (\<lambda>(entry, subxid). subxid = s) (live_entries ulog)"
    have mine: "filter (\<lambda>(entry, subxid). subxid = s) (pa_entries ulog) = ?mine"
      using 4 by (auto simp: live_entries_def filter_filter intro: filter_cong)
    have "mset (live_entries ulog) = mset ?mine + mset (filter (\<lambda>(x, u). u \<noteq> s) (live_entries ulog))"
      using multiset_partition [of "mset (live_entries ulog)" "\<lambda>(x, u). u = s"] by (simp add: case_prod_unfold)
    then have part: "image_mset (undo_key \<circ> fst) (mset (live_entries ulog)) =
        image_mset (undo_key \<circ> fst) (mset ?mine) +
        image_mset (undo_key \<circ> fst) (mset (filter (\<lambda>(x, u). u \<noteq> s) (live_entries ulog)))"
      by (metis image_mset_union)
    show ?thesis
    proof (cases "pa_count ulog = 0")
      case True
      with 4 Some show ?thesis by (auto simp: VamanaSubXactCallback_def)
    next
      case False
      then have st': "st' = (undo_entries U (map fst ?mine) st)\<lparr>us_log := Some (ReplaceMatchingSubxid ulog s InvalidSubTransactionId)\<rparr>"
        using 4 Some mine by (auto simp: VamanaSubXactCallback_def VamanaSubxidPendingArrayPruneAbortedSubxact_def)
      have "deleted st' = deleted st @ map undo_key (map fst ?mine)"
        using undo_entries_deleted(1) [of U "map fst ?mine" st] by (simp add: st' deleted_def)
      moreover have "live_entries (log_of st') = filter (\<lambda>(x, u). u \<noteq> s) (live_entries ulog)"
        by (simp add: st' log_of_def live_Replace_invalid)
      ultimately show ?thesis using part Some by (simp add: log_of_def multiset.map_comp)
    qed
  qed
qed auto

interpretation undo_log: savepoint_log "undo_step U"
    "\<lambda>st stack. un_available U \<and> represents (fst st, log_of (snd st)) stack"
    "\<lambda>st. map fst (live_entries (log_of (snd st)))" for U
proof
  fix st stack st' and ev :: "VamanaUndoEntry savepoint_event"
  assume a: "un_available U \<and> represents (fst st, log_of (snd st)) stack" "stack \<noteq> []"
    "event_ok ev (map fst stack)" "undo_step U ev st = Inr st'"
  obtain array where arr: "pa_entries array = pa_entries (log_of (snd st))"
      "array_step ev (fst st, array) = Inr (fst st', log_of (snd st'))"
    using undo_step_array [of U ev "fst st" "snd st" "fst st'" "snd st'"] a(1,4) by auto
  have "represents (fst st, array) stack" using a(1) arr(1) by (simp add: represents_def live_entries_def)
  from pending_array.step_rel [OF this a(2,3) arr(2)] a(1)
  show "(un_available U \<and> represents (fst st', log_of (snd st')) (spec_step ev stack)) \<and> spec_step ev stack \<noteq> []"
    by simp
next
  fix st stack
  assume "un_available U \<and> represents (fst st, log_of (snd st)) stack"
  then show "map fst (live_entries (log_of (snd st))) = spec_live stack"
    using represents_live [of "(fst st, log_of (snd st))"] by simp
qed

lemma undo_run_deleted:
  assumes "run_events (undo_step U) evs (subs, st) = Inr (subs', st')" "events_ok evs stack" "stack \<noteq> []"
    "un_available U" "represents (subs, log_of st) stack"
  shows "mset (deleted st') + mset (map (undo_key \<circ> fst) (live_entries (log_of st'))) =
    mset (deleted st) + mset (map (undo_key \<circ> fst) (live_entries (log_of st))) + mset (map undo_key (inserted evs))"
  using assms
proof (induction evs arbitrary: subs st stack)
  case (Cons ev evs)
  then obtain subs1 st1 where one: "undo_step U ev (subs, st) = Inr (subs1, st1)"
      "run_events (undo_step U) evs (subs1, st1) = Inr (subs', st')"
    by (auto split: sum.splits)
  have ev: "event_ok ev (map fst stack)" "events_ok evs (spec_step ev stack)" using Cons.prems(2) by auto
  have rel: "represents (subs1, log_of st1) (spec_step ev stack)" "spec_step ev stack \<noteq> []"
    using undo_log.step_rel [of U "(subs, st)" stack ev "(subs1, st1)"] Cons.prems one ev by auto
  have valid: "InvalidSubTransactionId \<notin> set subs" "subs \<noteq> []"
    using Cons.prems(3,5) by (auto simp: represents_def)
  have split: "inserted (ev # evs) = inserted [ev] @ inserted evs" by (cases ev) auto
  show ?case
    unfolding Cons.IH [OF one(2) ev(2) rel(2) Cons.prems(4) rel(1)]
      undo_step_deleted [OF Cons.prems(4) one(1) valid] split
    by (simp add: ac_simps comp_def)
qed simp

section \<open>Properties\<close>

text \<open>
  C22: a batch of undone entries.  The entries are cut, in order, into groups of neighbours of one
  index, none longer than a delete request may be; each group is deleted by one request, and credited
  with the growth of its newest generation if and only if that request succeeded.  Afterwards every
  index of the batch is consolidated exactly once, as long as there are no more of them than a
  database can have, and the indexes over the reclaim cap are compacted.
\<close>

theorem undo_batches:
  assumes "G = undo_groups entries" and "st' = undo_entries U entries st"
    and "(overs, h) = credit_groups U (length (us_deletes st)) G (us_header st)"
    and "\<forall>e \<in> set entries. OidIsValid (ue_indexRelid e)"
    and "card (ue_indexRelid ` set entries) \<le> VAMANA_MAX_INDEXES"
  shows "concat G = entries \<and>
    list_all (\<lambda>g. g \<noteq> [] \<and> length g \<le> VAMANA_MAX_DELETE_IDS \<and> (\<forall>e \<in> set g. ue_indexRelid e = group_relid g)) G \<and>
    us_deletes st' = us_deletes st @ map (\<lambda>g. (group_relid g, map ue_externalId g)) G \<and>
    us_header st' = h \<and>
    (\<exists>consolidated. distinct consolidated \<and> set consolidated = ue_indexRelid ` set entries \<and>
       us_maintenance st' = us_maintenance st
         @ map (\<lambda>relid. (relid, VAMANA_MAINTENANCE_CONSOLIDATE)) consolidated
         @ map (\<lambda>relid. (relid, VAMANA_MAINTENANCE_COMPACT)) (track_all overs []))"
proof -
  note part = undo_groups_partition [of entries]
  have ok: "\<forall>g \<in> set G. g \<noteq> [] \<and> length g \<le> VAMANA_MAX_DELETE_IDS \<and> (\<forall>e \<in> set g. ue_indexRelid e = group_relid g)"
    using part group_ok_index unfolding assms(1) list_all_iff by blast
  have relids: "set (map group_relid G) = ue_indexRelid ` set entries"
  proof -
    have "set entries = (\<Union>g \<in> set G. set g)" using part by (metis assms(1) set_concat)
    moreover have "ue_indexRelid ` set g = {group_relid g}" if "g \<in> set G" for g
    proof
      show "ue_indexRelid ` set g \<subseteq> {group_relid g}" using ok that by blast
      have "hd g \<in> set g" using ok that by simp
      then show "{group_relid g} \<subseteq> ue_indexRelid ` set g" unfolding group_relid_def by blast
    qed
    ultimately show ?thesis by (auto simp: image_UN)
  qed
  have "distinct (track_all (map group_relid G) []) \<and> set (track_all (map group_relid G) []) = ue_indexRelid ` set entries"
    using track_all_spec [of "map group_relid G" "[]"] assms(4,5) unfolding relids by simp
  moreover have "us_deletes st' = us_deletes st @ map (\<lambda>g. (group_relid g, map ue_externalId g)) G"
    "us_header st' = h" "us_maintenance st' = us_maintenance st
         @ map (\<lambda>relid. (relid, VAMANA_MAINTENANCE_CONSOLIDATE)) (track_all (map group_relid G) [])
         @ map (\<lambda>relid. (relid, VAMANA_MAINTENANCE_COMPACT)) (track_all overs [])"
    using assms(3) [symmetric]
    by (simp_all add: assms(2) undo_entries_groups flush_groups finish_groups_def flip: assms(1))
  moreover have "concat G = entries" using part assms(1) by simp
  ultimately show ?thesis using ok unfolding list_all_iff by blast
qed

text \<open>
  C9: exactly once.  Take any transaction with savepoints while the worker is available.  The rows
  whose deletion was requested and those still recorded are, counted with multiplicity, the rows the
  transaction inserted, and the ones still recorded are those of the savepoints not rolled back.  So
  an abort requests the deletion of every inserted row exactly once over the whole transaction, and a
  commit requests nothing more.
\<close>

theorem undo_exactly_once:
  assumes "run_events (undo_step U) evs ([topSub], st0) = Inr (subs, st)"
    and "events_ok evs [(topSub, [])]" and "topSub \<noteq> InvalidSubTransactionId"
    and "un_available U" and "us_log st0 = None" and "us_deletes st0 = []" and "pg_qsort qp"
    and "remaining = spec_live (fold spec_step evs [(topSub, [])])"
  shows "mset (deleted st) + mset (map undo_key remaining) = mset (map undo_key (inserted evs)) \<and>
    mset (deleted (snd (VamanaXactCallback qp U XACT_EVENT_ABORT st))) = mset (map undo_key (inserted evs)) \<and>
    deleted (snd (VamanaXactCallback qp U XACT_EVENT_COMMIT st)) = deleted st"
proof -
  have start: "represents ([topSub], log_of st0) [(topSub, [])]"
    using assms(3,5) by (simp add: represents_def live_entries_def VamanaSubxidPendingArrayCreate_def tagged_def log_of_def)
  have live: "map fst (live_entries (log_of st)) = remaining"
    using undo_log.run_live [of U "([topSub], st0)" "[(topSub, [])]" evs "(subs, st)"] start assms(1,2,4,8)
    by simp
  have count: "mset (deleted st) + mset (map undo_key remaining) = mset (map undo_key (inserted evs))"
    using undo_run_deleted [OF assms(1,2) _ assms(4) start] assms(5,6)
    by (simp add: live [symmetric] deleted_def log_of_def live_entries_def VamanaSubxidPendingArrayCreate_def)
  have "mset (deleted (undo_on_abort qp U st)) = mset (deleted st) + mset (map undo_key remaining)"
  proof (cases "us_log st")
    case (Some ulog)
    have "total_cmp (\<lambda>a b. undo_entry_cmp_by_relid (fst (a :: VamanaUndoEntry \<times> subxid)) (fst b))"
      by (auto simp: total_cmp_def undo_entry_cmp_by_relid_def of_bool_def)
    from pg_qsort.mset_qsort [OF assms(7) this]
    have "mset (filter (\<lambda>(entry, subxid). subxid \<noteq> InvalidSubTransactionId)
        (qsort qp (\<lambda>a b. undo_entry_cmp_by_relid (fst a) (fst b)) (pa_entries ulog))) = mset (live_entries ulog)"
      by (simp add: live_entries_def)
    then have "mset (map (undo_key \<circ> fst) (filter (\<lambda>(entry, subxid). subxid \<noteq> InvalidSubTransactionId)
        (qsort qp (\<lambda>a b. undo_entry_cmp_by_relid (fst a) (fst b)) (pa_entries ulog)))) = mset (map undo_key remaining)"
      by (simp add: live [symmetric] log_of_def Some comp_def multiset.map_comp)
    moreover have "pa_count ulog = 0 \<Longrightarrow> remaining = []"
      using live Some by (auto simp: log_of_def pa_count_def live_entries_def)
    ultimately show ?thesis using Some assms(4)
      by (auto simp: undo_on_abort_def undo_entries_deleted pa_count_def comp_def)
  qed (use live in \<open>auto simp: undo_on_abort_def log_of_def live_entries_def VamanaSubxidPendingArrayCreate_def\<close>)
  with count show ?thesis by (simp add: deleted_def)
qed

text \<open>An example transaction: two inserts, the second under a savepoint that is rolled back, and a third.\<close>

definition demo_undo_env :: undo_env where
  "demo_undo_env = \<lparr>un_gucs = demo_gucs, un_MyDatabaseId = 7, un_max_entries = 1000, un_available = True,
     un_delete = (\<lambda>_. Some True)\<rparr>"

definition demo_insert :: "oid \<Rightarrow> u64 \<Rightarrow> VamanaUndoEntry" where
  "demo_insert relid x = \<lparr>ue_indexRelid = relid, ue_externalId = x, ue_growthBytes = 1000, ue_generation = 2\<rparr>"

definition demo_undo_state :: undo_state where
  "demo_undo_state = \<lparr>us_log = None, us_registered = False, us_header = resident_state, us_deletes = [], us_maintenance = []\<rparr>"

definition demo_undo_events :: "VamanaUndoEntry savepoint_event list" where
  "demo_undo_events = [Append (demo_insert 42 1), BeginSub 2, Append (demo_insert 42 2), AbortSub, Append (demo_insert 43 3)]"

theorem undo_exactly_once_witness:
  "\<exists>subs st. run_events (undo_step demo_undo_env) demo_undo_events ([1], demo_undo_state) = Inr (subs, st) \<and>
     deleted st = [(42, 2)] \<and>
     mset (deleted (snd (VamanaXactCallback insertion_qp demo_undo_env XACT_EVENT_ABORT st))) =
       mset [(42, 1), (42, 2), (43, 3)]"
proof -
  let ?run = "run_events (undo_step demo_undo_env) demo_undo_events ([1], demo_undo_state)"
  have "isl ?run = False" by code_simp
  moreover have d: "deleted (snd (projr ?run)) = [(42, 2)]" by code_simp
  ultimately obtain subs st where run: "?run = Inr (subs, st)" and d: "deleted st = [(42, 2)]"
    by (cases ?run) auto
  have ok: "events_ok demo_undo_events [(1, [])]" by (simp add: demo_undo_events_def)
  from undo_exactly_once [OF run ok _ _ _ _ insertion_sort.pg_qsort_axioms refl] have
    "mset (deleted (snd (VamanaXactCallback insertion_qp demo_undo_env XACT_EVENT_ABORT st))) =
       mset (map undo_key (inserted demo_undo_events))"
    by (simp add: demo_undo_env_def demo_undo_state_def)
  moreover have "map undo_key (inserted demo_undo_events) = [(42, 1), (42, 2), (43, 3)]"
    by (simp add: demo_undo_events_def demo_insert_def undo_key_def)
  ultimately show ?thesis using run d by auto
qed

theorem undo_batches_witness:
  "us_deletes (undo_entries demo_undo_env [demo_insert 42 1, demo_insert 42 2, demo_insert 43 3] demo_undo_state) =
     [(42, [1, 2]), (43, [3])]"
proof -
  let ?es = "[demo_insert 42 1, demo_insert 42 2, demo_insert 43 3]"
  obtain overs h where c: "(overs, h) = credit_groups demo_undo_env (length (us_deletes demo_undo_state))
      (undo_groups ?es) (us_header demo_undo_state)" by (metis surj_pair)
  have "\<forall>e \<in> set ?es. OidIsValid (ue_indexRelid e)" "card (ue_indexRelid ` set ?es) \<le> VAMANA_MAX_INDEXES"
    by (simp_all add: demo_insert_def VAMANA_MAX_INDEXES_def card_insert_if)
  note b = undo_batches [OF refl refl c this]
  have "undo_groups ?es = [[demo_insert 42 1, demo_insert 42 2], [demo_insert 43 3]]"
    by (simp add: demo_insert_def same_index_def VAMANA_MAX_DELETE_IDS_def)
  with b show ?thesis by (simp add: demo_undo_state_def group_relid_def demo_insert_def)
qed

text \<open>
  C32: the point of no return.  With the log and its limit inside their compiled bounds, reserving
  fails exactly when the transaction has recorded as many entries as it may, with an out-of-memory
  error and the entries untouched.  When it succeeds, recording the applied insert cannot fail and
  needs no more memory.
\<close>

theorem undo_append_after_reserve:
  assumes "capacity_ok (log_of st)" and "pa_capacity (log_of st) \<le> VAMANA_MAX_UNDO_LOG_MAX_ENTRIES"
    and "un_max_entries U \<le> VAMANA_MAX_UNDO_LOG_MAX_ENTRIES"
    and "VamanaUndoReserve U st = (r, st1)"
  shows "(r = Inl ERRCODE_OUT_OF_MEMORY \<longleftrightarrow> pa_count (log_of st) \<ge> un_max_entries U) \<and>
    (r = Inr () \<longleftrightarrow> pa_count (log_of st) < un_max_entries U) \<and>
    pa_entries (log_of st1) = pa_entries (log_of st) \<and>
    (r = Inr () \<longrightarrow> (\<exists>st2. VamanaUndoAppend s relid x growth generation st1 = (Inr (), st2) \<and>
       pa_capacity (log_of st2) = pa_capacity (log_of st1) \<and>
       pa_capacity (log_of st1) \<le> VAMANA_MAX_UNDO_LOG_MAX_ENTRIES \<and> capacity_ok (log_of st2) \<and>
       pa_entries (log_of st2) = pa_entries (log_of st) @
         [(\<lparr>ue_indexRelid = relid, ue_externalId = x, ue_growthBytes = growth, ue_generation = generation\<rparr>, s)]))"
proof -
  have get: "GetOrCreateUndoLog (EnsureCallbacksRegistered st) =
      (log_of st, (EnsureCallbacksRegistered st)\<lparr>us_log := Some (log_of st)\<rparr>)"
    by (cases st) (auto simp: GetOrCreateUndoLog_def EnsureCallbacksRegistered_def log_of_def Let_def split: option.splits)
  have half: "\<not> pa_capacity (log_of st) > c_div INT_MAX 2"
    using assms(2) by (simp add: INT_MAX_def c_div_def VAMANA_MAX_UNDO_LOG_MAX_ENTRIES_def)
  show ?thesis
  proof (cases "pa_count (log_of st) \<ge> un_max_entries U")
    case True
    then show ?thesis using assms(4) by (auto simp: VamanaUndoReserve_def get Let_def log_of_def split: option.splits)
  next
    case False
    obtain l where l: "VamanaSubxidPendingArrayEnsureSpace (log_of st) (un_max_entries U) = Inr l"
      using half that unfolding VamanaSubxidPendingArrayEnsureSpace_def Let_def
      by (cases "pa_count (log_of st) < pa_capacity (log_of st)") auto
    have r: "r = Inr ()" "st1 = (EnsureCallbacksRegistered st)\<lparr>us_log := Some l\<rparr>"
      using assms(4) False l by (auto simp: VamanaUndoReserve_def get)
    have room: "capacity_ok l" "pa_count l < pa_capacity l" "pa_entries l = pa_entries (log_of st)"
      using EnsureSpace_room [OF assms(1) l] False assms(3)
      by (auto simp: VAMANA_MAX_UNDO_LOG_MAX_ENTRIES_def INT_MAX_def)
    have cap: "pa_capacity l \<le> VAMANA_MAX_UNDO_LOG_MAX_ENTRIES"
      using l assms(2,3) by (auto simp: VamanaSubxidPendingArrayEnsureSpace_def Let_def split: if_splits)
    show ?thesis using False r room cap
      by (auto simp: VamanaUndoAppend_def GetOrCreateUndoLog_def log_of_def VamanaSubxidPendingArrayAppend_def
          VamanaSubxidPendingArrayEnsureSpace_def capacity_ok_def pa_count_def)
  qed
qed

theorem undo_append_after_reserve_witness:
  "fst (VamanaUndoReserve demo_undo_env demo_undo_state) = Inr () \<and>
   fst (VamanaUndoAppend 1 42 9 0 0 (snd (VamanaUndoReserve demo_undo_env demo_undo_state))) = Inr ()"
proof -
  let ?r = "VamanaUndoReserve demo_undo_env demo_undo_state"
  have "?r = (fst ?r, snd ?r)" by simp
  note u = undo_append_after_reserve [OF _ _ _ this, of 1 42 9 0 0]
  have "capacity_ok (log_of demo_undo_state)" "pa_capacity (log_of demo_undo_state) \<le> VAMANA_MAX_UNDO_LOG_MAX_ENTRIES"
    "un_max_entries demo_undo_env \<le> VAMANA_MAX_UNDO_LOG_MAX_ENTRIES"
    "pa_count (log_of demo_undo_state) < un_max_entries demo_undo_env"
    by (simp_all add: log_of_def demo_undo_state_def demo_undo_env_def capacity_ok_def pa_count_def INT_MAX_def
        VamanaSubxidPendingArrayCreate_def VAMANA_MAX_UNDO_LOG_MAX_ENTRIES_def)
  with u show ?thesis by fastforce
qed

end
