(* ===== verification/Tid_Map.thy ===== *)
theory Tid_Map
  imports Svs_Prelude
begin

text \<open>
  The save directory of an index and its TID-map file (\<open>vamanaio.c\<close>).  A call is a sequence of
  system calls against a world of files; the script of the world holds the answer to each of them, and
  a call that runs out of answers was killed at that point, so that every crash is an execution.  How
  the host lays out integers and TIDs in memory is a parameter.
\<close>

section \<open>Paths\<close>

definition digit_char :: "nat \<Rightarrow> char" where
  "digit_char d = ''0123456789'' ! d"

text \<open>\<open>%u\<close>\<close>

function decimal :: "nat \<Rightarrow> string" where
  "decimal n = (if n < 10 then [digit_char n] else decimal (n div 10) @ [digit_char (n mod 10)])"
  by auto
termination by (relation "measure id") auto

declare decimal.simps [simp del]

definition MAXPGPATH :: nat where "MAXPGPATH = 1024"

text \<open>\<open>snprintf\<close> into a buffer of the given size.\<close>

definition snprintf :: "nat \<Rightarrow> string \<Rightarrow> string" where
  "snprintf bufsz s = take (bufsz - 1) s"

definition VamanaGetIndexSavePath :: "string \<Rightarrow> oid \<Rightarrow> oid \<Rightarrow> nat \<Rightarrow> string" where
  "VamanaGetIndexSavePath DataDir dboid relid bufsz =
     snprintf bufsz (DataDir @ ''/vamana_indexes/'' @ decimal (unat dboid) @ ''/'' @ decimal (unat relid))"

definition VamanaGetTidMapTmpPath :: "string \<Rightarrow> nat \<Rightarrow> string" where
  "VamanaGetTidMapTmpPath indexdir bufsz = snprintf bufsz (indexdir @ ''/tidmap.bin.tmp'')"

definition tidmap_path :: "string \<Rightarrow> string" where
  "tidmap_path indexdir = snprintf MAXPGPATH (indexdir @ ''/tidmap.bin'')"

section \<open>The world of files\<close>

type_synonym byte = "8 word"

datatype errno = ENOENT | EEXIST | EINTR | ENOSPC | EOTHER nat

text \<open>
  Answers of the operating system: done, so many bytes taken or delivered, or an error.  A durable
  rename can also fail after the new name is in place.
\<close>

datatype response = Done | Bytes nat | Fails errno | Fails_renamed errno

record disk_file =
  fl_bytes :: "byte list"
  fl_mode :: int
  fl_mtime :: int

record world =
  wd_script :: "response list"
  wd_files :: "string \<Rightarrow> disk_file option"
  wd_dirs :: "string \<Rightarrow> bool"
  wd_now :: int

datatype io_error =
    File_access errno
  | Program_limit_exceeded
  | Data_corrupted
  | Library_error
  | Xlog_error
  | Sql_error errcode
  | Object_in_use
  | Undefined_object

datatype 'a io_result = Return 'a | Raise io_error | Killed

type_synonym ('s, 'a) action = "'s \<Rightarrow> 'a io_result \<times> 's"

type_synonym 'a io = "world \<Rightarrow> 'a io_result \<times> world"

definition io_return :: "'a \<Rightarrow> ('s, 'a) action" where
  "io_return x w = (Return x, w)"

definition io_raise :: "io_error \<Rightarrow> ('s, 'a) action" where
  "io_raise err w = (Raise err, w)"

definition io_bind :: "('s, 'a) action \<Rightarrow> ('a \<Rightarrow> ('s, 'b) action) \<Rightarrow> ('s, 'b) action" where
  "io_bind m f w =
     (case m w of
        (Return x, w) \<Rightarrow> f x w
      | (Raise err, w) \<Rightarrow> (Raise err, w)
      | (Killed, w) \<Rightarrow> (Killed, w))"

lemma io_bind_Return:
  "io_bind m f st = (Return y, st') \<longleftrightarrow> (\<exists>x st1. m st = (Return x, st1) \<and> f x st1 = (Return y, st'))"
  by (auto simp: io_bind_def split: prod.splits io_result.splits)

lemma io_bindE:
  assumes "io_bind m f st = (r, st')"
  obtains (go) x st1 where "m st = (Return x, st1)" "f x st1 = (r, st')"
    | (err) e where "m st = (Raise e, st')" "r = Raise e"
    | (kill) "m st = (Killed, st')" "r = Killed"
  using assms by (auto simp: io_bind_def split: prod.splits io_result.splits)

lemma io_bind_frame:
  assumes "\<And>st. g (snd (m st)) = g st" and "\<And>x st. g (snd (f x st)) = g st"
  shows "g (snd (io_bind m f st)) = g st"
  using assms(1) [of st] assms(2) by (auto simp: io_bind_def split: prod.splits io_result.splits)

definition syscall :: "(response \<Rightarrow> world \<Rightarrow> 'a \<times> world) \<Rightarrow> 'a io" where
  "syscall act w =
     (case wd_script w of
        [] \<Rightarrow> (Killed, w)
      | r # rs \<Rightarrow> let (x, w) = act r (w\<lparr>wd_script := rs\<rparr>) in (Return x, w))"

definition put_file :: "string \<Rightarrow> disk_file option \<Rightarrow> world \<Rightarrow> world" where
  "put_file p f w = w\<lparr>wd_files := (wd_files w)(p := f)\<rparr>"

text \<open>The calls return the error, if any.\<close>

definition sys_unlink :: "string \<Rightarrow> errno option io" where
  "sys_unlink p = syscall (\<lambda>r w.
     case r of
       Fails e \<Rightarrow> (Some e, w)
     | _ \<Rightarrow> if wd_files w p = None then (Some ENOENT, w) else (None, put_file p None w))"

definition sys_create_excl :: "string \<Rightarrow> int \<Rightarrow> errno option io" where
  "sys_create_excl p mode = syscall (\<lambda>r w.
     case r of
       Fails e \<Rightarrow> (Some e, w)
     | _ \<Rightarrow> if wd_files w p \<noteq> None then (Some EEXIST, w)
            else (None, put_file p (Some \<lparr>fl_bytes = [], fl_mode = mode, fl_mtime = wd_now w\<rparr>) w))"

definition sys_fchmod :: "string \<Rightarrow> int \<Rightarrow> errno option io" where
  "sys_fchmod p mode = syscall (\<lambda>r w.
     case r of
       Fails e \<Rightarrow> (Some e, w)
     | _ \<Rightarrow> (None, put_file p (map_option (\<lambda>f. f\<lparr>fl_mode := mode\<rparr>) (wd_files w p)) w))"

definition sys_close :: "errno option io" where
  "sys_close = syscall (\<lambda>r w. case r of Fails e \<Rightarrow> (Some e, w) | _ \<Rightarrow> (None, w))"

definition append_file :: "string \<Rightarrow> byte list \<Rightarrow> world \<Rightarrow> world" where
  "append_file p bs w = put_file p (map_option (\<lambda>f. f\<lparr>fl_bytes := fl_bytes f @ bs\<rparr>) (wd_files w p)) w"

text \<open>\<open>durable_rename\<close>: atomic, but an error may be reported before or after the rename.\<close>

definition sys_durable_rename :: "string \<Rightarrow> string \<Rightarrow> errno option io" where
  "sys_durable_rename a b = syscall (\<lambda>r w.
     case r of
       Fails e \<Rightarrow> (Some e, w)
     | Fails_renamed e \<Rightarrow> (Some e, put_file a None (put_file b (wd_files w a) w))
     | _ \<Rightarrow> (None, put_file a None (put_file b (wd_files w a) w)))"

section \<open>Save directories\<close>

definition sys_mkdir :: "string \<Rightarrow> errno option io" where
  "sys_mkdir p = syscall (\<lambda>r w.
     case r of
       Fails e \<Rightarrow> (Some e, w)
     | _ \<Rightarrow> if wd_dirs w p then (Some EEXIST, w) else (None, w\<lparr>wd_dirs := (wd_dirs w)(p := True)\<rparr>))"

definition VamanaMakeDirectoryOrError :: "string \<Rightarrow> unit io" where
  "VamanaMakeDirectoryOrError path =
     io_bind (sys_mkdir path) (\<lambda>err.
       if err \<noteq> None \<and> err \<noteq> Some EEXIST then io_raise (File_access (the err)) else io_return ())"

definition VamanaSvsPayloadSubdirs :: "string list" where
  "VamanaSvsPayloadSubdirs = [''config'', ''graph'', ''data'']"

fun make_directories :: "string list \<Rightarrow> unit io" where
  "make_directories [] = io_return ()"
| "make_directories (d # ds) = io_bind (VamanaMakeDirectoryOrError d) (\<lambda>_. make_directories ds)"

definition VamanaEnsureSaveDir :: "string \<Rightarrow> oid \<Rightarrow> oid \<Rightarrow> unit io" where
  "VamanaEnsureSaveDir DataDir dboid relid =
     (let parentdir = snprintf MAXPGPATH (DataDir @ ''/vamana_indexes'');
          dbdir = snprintf MAXPGPATH (parentdir @ ''/'' @ decimal (unat dboid));
          indexdir = VamanaGetIndexSavePath DataDir dboid relid MAXPGPATH
      in make_directories ([parentdir, dbdir, indexdir] @
           map (\<lambda>sub. snprintf MAXPGPATH (indexdir @ ''/'' @ sub)) VamanaSvsPayloadSubdirs))"

text \<open>\<open>rmtree\<close>: everything below a directory, and the directory; on an error it has removed nothing or all.\<close>

definition below :: "string \<Rightarrow> string \<Rightarrow> bool" where
  "below d p \<longleftrightarrow> p = d \<or> take (length d + 1) p = d @ ''/''"

definition sys_rmtree :: "string \<Rightarrow> bool io" where
  "sys_rmtree d = syscall (\<lambda>r w.
     case r of
       Fails e \<Rightarrow> (False, w)
     | _ \<Rightarrow> (True, w\<lparr>wd_files := (\<lambda>p. if below d p then None else wd_files w p),
                     wd_dirs := (\<lambda>p. \<not> below d p \<and> wd_dirs w p)\<rparr>))"

definition sys_stat_dir :: "string \<Rightarrow> bool io" where
  "sys_stat_dir d = syscall (\<lambda>r w. case r of Fails e \<Rightarrow> (False, w) | _ \<Rightarrow> (wd_dirs w d, w))"

text \<open>A directory that cannot be removed is only warned about.\<close>

definition VamanaDeleteSaveDir :: "string \<Rightarrow> oid \<Rightarrow> oid \<Rightarrow> unit io" where
  "VamanaDeleteSaveDir DataDir dboid relid =
     (let indexdir = VamanaGetIndexSavePath DataDir dboid relid MAXPGPATH
      in io_bind (sys_stat_dir indexdir) (\<lambda>there.
           if \<not> there then io_return () else io_bind (sys_rmtree indexdir) (\<lambda>_. io_return ())))"

section \<open>The TID-map file\<close>

definition VAMANA_TIDMAP_MAGIC :: u32 where "VAMANA_TIDMAP_MAGIC = 0x53565354"
definition VAMANA_TIDMAP_VERSION :: u32 where "VAMANA_TIDMAP_VERSION = 1"

definition ItemPointerInvalid :: ItemPointerData where
  "ItemPointerInvalid = \<lparr>ip_blkid_hi = 0xFFFF, ip_blkid_lo = 0xFFFF, ip_posid = 0\<rparr>"

text \<open>How the host represents a \<open>uint32\<close> (4 bytes) and an \<open>ItemPointerData\<close> (6 bytes).\<close>

record host_layout =
  put32 :: "u32 \<Rightarrow> byte list"
  get32 :: "byte list \<Rightarrow> u32"
  put_tid :: "ItemPointerData \<Rightarrow> byte list"
  get_tid :: "byte list \<Rightarrow> ItemPointerData"

record VamanaTidMapHeader =
  th_magic :: u32
  th_version :: u32
  th_capacity :: u32
  th_reserved :: u32

definition header_bytes :: "host_layout \<Rightarrow> VamanaTidMapHeader \<Rightarrow> byte list" where
  "header_bytes L h = put32 L (th_magic h) @ put32 L (th_version h) @ put32 L (th_capacity h) @ put32 L (th_reserved h)"

definition header_of_bytes :: "host_layout \<Rightarrow> byte list \<Rightarrow> VamanaTidMapHeader" where
  "header_of_bytes L bs =
     \<lparr>th_magic = get32 L (take 4 bs), th_version = get32 L (take 4 (drop 4 bs)),
      th_capacity = get32 L (take 4 (drop 8 bs)), th_reserved = get32 L (take 4 (drop 12 bs))\<rparr>"

text \<open>The loop over short writes; a write that takes nothing is reported as a full disk.\<close>

definition accepted :: "response \<Rightarrow> byte list \<Rightarrow> nat" where
  "accepted r bs = (case r of Bytes n \<Rightarrow> min n (length bs) | _ \<Rightarrow> length bs)"

fun write_loop :: "string \<Rightarrow> byte list \<Rightarrow> response list \<Rightarrow> errno option io" where
  "write_loop p bs [] w = (if bs = [] then Return None else Killed, w\<lparr>wd_script := []\<rparr>)"
| "write_loop p bs (r # rs) w =
     (if bs = [] then (Return None, w\<lparr>wd_script := r # rs\<rparr>)
      else case r of
        Fails e \<Rightarrow> if e = EINTR then write_loop p bs rs w else (Return (Some e), w\<lparr>wd_script := rs\<rparr>)
      | _ \<Rightarrow>
          let written = accepted r bs in
          if written = 0 then (Return (Some ENOSPC), w\<lparr>wd_script := rs\<rparr>)
          else write_loop p (drop written bs) rs (append_file p (take written bs) w))"

definition VamanaWriteFully :: "string \<Rightarrow> byte list \<Rightarrow> errno option io" where
  "VamanaWriteFully p bs w = write_loop p bs (wd_script w) w"

definition write_both :: "string \<Rightarrow> byte list \<Rightarrow> byte list \<Rightarrow> errno option io" where
  "write_both p hdr body =
     io_bind (VamanaWriteFully p hdr) (\<lambda>failed.
       case failed of Some e \<Rightarrow> io_return (Some e) | None \<Rightarrow> VamanaWriteFully p body)"

text \<open>The error paths close the file and remove it, whatever these calls return.\<close>

definition abandon_tmp :: "string \<Rightarrow> io_error \<Rightarrow> unit io" where
  "abandon_tmp tidmaptmp err =
     io_bind sys_close (\<lambda>_. io_bind (sys_unlink tidmaptmp) (\<lambda>_. io_raise err))"

definition VamanaSaveTidMapAtomically ::
    "host_layout \<Rightarrow> string \<Rightarrow> int \<Rightarrow> oid \<Rightarrow> oid \<Rightarrow> ItemPointerData list \<Rightarrow> int \<Rightarrow> unit io" where
  "VamanaSaveTidMapAtomically L DataDir pg_file_create_mode dboid relid tidMapping cnt =
     (let indexdir = VamanaGetIndexSavePath DataDir dboid relid MAXPGPATH;
          tidmappath = tidmap_path indexdir;
          tidmaptmp = VamanaGetTidMapTmpPath indexdir MAXPGPATH;
          header = \<lparr>th_magic = VAMANA_TIDMAP_MAGIC, th_version = VAMANA_TIDMAP_VERSION,
                    th_capacity = word_of_int cnt, th_reserved = 0\<rparr>
      in io_bind (sys_unlink tidmaptmp) (\<lambda>err.
         if err \<noteq> None \<and> err \<noteq> Some ENOENT then io_raise (File_access (the err))
         else io_bind (sys_create_excl tidmaptmp pg_file_create_mode) (\<lambda>err.
         case err of Some e \<Rightarrow> io_raise (File_access e) | None \<Rightarrow>
         io_bind (sys_fchmod tidmaptmp pg_file_create_mode) (\<lambda>err.
         case err of Some e \<Rightarrow> abandon_tmp tidmaptmp (File_access e) | None \<Rightarrow>
         if (word_of_int cnt :: u64) > (- 1) div 6 then abandon_tmp tidmaptmp Program_limit_exceeded
         else io_bind (write_both tidmaptmp (header_bytes L header)
                         (concat (map (put_tid L) (take (nat cnt) tidMapping)))) (\<lambda>err.
         case err of Some e \<Rightarrow> abandon_tmp tidmaptmp (File_access e) | None \<Rightarrow>
         io_bind sys_close (\<lambda>err.
         case err of
           Some e \<Rightarrow> io_bind (sys_unlink tidmaptmp) (\<lambda>_. io_raise (File_access e))
         | None \<Rightarrow>
             io_bind (sys_durable_rename tidmaptmp tidmappath) (\<lambda>err.
             case err of Some e \<Rightarrow> io_raise (File_access e) | None \<Rightarrow> io_return ())))))))"

section \<open>Reading it back\<close>

text \<open>The size and status calls of the load, and \<open>fread\<close> of so many bytes at a position.\<close>

definition sys_lstat :: "string \<Rightarrow> disk_file option io" where
  "sys_lstat p = syscall (\<lambda>r w. case r of Fails e \<Rightarrow> (None, w) | _ \<Rightarrow> (wd_files w p, w))"

definition sys_open_read :: "string \<Rightarrow> (errno + disk_file) io" where
  "sys_open_read p = syscall (\<lambda>r w.
     case r of
       Fails e \<Rightarrow> (Inl e, w)
     | _ \<Rightarrow> (case wd_files w p of None \<Rightarrow> (Inl ENOENT, w) | Some f \<Rightarrow> (Inr f, w)))"

definition sys_fread :: "disk_file \<Rightarrow> nat \<Rightarrow> nat \<Rightarrow> byte list io" where
  "sys_fread f pos n = syscall (\<lambda>r w.
     let available = take n (drop pos (fl_bytes f)) in
     case r of Fails e \<Rightarrow> ([], w) | Bytes k \<Rightarrow> (take k available, w) | _ \<Rightarrow> (available, w))"

fun tids_of_bytes :: "host_layout \<Rightarrow> nat \<Rightarrow> byte list \<Rightarrow> ItemPointerData list" where
  "tids_of_bytes L 0 bs = []"
| "tids_of_bytes L (Suc n) bs = get_tid L (take 6 bs) # tids_of_bytes L n (drop 6 bs)"

text \<open>Removing a temporary file that is older than the server.\<close>

definition sweep_tmp :: "int \<Rightarrow> string \<Rightarrow> unit io" where
  "sweep_tmp PgStartTime tidmaptmp =
     io_bind (sys_lstat tidmaptmp) (\<lambda>st.
       case st of
         Some f \<Rightarrow>
           if fl_mtime f < PgStartTime then io_bind (sys_unlink tidmaptmp) (\<lambda>_. io_return ())
           else io_return ()
       | None \<Rightarrow> io_return ())"

text \<open>From the header on: the checks, the persisted slots, and empty slots for later inserts.\<close>

definition load_slots :: "host_layout \<Rightarrow> int \<Rightarrow> disk_file \<Rightarrow> byte list \<Rightarrow> ItemPointerData list option io" where
  "load_slots L tidMappingCapacity f hdr =
     (let header = header_of_bytes L hdr in
      if length hdr \<noteq> 16 \<or> th_magic header \<noteq> VAMANA_TIDMAP_MAGIC \<or>
         th_version header \<noteq> VAMANA_TIDMAP_VERSION \<or> th_capacity header > word_of_int tidMappingCapacity
      then io_return None
      else io_bind (sys_fread f 16 (unat (th_capacity header) * 6)) (\<lambda>body.
        if length body div 6 \<noteq> unat (th_capacity header) then io_return None
        else io_return (Some (tids_of_bytes L (unat (th_capacity header)) body @
          replicate (nat tidMappingCapacity - unat (th_capacity header)) ItemPointerInvalid))))"

definition VamanaLoadTidMap ::
    "host_layout \<Rightarrow> string \<Rightarrow> int \<Rightarrow> oid \<Rightarrow> oid \<Rightarrow> int \<Rightarrow> ItemPointerData list option io" where
  "VamanaLoadTidMap L DataDir PgStartTime dboid relid tidMappingCapacity =
     (let indexdir = VamanaGetIndexSavePath DataDir dboid relid MAXPGPATH;
          tidmappath = tidmap_path indexdir;
          tidmaptmp = VamanaGetTidMapTmpPath indexdir MAXPGPATH
      in io_bind (sweep_tmp PgStartTime tidmaptmp) (\<lambda>_.
         io_bind (sys_open_read tidmappath) (\<lambda>opened.
         case opened of
           Inl _ \<Rightarrow> io_return None
         | Inr f \<Rightarrow> io_bind (sys_fread f 0 16) (load_slots L tidMappingCapacity f))))"

section \<open>Reasoning about calls\<close>

definition holds :: "(world \<Rightarrow> bool) \<Rightarrow> 'a io \<Rightarrow> ('a io_result \<Rightarrow> world \<Rightarrow> bool) \<Rightarrow> bool" where
  "holds P m Q \<longleftrightarrow> (\<forall>w. P w \<longrightarrow> (case m w of (r, w') \<Rightarrow> Q r w'))"

lemma holds_bind:
  assumes "holds P m R" and "\<And>x. holds (R (Return x)) (f x) Q"
    and "\<And>e w. R (Raise e) w \<Longrightarrow> Q (Raise e) w" and "\<And>w. R Killed w \<Longrightarrow> Q Killed w"
  shows "holds P (io_bind m f) Q"
  unfolding holds_def
proof (intro allI impI)
  fix w
  assume "P w"
  obtain r w1 where m: "m w = (r, w1)" by fastforce
  with assms(1) \<open>P w\<close> have R: "R r w1" by (auto simp: holds_def)
  show "case io_bind m f w of (r, w') \<Rightarrow> Q r w'"
  proof (cases r)
    case (Return x)
    with R assms(2) [of x] m show ?thesis by (auto simp: io_bind_def holds_def)
  qed (use R m assms(3,4) in \<open>auto simp: io_bind_def\<close>)
qed

lemma holds_apply: "holds P m Q \<Longrightarrow> P w \<Longrightarrow> m w = (r, w') \<Longrightarrow> Q r w'"
  unfolding holds_def by fastforce

lemma holds_return: "(\<And>w. P w \<Longrightarrow> Q (Return x) w) \<Longrightarrow> holds P (io_return x) Q"
  by (simp add: holds_def io_return_def)

lemma holds_raise: "(\<And>w. P w \<Longrightarrow> Q (Raise e) w) \<Longrightarrow> holds P (io_raise e) Q"
  by (simp add: holds_def io_raise_def)

lemma holds_syscall:
  assumes "\<And>w. P w \<Longrightarrow> Q Killed w"
    and "\<And>w r rs. P w \<Longrightarrow> (case act r (w\<lparr>wd_script := rs\<rparr>) of (x, w') \<Rightarrow> Q (Return x) w')"
  shows "holds P (syscall act) Q"
  using assms by (fastforce simp: holds_def syscall_def split: list.splits prod.splits)

lemma holds_weaken: "holds P m Q \<Longrightarrow> (\<And>w. P' w \<Longrightarrow> P w) \<Longrightarrow> (\<And>r w. Q r w \<Longrightarrow> Q' r w) \<Longrightarrow> holds P' m Q'"
  unfolding holds_def by (simp add: case_prod_beta)

section \<open>A save touches the temporary file, and then the map in one step\<close>

lemma put_file_simps [simp]:
  "wd_files (put_file p f w) = (wd_files w)(p := f)" "wd_now (put_file p f w) = wd_now w"
  "wd_script (put_file p f w) = wd_script w"
  by (simp_all add: put_file_def)

text \<open>All files but the temporary one are as they were, and the temporary one is as stated.\<close>

definition tmp_is :: "(string \<Rightarrow> disk_file option) \<Rightarrow> int \<Rightarrow> string \<Rightarrow> (disk_file option \<Rightarrow> bool) \<Rightarrow> world \<Rightarrow> bool" where
  "tmp_is files0 now tmp S w \<longleftrightarrow> (\<forall>q. q \<noteq> tmp \<longrightarrow> wd_files w q = files0 q) \<and> wd_now w = now \<and> S (wd_files w tmp)"

lemma tmp_is_any: "tmp_is files0 now tmp S w \<Longrightarrow> tmp_is files0 now tmp (\<lambda>_. True) w"
  by (simp add: tmp_is_def)

lemma holds_unlink:
  "holds (tmp_is F now tmp S) (sys_unlink tmp) (\<lambda>r. tmp_is F now tmp (\<lambda>_. True))"
  unfolding sys_unlink_def by (rule holds_syscall) (auto simp: tmp_is_def split: response.splits)

lemma holds_create:
  "holds (tmp_is F now tmp S) (sys_create_excl tmp mode)
     (\<lambda>r. tmp_is F now tmp (\<lambda>f. r = Return None \<longrightarrow> f = Some \<lparr>fl_bytes = [], fl_mode = mode, fl_mtime = now\<rparr>))"
  unfolding sys_create_excl_def by (rule holds_syscall) (auto simp: tmp_is_def split: response.splits)

lemma holds_fchmod:
  "holds (tmp_is F now tmp (\<lambda>f. f = Some \<lparr>fl_bytes = [], fl_mode = mode, fl_mtime = now\<rparr>)) (sys_fchmod tmp mode)
     (\<lambda>r. tmp_is F now tmp (\<lambda>f. f = Some \<lparr>fl_bytes = [], fl_mode = mode, fl_mtime = now\<rparr>))"
  unfolding sys_fchmod_def by (rule holds_syscall) (auto simp: tmp_is_def split: response.splits)

lemma holds_close: "holds (tmp_is F now tmp S) sys_close (\<lambda>r. tmp_is F now tmp S)"
  unfolding sys_close_def by (rule holds_syscall) (auto simp: tmp_is_def split: response.splits)

lemma write_loop_tmp:
  assumes "tmp_is F now tmp (\<lambda>f. f = Some \<lparr>fl_bytes = b0, fl_mode = mode, fl_mtime = now\<rparr>) w"
    and "write_loop tmp bs rs w = (r, w')"
  shows "tmp_is F now tmp (\<lambda>f. r = Return None \<longrightarrow> f = Some \<lparr>fl_bytes = b0 @ bs, fl_mode = mode, fl_mtime = now\<rparr>) w'"
  using assms
proof (induction rs arbitrary: bs b0 w)
  case Nil
  then show ?case by (auto simp: tmp_is_def split: if_splits)
next
  case (Cons q rs)
  let ?n = "accepted q bs"
  have A: "tmp_is F now tmp (\<lambda>f. f = Some \<lparr>fl_bytes = b0 @ take ?n bs, fl_mode = mode, fl_mtime = now\<rparr>)
      (append_file tmp (take ?n bs) w)"
    using Cons.prems(1) by (auto simp: tmp_is_def append_file_def)
  have go_on: "tmp_is F now tmp (\<lambda>f. r = Return None \<longrightarrow> f = Some \<lparr>fl_bytes = b0 @ bs, fl_mode = mode, fl_mtime = now\<rparr>) w'"
    if "write_loop tmp (drop ?n bs) rs (append_file tmp (take ?n bs) w) = (r, w')"
    using Cons.IH [OF A that] by simp
  have stop: ?case if "w' = w\<lparr>wd_script := rs'\<rparr>" "r \<noteq> Return None \<or> bs = []" for rs'
    using Cons.prems(1) that by (auto simp: tmp_is_def)
  show ?case
  proof (cases "bs = []")
    case True
    then show ?thesis using Cons.prems(2) stop [of "q # rs"] by auto
  next
    case False
    then show ?thesis using Cons.prems Cons.IH [OF Cons.prems(1), of bs] go_on stop
      by (cases q) (auto simp: Let_def split: if_splits)
  qed
qed

lemma holds_write:
  "holds (tmp_is F now tmp (\<lambda>f. f = Some \<lparr>fl_bytes = b0, fl_mode = mode, fl_mtime = now\<rparr>)) (VamanaWriteFully tmp bs)
     (\<lambda>r. tmp_is F now tmp (\<lambda>f. r = Return None \<longrightarrow> f = Some \<lparr>fl_bytes = b0 @ bs, fl_mode = mode, fl_mtime = now\<rparr>))"
  unfolding holds_def VamanaWriteFully_def using write_loop_tmp by (auto split: prod.splits)

lemma holds_write_both:
  "holds (tmp_is F now tmp (\<lambda>f. f = Some \<lparr>fl_bytes = [], fl_mode = mode, fl_mtime = now\<rparr>)) (write_both tmp hdr body)
     (\<lambda>r. tmp_is F now tmp (\<lambda>f. r = Return None \<longrightarrow> f = Some \<lparr>fl_bytes = hdr @ body, fl_mode = mode, fl_mtime = now\<rparr>))"
  unfolding write_both_def
proof (rule holds_bind [OF holds_write])
  fix failed :: "errno option"
  let ?P = "tmp_is F now tmp (\<lambda>f. Return failed = Return None \<longrightarrow> f = Some \<lparr>fl_bytes = [] @ hdr, fl_mode = mode, fl_mtime = now\<rparr>)"
  show "holds ?P (case failed of Some e \<Rightarrow> io_return (Some e) | None \<Rightarrow> VamanaWriteFully tmp body)
     (\<lambda>r. tmp_is F now tmp (\<lambda>f. r = Return None \<longrightarrow> f = Some \<lparr>fl_bytes = hdr @ body, fl_mode = mode, fl_mtime = now\<rparr>))"
  proof (cases failed)
    case None
    then show ?thesis using holds_write [of F now tmp hdr mode body] by simp
  qed (auto intro!: holds_return simp: tmp_is_def)
qed (auto simp: tmp_is_def)

text \<open>What a save promises of the map file, whatever the answers of the system and wherever it is killed.\<close>

definition saved_or_not :: "(string \<Rightarrow> disk_file option) \<Rightarrow> string \<Rightarrow> string \<Rightarrow> disk_file \<Rightarrow> unit io_result \<Rightarrow> world \<Rightarrow> bool" where
  "saved_or_not files0 tmp path f r w \<longleftrightarrow>
     (\<forall>q. q \<noteq> tmp \<longrightarrow> q \<noteq> path \<longrightarrow> wd_files w q = files0 q) \<and>
     (wd_files w path = files0 path \<or> wd_files w path = Some f) \<and>
     (r = Return () \<longrightarrow> wd_files w path = Some f \<and> wd_files w tmp = None)"

lemma tmp_only_saved:
  "tmp_is F now tmp S w \<Longrightarrow> tmp \<noteq> path \<Longrightarrow> r \<noteq> Return () \<Longrightarrow> saved_or_not F tmp path f r w"
  by (simp add: tmp_is_def saved_or_not_def)

lemma holds_abandon:
  assumes "tmp \<noteq> path"
  shows "holds (tmp_is F now tmp S) (abandon_tmp tmp err) (saved_or_not F tmp path f)"
  unfolding abandon_tmp_def
  by (rule holds_bind [OF holds_close], rule holds_bind [OF holds_unlink], rule holds_raise)
    (auto intro: tmp_only_saved [OF _ assms])

lemma holds_rename:
  assumes "tmp \<noteq> path"
  shows "holds (tmp_is F now tmp (\<lambda>g. g = Some f)) (sys_durable_rename tmp path)
    (\<lambda>r. saved_or_not F tmp path f (case r of Return None \<Rightarrow> Return () | _ \<Rightarrow> Killed))"
  unfolding sys_durable_rename_def
  by (rule holds_syscall) (use assms in \<open>auto simp: tmp_is_def saved_or_not_def split: response.splits\<close>)

lemma holds_rename_end:
  assumes "tmp \<noteq> path"
  shows "holds (tmp_is F now tmp (\<lambda>g. g = Some f))
    (io_bind (sys_durable_rename tmp path) (\<lambda>err. case err of Some e \<Rightarrow> io_raise (File_access e) | None \<Rightarrow> io_return ()))
    (saved_or_not F tmp path f)"
  by (rule holds_bind [OF holds_rename [OF assms]])
    (auto intro!: holds_return holds_raise split: option.splits simp: saved_or_not_def)

definition map_file :: "host_layout \<Rightarrow> int \<Rightarrow> int \<Rightarrow> ItemPointerData list \<Rightarrow> int \<Rightarrow> disk_file" where
  "map_file L mode now tids cnt =
     \<lparr>fl_bytes = header_bytes L \<lparr>th_magic = VAMANA_TIDMAP_MAGIC, th_version = VAMANA_TIDMAP_VERSION,
                                th_capacity = word_of_int cnt, th_reserved = 0\<rparr>
                 @ concat (map (put_tid L) (take (nat cnt) tids)),
      fl_mode = mode, fl_mtime = now\<rparr>"

lemma holds_step:
  assumes "tmp \<noteq> path" and "holds P m (\<lambda>r. tmp_is F now tmp (S r))"
    and "\<And>e. holds (tmp_is F now tmp (S (Return (Some e)))) (handle e) (saved_or_not F tmp path f)"
    and "holds (tmp_is F now tmp (S (Return None))) rest (saved_or_not F tmp path f)"
  shows "holds P (io_bind m (\<lambda>err. case err of Some e \<Rightarrow> handle e | None \<Rightarrow> rest)) (saved_or_not F tmp path f)"
  using assms(3,4)
  by (intro holds_bind [OF assms(2)]) (auto intro: tmp_only_saved [OF _ assms(1)] split: option.splits)

lemma holds_file_access:
  assumes "tmp \<noteq> path"
  shows "holds (tmp_is F now tmp S) (io_raise err) (saved_or_not F tmp path f)"
  by (rule holds_raise) (auto intro: tmp_only_saved [OF _ assms])

lemma holds_save:
  fixes DataDir dboid relid
  defines "dir \<equiv> VamanaGetIndexSavePath DataDir dboid relid MAXPGPATH"
  defines "path \<equiv> tidmap_path dir" and "tmp \<equiv> VamanaGetTidMapTmpPath dir MAXPGPATH"
  assumes ne: "tmp \<noteq> path"
  shows "holds (\<lambda>w. wd_files w = F \<and> wd_now w = now)
     (VamanaSaveTidMapAtomically L DataDir mode dboid relid tids cnt)
     (saved_or_not F tmp path (map_file L mode now tids cnt))"
proof -
  let ?T = "tmp_is F now tmp"
  let ?f = "map_file L mode now tids cnt"
  let ?Q = "saved_or_not F tmp path ?f"
  let ?hdr = "header_bytes L \<lparr>th_magic = VAMANA_TIDMAP_MAGIC, th_version = VAMANA_TIDMAP_VERSION,
                                th_capacity = word_of_int cnt, th_reserved = 0\<rparr>"
  let ?body = "concat (map (put_tid L) (take (nat cnt) tids))"
  let ?created = "\<lambda>f. f = Some \<lparr>fl_bytes = [], fl_mode = mode, fl_mtime = now\<rparr>"
  let ?close = "io_bind sys_close (\<lambda>err. case err of
           Some e \<Rightarrow> io_bind (sys_unlink tmp) (\<lambda>_. io_raise (File_access e))
         | None \<Rightarrow> io_bind (sys_durable_rename tmp path) (\<lambda>err.
             case err of Some e \<Rightarrow> io_raise (File_access e) | None \<Rightarrow> io_return ()))"
  let ?filled = "io_bind (write_both tmp ?hdr ?body) (\<lambda>err.
         case err of Some e \<Rightarrow> abandon_tmp tmp (File_access e) | None \<Rightarrow> ?close)"
  have closed: "holds (?T (\<lambda>g. g = Some ?f)) ?close ?Q"
    by (rule holds_step [OF ne holds_close _ holds_rename_end [OF ne]], rule holds_bind [OF holds_unlink])
      (auto intro: holds_file_access [OF ne] tmp_only_saved [OF _ ne])
  have written: "holds (?T ?created) ?filled ?Q"
    by (rule holds_step [OF ne holds_write_both holds_abandon [OF ne]])
      (use closed in \<open>simp add: map_file_def\<close>)
  have checked: "holds (?T ?created) (if (word_of_int cnt :: u64) > (- 1) div 6
      then abandon_tmp tmp Program_limit_exceeded else ?filled) ?Q"
    using written holds_abandon [OF ne] by simp
  note moded = holds_step [OF ne holds_fchmod holds_abandon [OF ne] checked]
  have created: "holds (?T (\<lambda>_. True)) (io_bind (sys_create_excl tmp mode) (\<lambda>err.
         case err of Some e \<Rightarrow> io_raise (File_access e) | None \<Rightarrow>
         io_bind (sys_fchmod tmp mode) (\<lambda>err.
         case err of Some e \<Rightarrow> abandon_tmp tmp (File_access e) | None \<Rightarrow>
         if (word_of_int cnt :: u64) > (- 1) div 6 then abandon_tmp tmp Program_limit_exceeded else ?filled))) ?Q"
    by (rule holds_step [OF ne holds_create holds_file_access [OF ne]]) (use moded in simp)
  have start: "wd_files w = F \<and> wd_now w = now \<Longrightarrow> ?T (\<lambda>_. True) w" for w by (auto simp: tmp_is_def)
  show ?thesis
    unfolding VamanaSaveTidMapAtomically_def Let_def dir_def [symmetric] path_def [symmetric] tmp_def [symmetric]
    by (rule holds_weaken [OF _ start], rule holds_bind [OF holds_unlink])
      (use created in \<open>auto intro: holds_file_access [OF ne] tmp_only_saved [OF _ ne]\<close>)
qed

section \<open>Paths of different indexes\<close>

definition undecimal :: "string \<Rightarrow> nat" where
  "undecimal s = fold (\<lambda>c v. v * 10 + (of_char c - 48)) s 0"

lemma digit_char_code: "d < 10 \<Longrightarrow> of_char (digit_char d) = (48 + d :: nat)"
  unfolding digit_char_def by (auto simp: less_Suc_eq numeral_eq_Suc)

lemma undecimal_decimal [simp]: "undecimal (decimal n) = n"
proof (induction n rule: decimal.induct)
  case (1 n)
  then show ?case by (subst decimal.simps) (auto simp: undecimal_def digit_char_code)
qed

lemma decimal_inject [simp]: "decimal m = decimal n \<longleftrightarrow> m = n"
  by (metis undecimal_decimal)

lemma digit_char_slash: "d < 10 \<Longrightarrow> digit_char d \<noteq> CHR ''/''"
  using digit_char_code [of d] by auto

lemma decimal_no_slash [simp]: "CHR ''/'' \<notin> set (decimal n)"
proof (induction n rule: decimal.induct)
  case (1 n)
  then show ?case using digit_char_slash [of n] digit_char_slash [of "n mod 10"]
    by (subst decimal.simps) auto
qed

lemma decimal_length: "n < 10 ^ k \<Longrightarrow> 0 < k \<Longrightarrow> length (decimal n) \<le> k"
proof (induction k arbitrary: n)
  case (Suc k)
  show ?case
  proof (cases "n < 10")
    case True
    then show ?thesis by (subst decimal.simps) simp
  next
    case False
    then have "0 < k" "n div 10 < 10 ^ k" using Suc.prems by (auto intro: gr0I)
    with Suc.IH [of "n div 10"] False show ?thesis by (subst decimal.simps) simp
  qed
qed simp

lemma decimal_oid: "length (decimal (unat (x :: oid))) \<le> 10"
proof (rule decimal_length)
  have "unat x < 2 ^ 32" using unsigned_less [of x] by simp
  then show "unat x < 10 ^ 10" by simp
qed simp

definition DATADIR_MAX :: nat where "DATADIR_MAX = 960"

lemma save_path_whole:
  assumes "length D \<le> DATADIR_MAX"
  shows "VamanaGetIndexSavePath D dboid relid MAXPGPATH = D @ ''/vamana_indexes/'' @ decimal (unat dboid) @ ''/'' @ decimal (unat relid)"
    and "length (VamanaGetIndexSavePath D dboid relid MAXPGPATH) \<le> 997"
  using assms decimal_oid [of dboid] decimal_oid [of relid]
  by (auto simp: VamanaGetIndexSavePath_def snprintf_def MAXPGPATH_def DATADIR_MAX_def)

lemma tidmap_paths_whole:
  assumes "length dir \<le> 997"
  shows "tidmap_path dir = dir @ ''/tidmap.bin''" "VamanaGetTidMapTmpPath dir MAXPGPATH = dir @ ''/tidmap.bin.tmp''"
    "VamanaGetTidMapTmpPath dir MAXPGPATH \<noteq> tidmap_path dir"
  using assms by (simp_all add: tidmap_path_def VamanaGetTidMapTmpPath_def snprintf_def MAXPGPATH_def)

lemma cut_at_char:
  assumes "c \<notin> set xs" and "c \<notin> set xs'" and "xs @ c # ys = xs' @ c # ys'"
  shows "xs = xs' \<and> ys = ys'"
  using assms
proof (induction xs arbitrary: xs')
  case Nil
  then show ?case by (cases xs') auto
next
  case (Cons x xs)
  then show ?case by (cases xs') auto
qed

text \<open>Nothing below the directory of one index belongs to another.\<close>

lemma save_dirs_disjoint:
  assumes "length D \<le> DATADIR_MAX" and "below (VamanaGetIndexSavePath D a b MAXPGPATH) p"
    and "below (VamanaGetIndexSavePath D a' b' MAXPGPATH) p"
  shows "a = a' \<and> b = b'"
proof -
  have rest: "\<exists>t. p @ ''/'' = VamanaGetIndexSavePath D x y MAXPGPATH @ CHR ''/'' # t"
    if "below (VamanaGetIndexSavePath D x y MAXPGPATH) p" for x y
    using that unfolding below_def
    by (metis append_Cons append_Nil append_assoc append_take_drop_id)
  obtain t t' where "p @ ''/'' = VamanaGetIndexSavePath D a b MAXPGPATH @ CHR ''/'' # t"
      "p @ ''/'' = VamanaGetIndexSavePath D a' b' MAXPGPATH @ CHR ''/'' # t'"
    using rest [OF assms(2)] rest [OF assms(3)] by blast
  then have "decimal (unat a) @ CHR ''/'' # (decimal (unat b) @ CHR ''/'' # t) =
      decimal (unat a') @ CHR ''/'' # (decimal (unat b') @ CHR ''/'' # t')"
    by (simp add: save_path_whole(1) [OF assms(1)])
  then have "decimal (unat a) = decimal (unat a')" "decimal (unat b) @ CHR ''/'' # t = decimal (unat b') @ CHR ''/'' # t'"
    using cut_at_char [OF decimal_no_slash decimal_no_slash] by blast+
  then have "decimal (unat a) = decimal (unat a')" "decimal (unat b) = decimal (unat b')"
    using cut_at_char [OF decimal_no_slash decimal_no_slash] by blast+
  then show ?thesis by (simp add: unsigned_word_eqI)
qed

text \<open>A world in which the next answers are all good.\<close>

definition calm :: "nat \<Rightarrow> world \<Rightarrow> bool" where
  "calm n w \<longleftrightarrow> n \<le> length (wd_script w) \<and> list_all (\<lambda>r. r = Done) (wd_script w)"

lemma calm_step: "calm (Suc n) w \<Longrightarrow> \<exists>rs. wd_script w = Done # rs \<and> calm n (w\<lparr>wd_script := rs\<rparr>)"
  by (cases "wd_script w") (auto simp: calm_def)

lemma holds_const: "(C \<Longrightarrow> holds (\<lambda>_. True) m Q) \<Longrightarrow> holds (\<lambda>_. C) m Q"
  by (simp add: holds_def)

lemma holds_unlink_other:
  assumes "tmp \<noteq> path"
  shows "holds (\<lambda>w. wd_files w path = F) (sys_unlink tmp) (\<lambda>r w. wd_files w path = F \<and> (\<forall>e. r \<noteq> Raise e))"
  unfolding sys_unlink_def
  by (rule holds_syscall) (use assms in \<open>auto split: response.splits prod.splits if_splits\<close>)

lemma holds_sweep:
  assumes "tmp \<noteq> path"
  shows "holds (\<lambda>w. wd_files w path = F) (sweep_tmp start tmp) (\<lambda>r w. wd_files w path = F \<and> (\<forall>e. r \<noteq> Raise e))"
proof -
  have stat: "holds (\<lambda>w. wd_files w path = F) (sys_lstat tmp) (\<lambda>r w. wd_files w path = F \<and> (\<forall>e. r \<noteq> Raise e))"
    unfolding sys_lstat_def by (rule holds_syscall) (auto split: response.splits prod.splits)
  have rm: "holds (\<lambda>w. wd_files w path = F) (io_bind (sys_unlink tmp) (\<lambda>_. io_return ()))
      (\<lambda>r w. wd_files w path = F \<and> (\<forall>e. r \<noteq> Raise e))"
    by (rule holds_bind [OF holds_unlink_other [OF assms]]) (auto intro!: holds_return)
  show ?thesis unfolding sweep_tmp_def
    by (rule holds_bind [OF stat]) (use rm in \<open>auto intro!: holds_return split: option.splits\<close>)
qed

lemma holds_open:
  "holds (\<lambda>w. wd_files w path = Some f) (sys_open_read path)
     (\<lambda>r w. r = Killed \<or> (\<exists>e. r = Return (Inl e)) \<or> r = Return (Inr f))"
  unfolding sys_open_read_def by (rule holds_syscall) (auto split: response.splits)

lemma holds_fread:
  "holds P (sys_fread f pos n)
     (\<lambda>r w. r = Killed \<or> (\<exists>bs. r = Return bs \<and> (n \<le> length bs \<longrightarrow> bs = take n (drop pos (fl_bytes f)))))"
  unfolding sys_fread_def by (rule holds_syscall) (auto simp: Let_def min_def split: response.splits)

lemma calm_sweep:
  assumes "calm (Suc (Suc n)) w"
  shows "\<exists>w'. sweep_tmp start tmp w = (Return (), w') \<and> calm n w'"
proof -
  obtain rs where rs: "wd_script w = Done # rs" "calm (Suc n) (w\<lparr>wd_script := rs\<rparr>)"
    using calm_step [OF assms] by blast
  then obtain rs' where rs': "rs = Done # rs'" "calm n (w\<lparr>wd_script := rs'\<rparr>)" using calm_step [OF rs(2)] by auto
  have "calm n (w\<lparr>wd_script := rs\<rparr>)" using rs(2) by (simp add: calm_def)
  moreover have "calm n (put_file tmp None (w\<lparr>wd_script := rs'\<rparr>))" using rs'(2) by (simp add: calm_def)
  ultimately show ?thesis using rs rs' (1)
    by (auto simp: sweep_tmp_def sys_lstat_def sys_unlink_def io_bind_def syscall_def io_return_def split: option.splits)
qed

section \<open>Round trip\<close>

locale host_memory =
  fixes L :: host_layout
  assumes get_put32: "get32 L (put32 L x) = x" and length_put32: "length (put32 L x) = 4"
    and get_put_tid: "get_tid L (put_tid L t) = t" and length_put_tid: "length (put_tid L t) = 6"
begin

lemma header_roundtrip: "length (header_bytes L h) = 16 \<and> header_of_bytes L (header_bytes L h) = h"
  by (simp add: header_bytes_def header_of_bytes_def length_put32 get_put32)

lemma tids_roundtrip: "tids_of_bytes L (length ts) (concat (map (put_tid L) ts)) = ts"
  by (induction ts) (simp_all add: length_put_tid get_put_tid)

lemma length_tids: "length (concat (map (put_tid L) ts)) = 6 * length ts"
  by (induction ts) (simp_all add: length_put_tid)

text \<open>A short or failed read never yields a wrong header or a wrong body that is taken for whole.\<close>

lemma sys_fread_whole:
  assumes "sys_fread f pos n w = (Return bs, w')" and "n \<le> length bs"
  shows "bs = take n (drop pos (fl_bytes f))"
  using assms by (auto simp: sys_fread_def syscall_def Let_def min_def split: list.splits response.splits if_splits)

lemma holds_load_slots:
  fixes tids :: "ItemPointerData list" and cap mode now :: int
  defines "f \<equiv> map_file L mode now tids (int (length tids))"
  defines "whole \<equiv> tids @ replicate (nat cap - length tids) ItemPointerInvalid"
  assumes cap: "int (length tids) \<le> cap" "cap < 2 ^ 31"
    and hdr: "16 \<le> length hdr \<longrightarrow> hdr = take 16 (fl_bytes f)"
  shows "holds P (load_slots L cap f hdr) (\<lambda>r w. r \<in> {Killed, Return None, Return (Some whole)})"
    and "hdr = take 16 (fl_bytes f) \<Longrightarrow> calm 1 w \<Longrightarrow> fst (load_slots L cap f hdr w) = Return (Some whole)"
proof -
  let ?hdr = "\<lparr>th_magic = VAMANA_TIDMAP_MAGIC, th_version = VAMANA_TIDMAP_VERSION,
                th_capacity = word_of_int (int (length tids)), th_reserved = 0\<rparr>"
  let ?body = "concat (map (put_tid L) tids)"
  have hd: "take 16 (fl_bytes f) = header_bytes L ?hdr" "drop 16 (fl_bytes f) = ?body" "length (header_bytes L ?hdr) = 16"
    using header_roundtrip [of ?hdr] by (simp_all add: map_file_def f_def)
  have hb: "header_of_bytes L (header_bytes L ?hdr) = ?hdr" using header_roundtrip by blast
  have n: "unat (word_of_int (int (length tids)) :: u32) = length tids"
    using cap by (simp add: unat_of_nat)
  have "unat (word_of_nat (nat cap) :: u32) = nat cap" using cap by (subst unat_of_nat) simp
  then have "unat (word_of_int cap :: u32) = nat cap" using cap by simp
  then have le: "\<not> word_of_int cap < (word_of_int (int (length tids)) :: u32)"
    unfolding word_less_nat_alt n using cap by linarith
  have body: "take (length tids * 6) ?body = ?body" "length ?body div 6 = length tids" by (simp_all add: length_tids)
  let ?rest = "\<lambda>body. if length body div 6 \<noteq> length tids then io_return None
       else io_return (Some (tids_of_bytes L (length tids) body @ replicate (nat cap - length tids) ItemPointerInvalid))"
  have go: "load_slots L cap f (header_bytes L ?hdr) = io_bind (sys_fread f 16 (length tids * 6)) ?rest"
    using le unfolding load_slots_def Let_def hb hd(3) VamanaTidMapHeader.simps n
    by (simp del: of_int_of_nat_eq)
  have all: "?rest ?body = (io_return (Some whole) :: ItemPointerData list option io)" by (simp add: body(2) tids_roundtrip whole_def)
  show "holds P (load_slots L cap f hdr) (\<lambda>r w. r \<in> {Killed, Return None, Return (Some whole)})"
  proof (cases "length hdr = 16")
    case False
    then show ?thesis by (auto simp: load_slots_def Let_def intro: holds_return)
  next
    case True
    then have "hdr = header_bytes L ?hdr" using hdr hd(1) by simp
    moreover have "holds P (io_bind (sys_fread f 16 (length tids * 6)) ?rest)
        (\<lambda>r w. r \<in> {Killed, Return None, Return (Some whole)})"
    proof (rule holds_bind [OF holds_fread])
      fix bs
      show "holds (\<lambda>w. Return bs = Killed \<or> (\<exists>bs'. Return bs = Return bs' \<and>
          (length tids * 6 \<le> length bs' \<longrightarrow> bs' = take (length tids * 6) (drop 16 (fl_bytes f))))) (?rest bs)
          (\<lambda>r w. r \<in> {Killed, Return None, Return (Some whole)})"
      proof (cases "length bs div 6 = length tids")
        case True
        then have "length tids * 6 \<le> length bs" by (metis div_times_less_eq_dividend)
        then show ?thesis using hd(2) body by (auto simp: holds_def io_return_def tids_roundtrip whole_def)
      qed (auto intro: holds_return)
    qed auto
    ultimately show ?thesis by (simp only: go)
  qed
  assume "hdr = take 16 (fl_bytes f)" and "calm 1 w"
  then obtain rs where "wd_script w = Done # rs" "hdr = header_bytes L ?hdr"
    using calm_step [of 0 w] hd(1) by auto
  then show "fst (load_slots L cap f hdr w) = Return (Some whole)"
    using all by (simp only: go) (simp add: io_bind_def sys_fread_def syscall_def hd(2) body(1) io_return_def Let_def split: if_splits)
qed

lemma load_saved:
  fixes tids :: "ItemPointerData list" and cap :: int and D dboid relid
  defines "dir \<equiv> VamanaGetIndexSavePath D dboid relid MAXPGPATH"
  defines "whole \<equiv> tids @ replicate (nat cap - length tids) ItemPointerInvalid"
  assumes ne: "VamanaGetTidMapTmpPath dir MAXPGPATH \<noteq> tidmap_path dir"
    and there: "wd_files v (tidmap_path dir) = Some (map_file L mode now tids (int (length tids)))"
    and cap: "int (length tids) \<le> cap" "cap < 2 ^ 31"
  shows "fst (VamanaLoadTidMap L D start dboid relid cap v) \<in> {Killed, Return None, Return (Some whole)}"
    and "calm 5 v \<Longrightarrow> fst (VamanaLoadTidMap L D start dboid relid cap v) = Return (Some whole)"
proof -
  let ?f = "map_file L mode now tids (int (length tids))"
  let ?ok = "\<lambda>r (w :: world). r \<in> {Killed, Return None, Return (Some whole)}"
  note slots = holds_load_slots [OF cap, of _ mode now, folded whole_def]
  have slot: "holds (\<lambda>_. Return hdr = Killed \<or> (\<exists>bs. Return hdr = Return bs \<and>
      (16 \<le> length bs \<longrightarrow> bs = take 16 (drop 0 (fl_bytes ?f))))) (load_slots L cap ?f hdr) ?ok" for hdr
  proof (rule holds_const)
    assume "Return hdr = Killed \<or> (\<exists>bs. Return hdr = Return bs \<and> (16 \<le> length bs \<longrightarrow> bs = take 16 (drop 0 (fl_bytes ?f))))"
    then have "16 \<le> length hdr \<longrightarrow> hdr = take 16 (fl_bytes ?f)" by simp
    then show "holds (\<lambda>_. True) (load_slots L cap ?f hdr) ?ok" by (rule slots(1))
  qed
  have read: "holds P (io_bind (sys_fread ?f 0 16) (load_slots L cap ?f)) ?ok" for P
    by (rule holds_bind [OF holds_fread slot]) auto
  have opened: "holds (\<lambda>w. Return x = Killed \<or> (\<exists>e. Return x = Return (Inl e)) \<or> Return x = Return (Inr ?f))
      (case x of Inl _ \<Rightarrow> io_return None | Inr f \<Rightarrow> io_bind (sys_fread f 0 16) (load_slots L cap f)) ?ok" for x :: "errno + disk_file"
    by (rule holds_const) (use read in \<open>auto intro: holds_return\<close>)
  have open_map: "holds (\<lambda>w. wd_files w (tidmap_path dir) = Some ?f \<and> (\<forall>e. Return x \<noteq> Raise e))
      (sys_open_read (tidmap_path dir)) (\<lambda>r w. r = Killed \<or> (\<exists>e. r = Return (Inl e)) \<or> r = Return (Inr ?f))" for x :: unit
    by (rule holds_weaken [OF holds_open]) auto
  have "holds (\<lambda>w. wd_files w (tidmap_path dir) = Some ?f) (VamanaLoadTidMap L D start dboid relid cap) ?ok"
    unfolding VamanaLoadTidMap_def Let_def dir_def [symmetric]
  proof (rule holds_bind [OF holds_sweep [OF ne]])
    fix x :: unit
    show "holds (\<lambda>w. wd_files w (tidmap_path dir) = Some ?f \<and> (\<forall>e. Return x \<noteq> Raise e))
      (io_bind (sys_open_read (tidmap_path dir)) (\<lambda>opened. case opened of
           Inl _ \<Rightarrow> io_return None
         | Inr f \<Rightarrow> io_bind (sys_fread f 0 16) (load_slots L cap f))) ?ok"
      by (rule holds_bind [OF open_map opened]) auto
  qed auto
  then show "fst (VamanaLoadTidMap L D start dboid relid cap v) \<in> {Killed, Return None, Return (Some whole)}"
    using there by (auto simp: holds_def case_prod_beta)
  assume "calm 5 v"
  then have "calm (Suc (Suc (Suc (Suc 1)))) v" by (simp add: calm_def)
  then obtain v1 where v1: "sweep_tmp start (VamanaGetTidMapTmpPath dir MAXPGPATH) v = (Return (), v1)" "calm (Suc (Suc 1)) v1"
    using calm_sweep by blast
  have f1: "wd_files v1 (tidmap_path dir) = Some ?f"
    using holds_apply [OF holds_sweep [OF ne] there v1(1)] by simp
  obtain rs0 where rs0: "wd_script v1 = Done # rs0" "calm (Suc 1) (v1\<lparr>wd_script := rs0\<rparr>)"
    using calm_step [OF v1(2)] by blast
  obtain rs1 where "rs0 = Done # rs1" "calm 1 (v1\<lparr>wd_script := rs1\<rparr>)"
    using calm_step [OF rs0(2)] by auto
  then have rs: "wd_script v1 = Done # Done # rs1" "calm 1 (v1\<lparr>wd_script := rs1\<rparr>)" using rs0 by auto
  have "fst (load_slots L cap ?f (take 16 (fl_bytes ?f)) (v1\<lparr>wd_script := rs1\<rparr>)) = Return (Some whole)"
    by (rule slots(2)) (use rs(2) in simp_all)
  then show "fst (VamanaLoadTidMap L D start dboid relid cap v) = Return (Some whole)"
    unfolding VamanaLoadTidMap_def Let_def dir_def [symmetric] io_bind_def [of "sweep_tmp _ _"] v1(1)
    by (simp add: io_bind_def sys_open_read_def sys_fread_def syscall_def rs(1) f1)
qed

end
text \<open>A little-endian host.\<close>

unbundle bit_operations_syntax

definition le16 :: "16 word \<Rightarrow> byte list" where
  "le16 x = [ucast x, ucast (drop_bit 8 x)]"

definition of_le16 :: "byte list \<Rightarrow> 16 word" where
  "of_le16 bs = ucast (bs ! 0) OR push_bit 8 (ucast (bs ! 1))"

definition le32 :: "u32 \<Rightarrow> byte list" where
  "le32 x = le16 (ucast x) @ le16 (ucast (drop_bit 16 x))"

definition of_le32 :: "byte list \<Rightarrow> u32" where
  "of_le32 bs = ucast (of_le16 (take 2 bs)) OR push_bit 16 (ucast (of_le16 (drop 2 bs)))"

definition le_layout :: host_layout where
  "le_layout =
     \<lparr>put32 = le32, get32 = of_le32,
      put_tid = (\<lambda>t. le16 (ip_blkid_hi t) @ le16 (ip_blkid_lo t) @ le16 (ip_posid t)),
      get_tid = (\<lambda>bs. \<lparr>ip_blkid_hi = of_le16 (take 2 bs), ip_blkid_lo = of_le16 (take 2 (drop 2 bs)),
                       ip_posid = of_le16 (take 2 (drop 4 bs))\<rparr>)\<rparr>"

lemma length_le [simp]: "length (le16 y) = 2" "length (le32 x) = 4"
  by (simp_all add: le16_def le32_def)

lemma of_le16_le16: "of_le16 (le16 x) = x"
  by (rule bit_word_eqI)
    (auto simp: of_le16_def le16_def bit_or_iff bit_push_bit_iff bit_ucast_iff bit_drop_bit_eq)

lemma of_le32_le32: "of_le32 (le32 x) = x"
proof -
  have "of_le32 (le32 x) = ucast (ucast x :: 16 word) OR push_bit 16 (ucast (ucast (drop_bit 16 x) :: 16 word))"
    by (simp add: of_le32_def le32_def of_le16_le16 [unfolded le16_def] le16_def)
  also have "\<dots> = x"
    by (rule bit_word_eqI) (auto simp: bit_or_iff bit_push_bit_iff bit_ucast_iff bit_drop_bit_eq)
  finally show ?thesis .
qed

interpretation little_endian: host_memory le_layout
  by unfold_locales (simp_all add: le_layout_def of_le32_le32 of_le16_le16)

section \<open>Properties\<close>

text \<open>
  C18: a save of the TID map is atomic, whatever the system answers and wherever the process is
  killed.  The map file is either the one from before or the complete new one, with exactly the
  cluster's file mode; no other file of the data directory but the temporary one is touched; and a
  save that returns has published the new file and left no temporary file.
\<close>

theorem tidmap_save_atomic:
  assumes "VamanaSaveTidMapAtomically L DataDir mode dboid relid tids cnt w = (r, w')"
    and "length DataDir \<le> DATADIR_MAX"
    and "dir = VamanaGetIndexSavePath DataDir dboid relid MAXPGPATH"
    and "new = map_file L mode (wd_now w) tids cnt"
  shows "(wd_files w' (tidmap_path dir) = wd_files w (tidmap_path dir) \<or> wd_files w' (tidmap_path dir) = Some new) \<and>
    fl_mode new = mode \<and>
    (\<forall>p. p \<noteq> tidmap_path dir \<and> p \<noteq> dir @ ''/tidmap.bin.tmp'' \<longrightarrow> wd_files w' p = wd_files w p) \<and>
    (r = Return () \<longrightarrow> wd_files w' (tidmap_path dir) = Some new \<and> wd_files w' (dir @ ''/tidmap.bin.tmp'') = None)"
proof -
  note paths = tidmap_paths_whole [OF save_path_whole(2) [OF assms(2)], of dboid relid, folded assms(3)]
  have "saved_or_not (wd_files w) (dir @ ''/tidmap.bin.tmp'') (tidmap_path dir) new r w'"
    using holds_apply [OF holds_save [of DataDir dboid relid "wd_files w" "wd_now w" L mode tids cnt, folded assms(3,4)] _ assms(1)]
      paths by simp
  then show ?thesis by (auto simp: saved_or_not_def assms(4) map_file_def)
qed

text \<open>
  C24: what is loaded is what was saved.  As long as the map file of an index stays in place, a load
  either fails and asks for a rebuild or returns exactly the TIDs that were saved, with empty slots
  up to the capacity asked for, whatever reads fail or come up short, and it does return them when no
  call fails.  Deleting the save directory of any other index of any
  database leaves the file in place.
\<close>

theorem tidmap_roundtrip:
  assumes "host_memory L" and "length DataDir \<le> DATADIR_MAX"
    and "VamanaSaveTidMapAtomically L DataDir mode dboid relid tids (int (length tids)) w = (Return (), w')"
    and "int (length tids) \<le> capacity" and "capacity < 2 ^ 31"
    and "path = tidmap_path (VamanaGetIndexSavePath DataDir dboid relid MAXPGPATH)"
    and "wd_files v path = wd_files w' path"
    and "expected = tids @ replicate (nat capacity - length tids) ItemPointerInvalid"
  shows "fst (VamanaLoadTidMap L DataDir start dboid relid capacity v) \<in> {Killed, Return None, Return (Some expected)} \<and>
    (5 \<le> length (wd_script v) \<and> list_all (\<lambda>a. a = Done) (wd_script v) \<longrightarrow>
       fst (VamanaLoadTidMap L DataDir start dboid relid capacity v) = Return (Some expected)) \<and>
    (\<forall>dboid2 relid2. (dboid2, relid2) \<noteq> (dboid, relid) \<longrightarrow>
       wd_files (snd (VamanaDeleteSaveDir DataDir dboid2 relid2 v)) path = wd_files v path)"
proof -
  let ?dir = "VamanaGetIndexSavePath DataDir dboid relid MAXPGPATH"
  note paths = tidmap_paths_whole [OF save_path_whole(2) [OF assms(2)], of dboid relid]
  have "saved_or_not (wd_files w) (VamanaGetTidMapTmpPath ?dir MAXPGPATH) path
      (map_file L mode (wd_now w) tids (int (length tids))) (Return ()) w'"
    using holds_apply [OF holds_save [OF paths(3)] _ assms(3)] unfolding assms(6) by blast
  then have there: "wd_files v (tidmap_path ?dir) = Some (map_file L mode (wd_now w) tids (int (length tids)))"
    using assms(6,7) by (simp add: saved_or_not_def)
  note load = host_memory.load_saved [OF assms(1) paths(3) there assms(4,5)]
  have "below ?dir path" by (simp add: assms(6) paths(1) below_def)
  then have other: "\<not> below (VamanaGetIndexSavePath DataDir dboid2 relid2 MAXPGPATH) path"
    if "(dboid2, relid2) \<noteq> (dboid, relid)" for dboid2 relid2
    using save_dirs_disjoint [OF assms(2)] that by blast
  have "wd_files (snd (VamanaDeleteSaveDir DataDir dboid2 relid2 v)) path = wd_files v path"
    if "(dboid2, relid2) \<noteq> (dboid, relid)" for dboid2 relid2
    using other [OF that]
    by (auto simp: VamanaDeleteSaveDir_def io_bind_def io_return_def sys_stat_dir_def sys_rmtree_def syscall_def Let_def
        split: list.splits response.splits)
  moreover have "calm 5 v \<longleftrightarrow> 5 \<le> length (wd_script v) \<and> list_all (\<lambda>a. a = Done) (wd_script v)"
    by (simp add: calm_def)
  ultimately show ?thesis using load unfolding assms(8) by blast
qed

definition demo_tids :: "ItemPointerData list" where
  "demo_tids = [\<lparr>ip_blkid_hi = 0, ip_blkid_lo = 3, ip_posid = 1\<rparr>, \<lparr>ip_blkid_hi = 0, ip_blkid_lo = 700, ip_posid = 12\<rparr>]"

text \<open>The second write takes seven bytes and is then interrupted once.\<close>

definition demo_world :: world where
  "demo_world = \<lparr>wd_script = [Done, Done, Done, Done, Bytes 7, Fails EINTR, Done, Done, Done],
     wd_files = (\<lambda>_. None), wd_dirs = (\<lambda>_. False), wd_now = 100\<rparr>"

definition demo_save :: "unit io_result \<times> world" where
  "demo_save = VamanaSaveTidMapAtomically le_layout ''/pg'' 384 5 16400 demo_tids 2 demo_world"

lemma demo_paths:
  "VamanaGetIndexSavePath ''/pg'' 5 16400 MAXPGPATH = ''/pg/vamana_indexes/5/16400''"
  "tidmap_path ''/pg/vamana_indexes/5/16400'' = ''/pg/vamana_indexes/5/16400/tidmap.bin''"
  "VamanaGetTidMapTmpPath ''/pg/vamana_indexes/5/16400'' MAXPGPATH = ''/pg/vamana_indexes/5/16400/tidmap.bin.tmp''"
  by (simp_all add: save_path_whole DATADIR_MAX_def decimal.simps digit_char_def tidmap_paths_whole)

lemma demo_save_returns: "fst demo_save = Return ()"
  unfolding demo_save_def VamanaSaveTidMapAtomically_def Let_def demo_paths
  by (simp add: demo_world_def demo_tids_def io_bind_def syscall_def sys_unlink_def sys_create_excl_def sys_fchmod_def
      sys_close_def sys_durable_rename_def write_both_def VamanaWriteFully_def accepted_def append_file_def
      put_file_def io_return_def header_bytes_def le_layout_def le32_def le16_def)

theorem tidmap_save_atomic_witness:
  "wd_files (snd demo_save) ''/pg/vamana_indexes/5/16400/tidmap.bin'' = Some (map_file le_layout 384 100 demo_tids 2)"
proof -
  have run: "VamanaSaveTidMapAtomically le_layout ''/pg'' 384 5 16400 demo_tids 2 demo_world = (Return (), snd demo_save)"
    using demo_save_returns by (simp add: demo_save_def prod_eq_iff)
  show ?thesis using tidmap_save_atomic [OF run _ refl refl] by (simp add: DATADIR_MAX_def demo_world_def demo_paths)
qed

theorem tidmap_roundtrip_witness:
  "fst (VamanaLoadTidMap le_layout ''/pg'' 50 5 16400 3 ((snd demo_save)\<lparr>wd_script := [Done, Done, Done, Done, Done]\<rparr>)) =
     Return (Some (demo_tids @ [ItemPointerInvalid]))"
proof -
  have run: "VamanaSaveTidMapAtomically le_layout ''/pg'' 384 5 16400 demo_tids (int (length demo_tids)) demo_world
      = (Return (), snd demo_save)"
    using demo_save_returns by (simp add: demo_save_def prod_eq_iff demo_tids_def)
  let ?v = "(snd demo_save)\<lparr>wd_script := [Done, Done, Done, Done, Done]\<rparr>"
  have same: "wd_files ?v p = wd_files (snd demo_save) p" for p by simp
  note t = tidmap_roundtrip [OF little_endian.host_memory_axioms _ run _ _ refl same refl, of 3 50]
  have "nat 3 - length demo_tids = 1" "int (length demo_tids) \<le> 3" by (simp_all add: demo_tids_def)
  with t show ?thesis by (simp add: DATADIR_MAX_def)
qed

end
