(* ===== verification/Index_Save.thy ===== *)
theory Index_Save
  imports Tid_Map
begin

text \<open>
  Saving an index and loading it again: \<open>VamanaSaveIndexToDisk\<close> and the metapage updates of
  \<open>vamanaio.c\<close>, the metapage readers of \<open>vamanautils.c\<close>, and \<open>LoadIndexFromPages\<close> of
  \<open>vamanascan.c\<close>.  What the SVS library writes and reads is a parameter.
\<close>

section \<open>Metapage and cache entry\<close>

definition VAMANA_MAGIC_NUMBER :: u32 where "VAMANA_MAGIC_NUMBER = 0xA954A955"
definition VAMANA_HEAD_BLKNO :: u32 where "VAMANA_HEAD_BLKNO = 1"
definition VAMANA_MAX_TID_MAPPING_CAPACITY :: u32 where "VAMANA_MAX_TID_MAPPING_CAPACITY = 0x7FFFFFFF"

record VamanaMetaPageData =
  mp_magicNumber :: u32
  mp_dimensions :: u32
  mp_graph_degree :: "16 word"
  mp_alpha :: int
  mp_compression_type :: "8 word"
  mp_compression_primary :: int
  mp_compression_secondary :: int
  mp_leanvec_dims :: int
  mp_build_window_size :: int
  mp_use_search_history :: bool
  mp_indexDataBlkno :: u32
  mp_indexDataSize :: u64
  mp_numVectors :: u32
  mp_hasSavedIndex :: bool
  mp_nextExternalId :: u64
  mp_numDeleted :: u32
  mp_tidMappingCapacity :: u32

text \<open>The fields of the worker's cache entry that saving, loading and checkpointing use.\<close>

record VamanaIndexCache =
  ic_svsIndex :: "nat option"
  ic_indexRelid :: oid
  ic_isValid :: bool
  ic_tidMapping :: "ItemPointerData list option"
  ic_numVectors :: int
  ic_needsSave :: bool
  ic_tidMappingCapacity :: int
  ic_nextExternalId :: u64
  ic_numDeleted :: int
  ic_residentBytes :: u64
  ic_replicationSlot :: "string option"
  ic_nextCatchUpAttempt :: timestamp
  ic_catchUpBackoffMs :: int
  ic_opsSinceCheckpoint :: int
  ic_lastWriteTime :: timestamp
  ic_lastCheckpointTime :: timestamp
  ic_checkpointInProgress :: bool

text \<open>What the calls work on: the files, the metapage, the entry if there is one, and the caller's compaction flag.\<close>

record save_state =
  sv_world :: world
  sv_meta :: VamanaMetaPageData
  sv_cache :: "VamanaIndexCache option"
  sv_compacted :: bool

type_synonym 'a sio = "(save_state, 'a) action"

definition on_world :: "'a io \<Rightarrow> 'a sio" where
  "on_world m st = (let (r, w) = m (sv_world st) in (r, st\<lparr>sv_world := w\<rparr>))"

text \<open>One WAL-logged change of the metapage: it happens as a whole or raises.\<close>

definition xlog_meta :: "(VamanaMetaPageData \<Rightarrow> VamanaMetaPageData) \<Rightarrow> unit sio" where
  "xlog_meta change st =
     (case wd_script (sv_world st) of
        [] \<Rightarrow> (Killed, st)
      | r # rs \<Rightarrow>
          let st = st\<lparr>sv_world := (sv_world st)\<lparr>wd_script := rs\<rparr>\<rparr>
          in (case r of
                Fails e \<Rightarrow> (Raise Xlog_error, st)
              | _ \<Rightarrow> (Return (), st\<lparr>sv_meta := change (sv_meta st)\<rparr>)))"

section \<open>Saving\<close>

definition VamanaSetHasSavedIndex :: "bool \<Rightarrow> unit sio" where
  "VamanaSetHasSavedIndex hasSavedIndex = xlog_meta (\<lambda>metap. metap\<lparr>mp_hasSavedIndex := hasSavedIndex\<rparr>)"

definition mark_saved :: "VamanaIndexCache \<Rightarrow> VamanaMetaPageData \<Rightarrow> VamanaMetaPageData" where
  "mark_saved meta metap = metap\<lparr>
     mp_hasSavedIndex := True,
     mp_indexDataBlkno := VAMANA_HEAD_BLKNO,
     mp_indexDataSize := 0,
     mp_numVectors := word_of_int (ic_numVectors meta),
     mp_nextExternalId := ic_nextExternalId meta,
     mp_numDeleted := word_of_int (ic_numDeleted meta),
     mp_tidMappingCapacity := word_of_int (ic_tidMappingCapacity meta)\<rparr>"

definition VamanaMarkIndexSaved :: "VamanaIndexCache \<Rightarrow> unit sio" where
  "VamanaMarkIndexSaved meta = xlog_meta (mark_saved meta)"

definition VamanaWriteMetaPageDynamic :: "u64 \<Rightarrow> u32 \<Rightarrow> u32 \<Rightarrow> u32 \<Rightarrow> unit sio" where
  "VamanaWriteMetaPageDynamic nextExternalId numVectors numDeleted tidMappingCapacity = xlog_meta (\<lambda>metap. metap\<lparr>
     mp_nextExternalId := nextExternalId,
     mp_numVectors := numVectors,
     mp_numDeleted := numDeleted,
     mp_tidMappingCapacity := tidMappingCapacity\<rparr>)"

record save_env =
  se_layout :: host_layout
  se_DataDir :: string
  se_mode :: int
  se_MyDatabaseId :: oid
  se_svs_save :: "string \<Rightarrow> unit io"

text \<open>The part under \<open>PG_TRY\<close>.\<close>

definition save_files :: "save_env \<Rightarrow> oid \<Rightarrow> VamanaIndexCache \<Rightarrow> unit sio" where
  "save_files E relid meta =
     (let savepath = VamanaGetIndexSavePath (se_DataDir E) (se_MyDatabaseId E) relid MAXPGPATH
      in io_bind (on_world (VamanaEnsureSaveDir (se_DataDir E) (se_MyDatabaseId E) relid)) (\<lambda>_.
         io_bind (on_world (se_svs_save E savepath)) (\<lambda>_.
         io_bind (\<lambda>st. (Return (), st\<lparr>sv_compacted := True\<rparr>)) (\<lambda>_.
         case ic_tidMapping meta of
           Some tidMapping \<Rightarrow>
             if ic_tidMappingCapacity meta > 0
             then on_world (VamanaSaveTidMapAtomically (se_layout E) (se_DataDir E) (se_mode E)
                    (se_MyDatabaseId E) relid tidMapping (ic_tidMappingCapacity meta))
             else io_return ()
         | None \<Rightarrow> io_return ()))))"

definition VamanaSaveIndexToDisk :: "save_env \<Rightarrow> bool \<Rightarrow> oid \<Rightarrow> VamanaIndexCache \<Rightarrow> unit sio" where
  "VamanaSaveIndexToDisk E isTemp relid meta st =
     (if isTemp then (Return (), st)
      else case save_files E relid meta st of
        (Killed, st) \<Rightarrow> (Killed, st)
      | (Raise err, st) \<Rightarrow>
          (case on_world (VamanaDeleteSaveDir (se_DataDir E) (se_MyDatabaseId E) relid) st of
             (Killed, st) \<Rightarrow> (Killed, st)
           | (_, st) \<Rightarrow> (Raise err, st))
      | (Return _, st) \<Rightarrow>
          io_bind (VamanaMarkIndexSaved meta) (\<lambda>_ st.
            (Return (), st\<lparr>sv_cache := map_option (\<lambda>entry. entry\<lparr>ic_needsSave := False\<rparr>) (sv_cache st)\<rparr>)) st)"

section \<open>Loading\<close>

definition VamanaReadMetaPage :: "VamanaMetaPageData \<Rightarrow> io_error + VamanaMetaPageData" where
  "VamanaReadMetaPage metap =
     (if mp_magicNumber metap \<noteq> VAMANA_MAGIC_NUMBER then Inl Data_corrupted else Inr metap)"

definition VamanaValidateMetaCounts ::
    "u32 \<Rightarrow> u32 \<Rightarrow> u32 \<Rightarrow> u64 \<Rightarrow> bool \<Rightarrow> (io_error + u64) \<Rightarrow> io_error option" where
  "VamanaValidateMetaCounts tidMappingCapacity numVectors numDeleted nextExternalId checkResidencyBudget residencyBudget =
     (if tidMappingCapacity > VAMANA_MAX_TID_MAPPING_CAPACITY \<or> numVectors > VAMANA_MAX_TID_MAPPING_CAPACITY \<or>
         numDeleted > VAMANA_MAX_TID_MAPPING_CAPACITY
      then Some Data_corrupted
      else if numVectors > tidMappingCapacity \<or> numDeleted > tidMappingCapacity \<or>
              (tidMappingCapacity > 0 \<and> nextExternalId > ucast tidMappingCapacity)
      then Some Data_corrupted
      else if checkResidencyBudget
      then (case residencyBudget of
              Inl err \<Rightarrow> Some err
            | Inr budget \<Rightarrow> if ucast tidMappingCapacity * 6 > budget then Some Data_corrupted else None)
      else None)"

text \<open>
  \<open>ld_svs_load\<close> is what the library makes of the directory: an error, no handle, or a handle.
  \<open>ld_budget\<close> is the answer of \<open>SvsMemoryResidencyBudget\<close>.
\<close>

record load_env =
  ld_layout :: host_layout
  ld_DataDir :: string
  ld_MyDatabaseId :: oid
  ld_PgStartTime :: int
  ld_persists_index :: bool
  ld_budget :: "io_error + u64"
  ld_svs_load :: "string \<Rightarrow> io_error + nat option"

text \<open>What the load hands to \<open>VamanaCacheIndex\<close>.\<close>

record loaded_index =
  li_svsIndex :: nat
  li_tidMapping :: "ItemPointerData list option"
  li_numVectors :: int
  li_tidMappingCapacity :: int
  li_nextExternalId :: u64
  li_numDeleted :: int

definition give_up_load :: "load_env \<Rightarrow> oid \<Rightarrow> loaded_index option sio" where
  "give_up_load E relid =
     io_bind (on_world (VamanaDeleteSaveDir (ld_DataDir E) (ld_MyDatabaseId E) relid)) (\<lambda>_. io_return None)"

definition load_saved_files :: "load_env \<Rightarrow> oid \<Rightarrow> VamanaMetaPageData \<Rightarrow> loaded_index option sio" where
  "load_saved_files E relid meta =
     (let savepath = VamanaGetIndexSavePath (ld_DataDir E) (ld_MyDatabaseId E) relid MAXPGPATH;
          capacity = sint (mp_tidMappingCapacity meta);
          loaded = (\<lambda>svsIndex tids.
            \<lparr>li_svsIndex = svsIndex, li_tidMapping = tids, li_numVectors = sint (mp_numVectors meta),
             li_tidMappingCapacity = capacity, li_nextExternalId = mp_nextExternalId meta,
             li_numDeleted = sint (mp_numDeleted meta)\<rparr>)
      in case ld_svs_load E savepath of
           Inl _ \<Rightarrow> give_up_load E relid
         | Inr None \<Rightarrow> io_return None
         | Inr (Some svsIndex) \<Rightarrow>
             if mp_tidMappingCapacity meta > 0 then
               io_bind (on_world (VamanaLoadTidMap (ld_layout E) (ld_DataDir E) (ld_PgStartTime E)
                   (ld_MyDatabaseId E) relid capacity)) (\<lambda>tids.
                 case tids of
                   None \<Rightarrow> give_up_load E relid
                 | Some tidMapping \<Rightarrow> io_return (Some (loaded svsIndex (Some tidMapping))))
             else io_return (Some (loaded svsIndex None)))"

definition LoadIndexFromPages :: "load_env \<Rightarrow> oid \<Rightarrow> loaded_index option sio" where
  "LoadIndexFromPages E relid st =
     (case VamanaReadMetaPage (sv_meta st) of
        Inl err \<Rightarrow> (Raise err, st)
      | Inr meta \<Rightarrow>
          (case VamanaValidateMetaCounts (mp_tidMappingCapacity meta) (mp_numVectors meta) (mp_numDeleted meta)
                  (mp_nextExternalId meta) True (ld_budget E) of
             Some err \<Rightarrow> (Raise err, st)
           | None \<Rightarrow>
               if \<not> mp_hasSavedIndex meta then (Return None, st)
               else
                 io_bind (on_world (sys_stat_dir (VamanaGetIndexSavePath (ld_DataDir E) (ld_MyDatabaseId E) relid MAXPGPATH)))
                   (\<lambda>there.
                     if \<not> there then
                       (if ld_persists_index E
                        then io_bind (VamanaSetHasSavedIndex False) (\<lambda>_. io_return None)
                        else io_return None)
                     else load_saved_files E relid meta) st))"

section \<open>How a save ends\<close>

lemma on_world_Return:
  "on_world m st = (Return y, st') \<longleftrightarrow> (\<exists>w. m (sv_world st) = (Return y, w) \<and> st' = st\<lparr>sv_world := w\<rparr>)"
  by (auto simp: on_world_def split: prod.splits)

lemma on_world_frame:
  "sv_meta (snd (on_world m st)) = sv_meta st" "sv_cache (snd (on_world m st)) = sv_cache st"
  by (simp_all add: on_world_def case_prod_beta)

lemma save_files_frame: "sv_meta (snd (save_files E relid c st)) = sv_meta st"
  unfolding save_files_def Let_def
  by (intro io_bind_frame on_world_frame) (auto simp: on_world_frame io_return_def split: option.splits)

lemma save_files_Return:
  assumes "save_files E relid c st = (Return (), st')" "ic_tidMapping c = Some tids" "0 < ic_tidMappingCapacity c"
  shows "sv_compacted st' \<and> (\<exists>w0. VamanaSaveTidMapAtomically (se_layout E) (se_DataDir E) (se_mode E)
    (se_MyDatabaseId E) relid tids (ic_tidMappingCapacity c) w0 = (Return (), sv_world st'))"
  using assms by (auto simp: save_files_def Let_def io_bind_Return on_world_Return)

lemma xlog_meta_Return:
  assumes "xlog_meta change st = (Return (), st')"
  shows "sv_meta st' = change (sv_meta st) \<and> wd_files (sv_world st') = wd_files (sv_world st) \<and>
    wd_dirs (sv_world st') = wd_dirs (sv_world st) \<and> sv_compacted st' = sv_compacted st"
  using assms by (auto simp: xlog_meta_def Let_def split: list.splits response.splits)

lemma SaveIndexToDisk_Return:
  assumes "VamanaSaveIndexToDisk E False relid c st = (Return (), st')"
    and "ic_tidMapping c = Some tids" and "0 < ic_tidMappingCapacity c"
  obtains w0 w1 where "VamanaSaveTidMapAtomically (se_layout E) (se_DataDir E) (se_mode E) (se_MyDatabaseId E) relid
      tids (ic_tidMappingCapacity c) w0 = (Return (), w1)" "wd_files (sv_world st') = wd_files w1"
    "sv_compacted st'" "sv_meta st' = mark_saved c (sv_meta st)"
proof -
  obtain r st1 where sf: "save_files E relid c st = (r, st1)" by fastforce
  have "r = Return ()"
  proof (cases r)
    case (Raise e)
    with assms(1) sf show ?thesis
      by (cases "on_world (VamanaDeleteSaveDir (se_DataDir E) (se_MyDatabaseId E) relid) st1"; cases "fst (on_world (VamanaDeleteSaveDir (se_DataDir E) (se_MyDatabaseId E) relid) st1)")
        (simp_all add: VamanaSaveIndexToDisk_def)
  qed (use assms(1) sf in \<open>simp_all add: VamanaSaveIndexToDisk_def\<close>)
  note sf = sf [unfolded this]
  then have "io_bind (VamanaMarkIndexSaved c) (\<lambda>_ st. (Return (), st\<lparr>sv_cache := map_option (\<lambda>entry. entry\<lparr>ic_needsSave := False\<rparr>)
      (sv_cache st)\<rparr>)) st1 = (Return (), st')"
    using assms(1) by (simp add: VamanaSaveIndexToDisk_def)
  then obtain st2 where m: "xlog_meta (mark_saved c) st1 = (Return (), st2)"
      "st' = st2\<lparr>sv_cache := map_option (\<lambda>entry. entry\<lparr>ic_needsSave := False\<rparr>) (sv_cache st2)\<rparr>"
    unfolding io_bind_Return VamanaMarkIndexSaved_def by auto
  note x = xlog_meta_Return [OF m(1)]
  have meta: "sv_meta st1 = sv_meta st" using save_files_frame [of E relid c st] sf by simp
  obtain w0 where "VamanaSaveTidMapAtomically (se_layout E) (se_DataDir E) (se_mode E) (se_MyDatabaseId E) relid
      tids (ic_tidMappingCapacity c) w0 = (Return (), sv_world st1)" "sv_compacted st1"
    using save_files_Return [OF sf assms(2,3)] by blast
  then show thesis using that [of w0 "sv_world st1"] x m(2) meta by simp
qed

lemma small_uint: "0 \<le> x \<Longrightarrow> x < 2 ^ 31 \<Longrightarrow> uint (word_of_int x :: u32) = x"
  by (simp add: uint_word_of_int)

lemma small_sint: "0 \<le> x \<Longrightarrow> x < 2 ^ 31 \<Longrightarrow> sint (word_of_int x :: u32) = x"
  by (simp add: signed_of_int signed_take_bit_int_eq_self)

lemma counts_valid:
  assumes "0 < cap" and "cap < 2 ^ 31" and "0 \<le> nv" and "nv \<le> cap" and "0 \<le> nd" and "nd \<le> cap"
    and "uint nx \<le> cap" and "6 * cap \<le> uint budget"
  shows "VamanaValidateMetaCounts (word_of_int cap) (word_of_int nv) (word_of_int nd) nx True (Inr budget) = None"
proof -
  have u: "uint (word_of_int cap :: u32) = cap" "uint (word_of_int nv :: u32) = nv" "uint (word_of_int nd :: u32) = nd"
    using assms by (simp_all add: small_uint)
  have big: "uint (ucast (word_of_int cap :: u32) * 6 :: u64) = 6 * cap"
    using assms u(1) by (simp add: uint_word_ariths unsigned_ucast_eq take_bit_eq_mod)
  have ext: "\<not> nx > ucast (word_of_int cap :: u32)"
    using assms u(1) by (simp add: word_less_def unsigned_ucast_eq take_bit_eq_mod)
  show ?thesis
    using assms u big ext by (simp add: VamanaValidateMetaCounts_def word_less_def VAMANA_MAX_TID_MAPPING_CAPACITY_def)
qed

text \<open>Only a save that went through touches the cache entry.\<close>

lemma save_files_frame_cache: "sv_cache (snd (save_files E relid c st)) = sv_cache st"
  unfolding save_files_def Let_def
  by (intro io_bind_frame on_world_frame) (auto simp: on_world_frame io_return_def split: option.splits)

lemma SaveIndexToDisk_cache:
  assumes "VamanaSaveIndexToDisk E isTemp relid c st = (r, st')" and "sv_cache st = Some entry"
  shows "sv_cache st' = Some entry \<or> sv_cache st' = Some (entry\<lparr>ic_needsSave := False\<rparr>)"
proof (cases isTemp)
  case False
  obtain x st1 where sf: "save_files E relid c st = (x, st1)" by fastforce
  then have c1: "sv_cache st1 = Some entry"
    using save_files_frame_cache [of E relid c st] assms(2) by simp
  show ?thesis
  proof (cases x)
    case (Return y)
    then show ?thesis using assms(1) sf c1 False
      by (auto simp: VamanaSaveIndexToDisk_def VamanaMarkIndexSaved_def xlog_meta_def Let_def io_bind_def
          split: list.splits response.splits)
  next
    case (Raise e)
    then show ?thesis using assms(1) sf c1 False
      by (auto simp: VamanaSaveIndexToDisk_def on_world_def split: prod.splits io_result.splits)
  next
    case Killed
    then show ?thesis using assms(1) sf c1 False by (auto simp: VamanaSaveIndexToDisk_def)
  qed
qed (use assms in \<open>auto simp: VamanaSaveIndexToDisk_def\<close>)

section \<open>Properties\<close>

text \<open>
  C11: a saved index loads back as it was.  When saving an index with a TID map and consistent
  counters returns, then in any later state with that metapage, that map file and the directory in
  place, a load that meets no failing call returns the library's handle with exactly the TID map and
  the counters that were saved.
\<close>

theorem saved_index_reloads:
  assumes "host_memory (se_layout E)" and "length (se_DataDir E) \<le> DATADIR_MAX"
    and "VamanaSaveIndexToDisk E False relid c st = (Return (), st')"
    and "ic_tidMapping c = Some tids" and "ic_tidMappingCapacity c = int (length tids)"
    and "tids \<noteq> []" and "int (length tids) < 2 ^ 31"
    and "0 \<le> ic_numVectors c" and "ic_numVectors c \<le> int (length tids)"
    and "0 \<le> ic_numDeleted c" and "ic_numDeleted c \<le> int (length tids)"
    and "uint (ic_nextExternalId c) \<le> int (length tids)"
    and "mp_magicNumber (sv_meta st) = VAMANA_MAGIC_NUMBER"
    and "dir = VamanaGetIndexSavePath (se_DataDir E) (se_MyDatabaseId E) relid MAXPGPATH"
    and "sv_meta t = sv_meta st'" and "wd_dirs (sv_world t) dir"
    and "wd_files (sv_world t) (tidmap_path dir) = wd_files (sv_world st') (tidmap_path dir)"
    and "wd_script (sv_world t) = Done # script" and "5 \<le> length script" and "list_all (\<lambda>a. a = Done) script"
    and "F = \<lparr>ld_layout = se_layout E, ld_DataDir = se_DataDir E, ld_MyDatabaseId = se_MyDatabaseId E,
      ld_PgStartTime = start, ld_persists_index = p, ld_budget = Inr budget, ld_svs_load = (\<lambda>_. Inr (Some handle))\<rparr>"
    and "6 * int (length tids) \<le> uint budget"
  shows "sv_compacted st' \<and> fst (LoadIndexFromPages F relid t) =
    Return (Some \<lparr>li_svsIndex = handle, li_tidMapping = Some tids, li_numVectors = ic_numVectors c,
      li_tidMappingCapacity = ic_tidMappingCapacity c, li_nextExternalId = ic_nextExternalId c,
      li_numDeleted = ic_numDeleted c\<rparr>)"
proof -
  let ?cap = "int (length tids)"
  have cap: "0 < ?cap" using assms(6) by simp
  obtain w0 w1 where w: "VamanaSaveTidMapAtomically (se_layout E) (se_DataDir E) (se_mode E) (se_MyDatabaseId E) relid
      tids ?cap w0 = (Return (), w1)" "wd_files (sv_world st') = wd_files w1" "sv_compacted st'"
      "sv_meta st' = mark_saved c (sv_meta st)"
    using SaveIndexToDisk_Return [OF assms(3,4)] cap assms(5) by auto
  let ?v = "(sv_world t)\<lparr>wd_script := script\<rparr>"
  note paths = tidmap_paths_whole [OF save_path_whole(2) [OF assms(2)], of "se_MyDatabaseId E" relid]
  have "saved_or_not (wd_files w0) (VamanaGetTidMapTmpPath dir MAXPGPATH) (tidmap_path dir)
      (map_file (se_layout E) (se_mode E) (wd_now w0) tids ?cap) (Return ()) w1"
    using holds_apply [OF holds_save [OF paths(3)] _ w(1)] unfolding assms(14) by blast
  then have there: "wd_files ?v (tidmap_path dir) = Some (map_file (se_layout E) (se_mode E) (wd_now w0) tids ?cap)"
    using assms(17) w(2) by (simp add: saved_or_not_def)
  have calm: "calm 5 ?v" using assms(19,20) by (simp add: calm_def)
  have map: "fst (VamanaLoadTidMap (se_layout E) (se_DataDir E) start (se_MyDatabaseId E) relid ?cap ?v) = Return (Some tids)"
    using host_memory.load_saved(2) [OF assms(1) paths(3) there [unfolded assms(14)] order_refl assms(7) calm] by simp
  then obtain v' where v': "VamanaLoadTidMap (se_layout E) (se_DataDir E) start (se_MyDatabaseId E) relid ?cap ?v = (Return (Some tids), v')"
    by (metis prod.collapse)
  have meta: "sv_meta t = mark_saved c (sv_meta st)" using assms(15) w(4) by simp
  have valid: "VamanaValidateMetaCounts (word_of_int ?cap) (word_of_int (ic_numVectors c)) (word_of_int (ic_numDeleted c))
      (ic_nextExternalId c) True (Inr budget) = None"
    by (rule counts_valid) (use assms cap in auto)
  have sints: "sint (word_of_int ?cap :: u32) = ?cap" "sint (word_of_int (ic_numVectors c) :: u32) = ic_numVectors c"
    "sint (word_of_int (ic_numDeleted c) :: u32) = ic_numDeleted c"
    by (rule small_sint; use assms in linarith)+
  have pos: "0 < (word_of_int ?cap :: u32)" unfolding word_less_def using small_uint [of ?cap] cap assms(7) by simp
  have stat: "sys_stat_dir dir (sv_world t) = (Return True, ?v)"
    using assms(16,18) by (simp add: sys_stat_dir_def syscall_def)
  have fields: "mp_tidMappingCapacity (sv_meta t) = word_of_int ?cap" "mp_numVectors (sv_meta t) = word_of_int (ic_numVectors c)"
    "mp_numDeleted (sv_meta t) = word_of_int (ic_numDeleted c)" "mp_nextExternalId (sv_meta t) = ic_nextExternalId c"
    "mp_hasSavedIndex (sv_meta t)" "VamanaReadMetaPage (sv_meta t) = Inr (sv_meta t)"
    using assms(5,13) by (simp_all add: meta mark_saved_def VamanaReadMetaPage_def)
  have "load_saved_files F relid (sv_meta t) (t\<lparr>sv_world := ?v\<rparr>) =
      (Return (Some \<lparr>li_svsIndex = handle, li_tidMapping = Some tids, li_numVectors = ic_numVectors c,
        li_tidMappingCapacity = ic_tidMappingCapacity c, li_nextExternalId = ic_nextExternalId c,
        li_numDeleted = ic_numDeleted c\<rparr>), t\<lparr>sv_world := v'\<rparr>)"
    unfolding load_saved_files_def Let_def fields sints
    using pos v' assms(5) by (simp add: assms(21) io_bind_def on_world_def io_return_def del: of_int_of_nat_eq)
  then show ?thesis using stat w(3) fields(5,6) valid
    unfolding LoadIndexFromPages_def
    by (simp add: fields assms(14,21) io_bind_def on_world_def del: of_int_of_nat_eq)
qed

text \<open>
  C33: a failed save falls back to a rebuild.  When writing the files raises and the clean-up finds
  the directory and removes it, the error is passed on, every file below the directory is gone, and the
  metapage is untouched, so a flag set by an earlier save stays set.  The next load then
  returns no index, so that it is rebuilt from the table, and clears the stale flag where the
  node may write.
\<close>

theorem failed_save_falls_back:
  assumes "save_files E relid c st = (Raise err, st1)"
    and "wd_script (sv_world st1) = Done # Done # script" and "wd_dirs (sv_world st1) dir"
    and "dir = VamanaGetIndexSavePath (se_DataDir E) (se_MyDatabaseId E) relid MAXPGPATH"
    and "mp_hasSavedIndex (sv_meta st)" and "mp_magicNumber (sv_meta st) = VAMANA_MAGIC_NUMBER"
    and "VamanaValidateMetaCounts (mp_tidMappingCapacity (sv_meta st)) (mp_numVectors (sv_meta st))
      (mp_numDeleted (sv_meta st)) (mp_nextExternalId (sv_meta st)) True (ld_budget F) = None"
    and "ld_DataDir F = se_DataDir E" and "ld_MyDatabaseId F = se_MyDatabaseId E"
  shows "\<exists>st'. VamanaSaveIndexToDisk E False relid c st = (Raise err, st') \<and>
    (\<forall>p. below dir p \<longrightarrow> wd_files (sv_world st') p = None) \<and> mp_hasSavedIndex (sv_meta st') \<and>
    (\<forall>t. sv_meta t = sv_meta st' \<and> wd_dirs (sv_world t) = wd_dirs (sv_world st') \<and> wd_script (sv_world t) = [Done, Done] \<longrightarrow>
       (\<exists>t'. LoadIndexFromPages F relid t = (Return None, t') \<and>
         mp_hasSavedIndex (sv_meta t') = (\<not> ld_persists_index F)))"
proof -
  let ?w = "(sv_world st1)\<lparr>wd_script := script, wd_files := \<lambda>p. if below dir p then None else wd_files (sv_world st1) p,
    wd_dirs := \<lambda>p. \<not> below dir p \<and> wd_dirs (sv_world st1) p\<rparr>"
  let ?st' = "st1\<lparr>sv_world := ?w\<rparr>"
  have del: "VamanaDeleteSaveDir (se_DataDir E) (se_MyDatabaseId E) relid (sv_world st1) = (Return (), ?w)"
    using assms(2,3) unfolding VamanaDeleteSaveDir_def Let_def assms(4) [symmetric]
    by (simp add: io_bind_def sys_stat_dir_def sys_rmtree_def syscall_def io_return_def cong: if_cong)
  have run: "VamanaSaveIndexToDisk E False relid c st = (Raise err, ?st')"
    by (simp add: VamanaSaveIndexToDisk_def assms(1) on_world_def del)
  have meta: "sv_meta ?st' = sv_meta st" using save_files_frame [of E relid c st] assms(1) by simp
  have "\<exists>t'. LoadIndexFromPages F relid t = (Return None, t') \<and> mp_hasSavedIndex (sv_meta t') = (\<not> ld_persists_index F)"
    if "sv_meta t = sv_meta ?st' \<and> wd_dirs (sv_world t) = wd_dirs (sv_world ?st') \<and> wd_script (sv_world t) = [Done, Done]" for t
  proof -
    let ?t = "t\<lparr>sv_world := (sv_world t)\<lparr>wd_script := [Done]\<rparr>\<rparr>"
    have m: "sv_meta t = sv_meta st" "mp_hasSavedIndex (sv_meta t)" using that meta assms(5) by auto
    have "\<not> wd_dirs (sv_world t) dir" using that by (simp add: below_def)
    then have stat: "on_world (sys_stat_dir dir) t = (Return False, ?t)"
      using that by (simp add: on_world_def sys_stat_dir_def syscall_def)
    have "LoadIndexFromPages F relid t = (if ld_persists_index F
        then io_bind (VamanaSetHasSavedIndex False) (\<lambda>_. io_return None) ?t else (Return None, ?t))"
      unfolding LoadIndexFromPages_def assms(8,9) assms(4) [symmetric]
      using m assms(6,7) stat by (simp add: VamanaReadMetaPage_def io_bind_def io_return_def)
    moreover have "io_bind (VamanaSetHasSavedIndex False) (\<lambda>_. io_return (None :: loaded_index option)) ?t =
        (Return None, ?t\<lparr>sv_world := (sv_world t)\<lparr>wd_script := []\<rparr>, sv_meta := (sv_meta t)\<lparr>mp_hasSavedIndex := False\<rparr>\<rparr>)"
      by (simp add: io_bind_def VamanaSetHasSavedIndex_def xlog_meta_def io_return_def)
    ultimately show ?thesis using m(2) by (cases "ld_persists_index F") simp_all
  qed
  moreover have "\<forall>p. below dir p \<longrightarrow> wd_files (sv_world ?st') p = None" "mp_hasSavedIndex (sv_meta ?st')"
    using meta assms(5) by simp_all
  ultimately show ?thesis using run by blast
qed

text \<open>An example index with two rows on an otherwise empty disk.\<close>

definition demo_meta :: VamanaMetaPageData where
  "demo_meta = \<lparr>mp_magicNumber = VAMANA_MAGIC_NUMBER, mp_dimensions = 128, mp_graph_degree = 64, mp_alpha = 120,
     mp_compression_type = 0, mp_compression_primary = 0, mp_compression_secondary = 0, mp_leanvec_dims = 0,
     mp_build_window_size = 0, mp_use_search_history = True, mp_indexDataBlkno = 1, mp_indexDataSize = 0,
     mp_numVectors = 2, mp_hasSavedIndex = True, mp_nextExternalId = 2, mp_numDeleted = 0, mp_tidMappingCapacity = 2\<rparr>"

definition demo_entry :: VamanaIndexCache where
  "demo_entry = \<lparr>ic_svsIndex = Some 7, ic_indexRelid = 16400, ic_isValid = True, ic_tidMapping = Some demo_tids,
     ic_numVectors = 2, ic_needsSave = True, ic_tidMappingCapacity = 2, ic_nextExternalId = 2, ic_numDeleted = 0,
     ic_residentBytes = 0, ic_replicationSlot = None, ic_nextCatchUpAttempt = 0, ic_catchUpBackoffMs = 0, ic_opsSinceCheckpoint = 2, ic_lastWriteTime = 5, ic_lastCheckpointTime = 0,
     ic_checkpointInProgress = False\<rparr>"

definition demo_state_with :: "response list \<Rightarrow> save_state" where
  "demo_state_with script = \<lparr>sv_world = \<lparr>wd_script = script, wd_files = (\<lambda>_. None), wd_dirs = (\<lambda>_. False), wd_now = 100\<rparr>,
     sv_meta = demo_meta, sv_cache = Some demo_entry, sv_compacted = False\<rparr>"

definition demo_save_env :: "unit io \<Rightarrow> save_env" where
  "demo_save_env lib = \<lparr>se_layout = le_layout, se_DataDir = ''/pg'', se_mode = 384, se_MyDatabaseId = 5, se_svs_save = (\<lambda>_. lib)\<rparr>"

text \<open>Directories are made, whether or not they exist, when no call fails.\<close>

lemma make_directories_calm:
  "calm (length ds) w \<Longrightarrow> \<exists>w'. make_directories ds w = (Return (), w') \<and> wd_files w' = wd_files w \<and>
     wd_script w' = drop (length ds) (wd_script w) \<and> wd_now w' = wd_now w"
proof (induction ds arbitrary: w)
  case Nil
  then show ?case by (simp add: io_return_def)
next
  case (Cons d ds)
  then obtain rs where rs: "wd_script w = Done # rs" "calm (length ds) (w\<lparr>wd_script := rs\<rparr>)"
    using calm_step [of "length ds" w] by auto
  let ?w = "if wd_dirs w d then w\<lparr>wd_script := rs\<rparr> else w\<lparr>wd_script := rs, wd_dirs := (wd_dirs w)(d := True)\<rparr>"
  have "VamanaMakeDirectoryOrError d w = (Return (), ?w)"
    by (simp add: VamanaMakeDirectoryOrError_def sys_mkdir_def io_bind_def syscall_def rs(1) io_return_def)
  moreover have "calm (length ds) ?w" using rs(2) by (simp add: calm_def)
  ultimately show ?case using Cons.IH [of ?w] rs(1) by (auto simp: io_bind_def)
qed

definition save_script :: "response list" where
  "save_script = [Done, Done, Done, Done, Done, Done, Done, Done, Done, Done, Done, Done, Done, Done]"

lemma demo_dirs:
  "\<exists>w. VamanaEnsureSaveDir ''/pg'' 5 16400 (sv_world (demo_state_with save_script)) = (Return (), w) \<and>
     wd_files w = (\<lambda>_. None) \<and> wd_now w = 100 \<and> wd_script w = [Done, Done, Done, Done, Done, Done, Done, Done]"
proof -
  let ?w = "sv_world (demo_state_with save_script)"
  have "\<exists>ds. VamanaEnsureSaveDir ''/pg'' 5 16400 = make_directories ds \<and> length ds = 6"
    unfolding VamanaEnsureSaveDir_def Let_def
    by (rule exI, rule conjI, rule refl) (simp add: VamanaSvsPayloadSubdirs_def)
  then obtain ds where ds: "VamanaEnsureSaveDir ''/pg'' 5 16400 = make_directories ds" "length ds = 6" by blast
  have "calm (length ds) ?w" by (simp add: ds(2) calm_def demo_state_with_def save_script_def)
  from make_directories_calm [OF this] show ?thesis
    unfolding ds(1) by (auto simp: ds(2) demo_state_with_def save_script_def)
qed

lemma demo_save_runs_at:
  assumes "ic_tidMapping c = Some demo_tids" and "ic_tidMappingCapacity c = 2"
    and "sv_world st = sv_world (demo_state_with save_script)"
  shows "fst (VamanaSaveIndexToDisk (demo_save_env (io_return ())) False 16400 c st) = Return ()"
proof -
  obtain w where w: "VamanaEnsureSaveDir ''/pg'' 5 16400 (sv_world (demo_state_with save_script)) = (Return (), w)"
      "wd_files w = (\<lambda>_. None)" "wd_now w = 100" "wd_script w = [Done, Done, Done, Done, Done, Done, Done, Done]"
    using demo_dirs by blast
  have "fst (VamanaSaveTidMapAtomically le_layout ''/pg'' 384 5 16400 demo_tids 2 w) = Return () \<and>
      wd_script (snd (VamanaSaveTidMapAtomically le_layout ''/pg'' 384 5 16400 demo_tids 2 w)) = [Done]"
    unfolding VamanaSaveTidMapAtomically_def Let_def demo_paths
    by (simp add: w(2-4) demo_tids_def io_bind_def syscall_def sys_unlink_def sys_create_excl_def sys_fchmod_def
      sys_close_def sys_durable_rename_def write_both_def VamanaWriteFully_def accepted_def append_file_def
      put_file_def io_return_def header_bytes_def le_layout_def le32_def le16_def)
  then obtain w' where w': "VamanaSaveTidMapAtomically le_layout ''/pg'' 384 5 16400 demo_tids 2 w = (Return (), w')"
      "wd_script w' = [Done]" by (metis prod.collapse)
  show ?thesis
    by (simp add: VamanaSaveIndexToDisk_def save_files_def demo_save_env_def io_bind_def on_world_def w(1) Let_def
        io_return_def assms w' VamanaMarkIndexSaved_def xlog_meta_def)
qed

lemma demo_save_runs:
  "fst (VamanaSaveIndexToDisk (demo_save_env (io_return ())) False 16400 demo_entry (demo_state_with save_script)) = Return ()"
  by (rule demo_save_runs_at) (simp_all add: demo_entry_def)

theorem saved_index_reloads_witness:
  "\<exists>st' t F. VamanaSaveIndexToDisk (demo_save_env (io_return ())) False 16400 demo_entry (demo_state_with save_script) = (Return (), st') \<and>
     sv_meta t = sv_meta st' \<and> fst (LoadIndexFromPages F 16400 t) =
     Return (Some \<lparr>li_svsIndex = 9, li_tidMapping = Some demo_tids, li_numVectors = 2, li_tidMappingCapacity = 2,
       li_nextExternalId = 2, li_numDeleted = 0\<rparr>)"
proof -
  obtain st' where run: "VamanaSaveIndexToDisk (demo_save_env (io_return ())) False 16400 demo_entry (demo_state_with save_script)
      = (Return (), st')" using demo_save_runs by (metis prod.collapse)
  let ?E = "demo_save_env (io_return ())"
  let ?t = "st'\<lparr>sv_world := (sv_world st')\<lparr>wd_dirs := (\<lambda>_. True), wd_script := [Done, Done, Done, Done, Done, Done]\<rparr>\<rparr>"
  let ?F = "\<lparr>ld_layout = se_layout ?E, ld_DataDir = se_DataDir ?E, ld_MyDatabaseId = se_MyDatabaseId ?E,
      ld_PgStartTime = 0, ld_persists_index = True, ld_budget = Inr 1000, ld_svs_load = (\<lambda>_. Inr (Some 9))\<rparr>"
  have "fst (LoadIndexFromPages ?F 16400 ?t) =
    Return (Some \<lparr>li_svsIndex = 9, li_tidMapping = Some demo_tids, li_numVectors = ic_numVectors demo_entry,
      li_tidMappingCapacity = ic_tidMappingCapacity demo_entry, li_nextExternalId = ic_nextExternalId demo_entry,
      li_numDeleted = ic_numDeleted demo_entry\<rparr>)"
    by (rule saved_index_reloads [where script = "[Done, Done, Done, Done, Done]", OF _ _ run _ _ _ _ _ _ _ _ _ _ refl _ _ _ _ _ _ refl, THEN conjunct2])
      (use little_endian.host_memory_axioms in \<open>simp_all add: demo_save_env_def demo_entry_def demo_tids_def demo_state_with_def
        demo_meta_def DATADIR_MAX_def\<close>)
  then show ?thesis using run by (intro exI [of _ st'] exI [of _ ?t] exI [of _ ?F]) (simp add: demo_entry_def)
qed

text \<open>A second save of the example, in which the library fails.\<close>

theorem failed_save_falls_back_witness:
  "\<exists>st'. VamanaSaveIndexToDisk (demo_save_env (io_raise Library_error)) False 16400 demo_entry
       ((demo_state_with save_script)\<lparr>sv_world := (sv_world (demo_state_with save_script))\<lparr>wd_dirs := (\<lambda>_. True)\<rparr>\<rparr>) =
     (Raise Library_error, st') \<and> mp_hasSavedIndex (sv_meta st')"
proof -
  let ?st = "(demo_state_with save_script)\<lparr>sv_world := (sv_world (demo_state_with save_script))\<lparr>wd_dirs := (\<lambda>_. True)\<rparr>\<rparr>"
  let ?st1 = "?st\<lparr>sv_world := (sv_world ?st)\<lparr>wd_script := drop 6 save_script\<rparr>\<rparr>"
  let ?F = "\<lparr>ld_layout = le_layout, ld_DataDir = ''/pg'', ld_MyDatabaseId = 5, ld_PgStartTime = 0, ld_persists_index = True,
    ld_budget = Inr 1000, ld_svs_load = (\<lambda>_. Inr None)\<rparr>"
  have run: "save_files (demo_save_env (io_raise Library_error)) 16400 demo_entry ?st = (Raise Library_error, ?st1)"
    by (simp add: save_files_def demo_save_env_def io_bind_def on_world_def Let_def VamanaEnsureSaveDir_def io_raise_def
        VamanaMakeDirectoryOrError_def sys_mkdir_def io_bind_def syscall_def io_return_def VamanaSvsPayloadSubdirs_def
        demo_state_with_def save_script_def)
  show ?thesis
    using failed_save_falls_back [OF run, of "drop 8 save_script" _ ?F, OF _ _ refl]
    by (auto simp: demo_state_with_def save_script_def demo_meta_def demo_save_env_def VamanaValidateMetaCounts_def
        VAMANA_MAX_TID_MAPPING_CAPACITY_def)
qed

end
