(* ===== verification/Checkpoint.thy ===== *)
theory Checkpoint
  imports Index_Save Memory_Contracts Replay_Role "HOL-Library.Signed_Division"
begin

text \<open>
  Checkpointing a cached index (\<open>vamana_checkpoint.c\<close>): when a checkpoint is due, the save with its
  accounting on every error path, and the confirmation of the replication slot
  (\<open>vamana_replication.c\<close>).
\<close>

section \<open>Slots\<close>

definition NAMEDATALEN :: nat where "NAMEDATALEN = 64"

definition SlotName :: "oid \<Rightarrow> oid \<Rightarrow> string" where
  "SlotName dboid indexRelid =
     snprintf NAMEDATALEN (''vamana_'' @ decimal (unat dboid) @ ''_'' @ decimal (unat indexRelid))"

text \<open>
  What a checkpoint reads from its surroundings.  \<open>ck_slots\<close> are the named replication slots with their
  \<open>restart_lsn\<close>; the other fields are the answers of the calls in the order of the code.
\<close>

record ck_env =
  ck_RecoveryInProgress :: bool
  ck_wal :: wal_ends
  ck_slots :: "string \<Rightarrow> u64 option"
  ck_now :: timestamp
  ck_start :: "io_error option"
  ck_index_open :: "io_error option"
  ck_isTemp :: bool
  ck_save :: save_env
  ck_memory_usage :: "io_error + u64"
  ck_headroom :: "io_error + u64"
  ck_acquire :: "io_error option"
  ck_confirm :: "io_error option"
  ck_memory_usage_in_catch :: "io_error + u64"
  ck_now_after :: timestamp
  ck_commit :: "io_error option"

definition VamanaReplicationSlotWalLagExceeds :: "ck_env \<Rightarrow> oid \<Rightarrow> oid \<Rightarrow> int \<Rightarrow> bool" where
  "VamanaReplicationSlotWalLagExceeds E dbOid indexRelid maxLagMb =
     (case ck_slots E (SlotName dbOid indexRelid) of
        None \<Rightarrow> False
      | Some restartLsn \<Rightarrow>
          if restartLsn = 0 then False
          else rr_current_wal_end (VamanaGetReplayRole (ck_RecoveryInProgress E)) (ck_wal E) - restartLsn
                 > word_of_int maxLagMb * 1024 * 1024)"

section \<open>When a checkpoint is due\<close>

definition USECS_PER_SEC :: int where "USECS_PER_SEC = 1000000"
definition LONG_MAX :: int where "LONG_MAX = 9223372036854775807"

record checkpoint_gucs =
  vamana_checkpoint_operations :: int
  vamana_checkpoint_interval :: int
  vamana_checkpoint_min_ops :: int
  vamana_checkpoint_debounce_window :: int
  vamana_checkpoint_max_interval :: int
  vamana_max_slot_wal_size_mb :: int

text \<open>Whole seconds since the last checkpoint; without one, for ever.\<close>

definition elapsed_sec :: "timestamp \<Rightarrow> VamanaIndexCache \<Rightarrow> int" where
  "elapsed_sec now cache =
     (if ic_lastCheckpointTime cache > 0 then (now - ic_lastCheckpointTime cache) sdiv USECS_PER_SEC else LONG_MAX)"

definition ShouldCheckpoint :: "checkpoint_gucs \<Rightarrow> ck_env \<Rightarrow> VamanaIndexCache \<Rightarrow> bool" where
  "ShouldCheckpoint G E cache =
     (if \<not> rr_persists_index (VamanaGetReplayRole (ck_RecoveryInProgress E)) then False
      else if \<not> ic_isValid cache \<or> ic_svsIndex cache = None then False
      else if ic_checkpointInProgress cache then False
      else let now = ck_now E in
      if vamana_checkpoint_operations G > 0 \<or> vamana_checkpoint_interval G > 0 then
        (if vamana_checkpoint_operations G > 0 \<and> ic_opsSinceCheckpoint cache \<ge> vamana_checkpoint_operations G then True
         else if vamana_checkpoint_interval G > 0 \<and> elapsed_sec now cache \<ge> vamana_checkpoint_interval G then True
         else False)
      else if \<not> ic_opsSinceCheckpoint cache \<ge> vamana_checkpoint_min_ops G then
        (ic_opsSinceCheckpoint cache > 0 \<and>
         VamanaReplicationSlotWalLagExceeds E (se_MyDatabaseId (ck_save E)) (ic_indexRelid cache)
           (vamana_max_slot_wal_size_mb G sdiv 2))
      else if ic_lastWriteTime cache > 0 \<and> vamana_checkpoint_debounce_window G > 0 \<and>
              (now - ic_lastWriteTime cache) sdiv USECS_PER_SEC \<ge> vamana_checkpoint_debounce_window G then True
      else if vamana_checkpoint_max_interval G > 0 \<and> elapsed_sec now cache \<ge> vamana_checkpoint_max_interval G then True
      else False)"

section \<open>The checkpoint\<close>

text \<open>
  The worker's side of a checkpoint: the save state with the cache entry, the memory ledger, the
  positions confirmed on the slot, and the two things held along the way.
\<close>

record ck_state =
  cs_save :: save_state
  cs_ledger :: VamanaWorkerShmemHeader
  cs_confirms :: "u64 list"
  cs_slot_held :: bool
  cs_index_open :: bool
  cs_eviction_suppressed :: bool

type_synonym 'a ck = "(ck_state, 'a) action"

definition on_save :: "'a sio \<Rightarrow> 'a ck" where
  "on_save m st = (let (r, s) = m (cs_save st) in (r, st\<lparr>cs_save := s\<rparr>))"

definition on_ledger :: "(VamanaWorkerShmemHeader \<Rightarrow> (errcode + 'a) \<times> VamanaWorkerShmemHeader) \<Rightarrow> 'a ck" where
  "on_ledger call st =
     (let (r, h) = call (cs_ledger st)
      in (case r of Inl err \<Rightarrow> Raise (Sql_error err) | Inr x \<Rightarrow> Return x, st\<lparr>cs_ledger := h\<rparr>))"

definition update :: "(ck_state \<Rightarrow> ck_state) \<Rightarrow> unit ck" where
  "update f st = (Return (), f st)"

definition answer :: "io_error + 'a \<Rightarrow> 'a ck" where
  "answer r st = (case r of Inl err \<Rightarrow> (Raise err, st) | Inr x \<Rightarrow> (Return x, st))"

text \<open>Assignments to fields of the cache entry.\<close>

definition set_entry :: "(VamanaIndexCache \<Rightarrow> VamanaIndexCache) \<Rightarrow> ck_state \<Rightarrow> ck_state" where
  "set_entry f st = st\<lparr>cs_save := (cs_save st)\<lparr>sv_cache := map_option f (sv_cache (cs_save st))\<rparr>\<rparr>"

text \<open>A slot that is busy or gone is not an error.\<close>

definition VamanaTryAcquireSlotNoWait :: "ck_env \<Rightarrow> bool ck" where
  "VamanaTryAcquireSlotNoWait E st =
     (case ck_acquire E of
        None \<Rightarrow> (Return True, st\<lparr>cs_slot_held := True\<rparr>)
      | Some err \<Rightarrow>
          if err \<noteq> Object_in_use \<and> err \<noteq> Undefined_object then (Raise err, st) else (Return False, st))"

definition VamanaSlotAdvance :: "ck_env \<Rightarrow> string option \<Rightarrow> u64 \<Rightarrow> bool ck" where
  "VamanaSlotAdvance E slot newLsn =
     (case slot of
        None \<Rightarrow> io_return True
      | Some slotName \<Rightarrow>
          io_bind (VamanaTryAcquireSlotNoWait E) (\<lambda>acquired.
            if \<not> acquired then io_return False
            else (\<lambda>st.
              let st = st\<lparr>cs_confirms := cs_confirms st @ [newLsn], cs_slot_held := False\<rparr>
              in case ck_confirm E of Some err \<Rightarrow> (Raise err, st) | None \<Rightarrow> (Return True, st))))"

text \<open>After the save: measure the compacted graph, reconcile the ledger, advance the slot.\<close>

definition checkpoint_publish :: "ck_env \<Rightarrow> VamanaIndexCache \<Rightarrow> u64 \<Rightarrow> bool ck" where
  "checkpoint_publish E cache checkpoint_lsn =
     io_bind (answer (ck_memory_usage E)) (\<lambda>residentBytes.
     io_bind (update (set_entry (\<lambda>c. c\<lparr>ic_residentBytes := residentBytes\<rparr>))) (\<lambda>_.
     io_bind (answer (ck_headroom E)) (\<lambda>headroomVectors.
     io_bind (update (cs_index_open_update (\<lambda>_. False))) (\<lambda>_.
     io_bind (on_ledger (SvsMemoryReconcileResident (se_MyDatabaseId (ck_save E)) (ic_indexRelid cache)
                residentBytes (Some headroomVectors))) (\<lambda>_.
     VamanaSlotAdvance E (ic_replicationSlot cache) checkpoint_lsn)))))"

text \<open>The part under \<open>PG_TRY\<close>; the result says whether the slot was advanced.\<close>

definition checkpoint_try :: "ck_env \<Rightarrow> VamanaIndexCache \<Rightarrow> u64 \<Rightarrow> bool ck" where
  "checkpoint_try E cache checkpoint_lsn =
     io_bind (\<lambda>st. case ck_index_open E of
                Some err \<Rightarrow> (Raise err, st) | None \<Rightarrow> (Return (), st\<lparr>cs_index_open := True\<rparr>)) (\<lambda>_.
     io_bind (on_save (VamanaSaveIndexToDisk (ck_save E) (ck_isTemp E) (ic_indexRelid cache) cache)) (\<lambda>_.
     checkpoint_publish E cache checkpoint_lsn))"

text \<open>The accounting in the \<open>PG_CATCH\<close> block; an error of its own replaces the one being handled.\<close>

definition checkpoint_catch :: "ck_env \<Rightarrow> VamanaIndexCache \<Rightarrow> int \<Rightarrow> unit ck" where
  "checkpoint_catch E cache priorNumDeleted st =
     (if \<not> sv_compacted (cs_save st)
      then (Return (), set_entry (\<lambda>c. c\<lparr>ic_numDeleted := priorNumDeleted\<rparr>) st)
      else
        io_bind (update (set_entry (\<lambda>c. c\<lparr>ic_numDeleted := 0\<rparr>))) (\<lambda>_.
        io_bind (answer (ck_memory_usage_in_catch E)) (\<lambda>residentBytes.
        io_bind (update (set_entry (\<lambda>c. c\<lparr>ic_residentBytes := residentBytes\<rparr>))) (\<lambda>_.
        on_ledger (SvsMemoryReconcileResident (se_MyDatabaseId (ck_save E)) (ic_indexRelid cache)
          residentBytes None)))) st)"

text \<open>Runs on the cached entry, which the caller passes and the state holds.\<close>

definition PerformCheckpoint :: "ck_env \<Rightarrow> VamanaIndexCache \<Rightarrow> bool ck" where
  "PerformCheckpoint E cache st =
     (let checkpoint_lsn = we_flush (ck_wal E);
          priorNumDeleted = ic_numDeleted cache;
          start = (\<lambda>c. c\<lparr>ic_checkpointInProgress := True, ic_numDeleted := 0\<rparr>);
          finish = set_entry (\<lambda>c. c\<lparr>ic_checkpointInProgress := False\<rparr>);
          st = (set_entry start st)\<lparr>cs_save := (cs_save (set_entry start st))\<lparr>sv_compacted := False\<rparr>\<rparr>
      in case checkpoint_try E (start cache) checkpoint_lsn st of
           (Killed, st) \<Rightarrow> (Killed, st)
         | (Raise err, st) \<Rightarrow>
             io_bind (checkpoint_catch E cache priorNumDeleted) (\<lambda>_ st.
               (Raise err, finish (st\<lparr>cs_index_open := False\<rparr>))) st
         | (Return slotAdvanced, st) \<Rightarrow>
             let st = finish st in
             if \<not> slotAdvanced then (Return False, st)
             else (Return True,
                   set_entry (\<lambda>c. c\<lparr>ic_opsSinceCheckpoint := 0, ic_lastCheckpointTime := ck_now_after E\<rparr>) st))"

text \<open>The transaction around it; its start and its commit can fail as well.\<close>

definition VamanaCheckpointCachedIndex :: "ck_env \<Rightarrow> VamanaIndexCache \<Rightarrow> bool ck" where
  "VamanaCheckpointCachedIndex E cache st =
     (let prevSuppressed = cs_eviction_suppressed st;
          (r, st) =
            io_bind (answer (case ck_start E of Some err \<Rightarrow> Inl err | None \<Rightarrow> Inr ())) (\<lambda>_.
            io_bind (PerformCheckpoint E cache) (\<lambda>completed.
            answer (case ck_commit E of Some err \<Rightarrow> Inl err | None \<Rightarrow> Inr completed)))
              (st\<lparr>cs_eviction_suppressed := True\<rparr>)
      in case r of
           Killed \<Rightarrow> (Killed, st)
         | _ \<Rightarrow> (r, st\<lparr>cs_eviction_suppressed := prevSuppressed\<rparr>))"

text \<open>Errors end here.\<close>

definition VamanaTryCheckpointCachedIndex :: "ck_env \<Rightarrow> VamanaIndexCache \<Rightarrow> bool ck" where
  "VamanaTryCheckpointCachedIndex E cache st =
     (case VamanaCheckpointCachedIndex E cache st of
        (Raise err, st) \<Rightarrow> (Return False, st)
      | (r, st) \<Rightarrow> (r, st))"

section \<open>How a checkpoint ends\<close>

lemma set_entry_simps [simp]:
  "sv_cache (cs_save (set_entry f st)) = map_option f (sv_cache (cs_save st))"
  "sv_meta (cs_save (set_entry f st)) = sv_meta (cs_save st)"
  "sv_world (cs_save (set_entry f st)) = sv_world (cs_save st)"
  "sv_compacted (cs_save (set_entry f st)) = sv_compacted (cs_save st)"
  "cs_ledger (set_entry f st) = cs_ledger st" "cs_confirms (set_entry f st) = cs_confirms st"
  "cs_slot_held (set_entry f st) = cs_slot_held st" "cs_index_open (set_entry f st) = cs_index_open st"
  "cs_eviction_suppressed (set_entry f st) = cs_eviction_suppressed st"
  by (simp_all add: set_entry_def)

lemma SlotAdvance_cases:
  assumes "VamanaSlotAdvance E slot lsn st = (r, st')"
  shows "cs_save st' = cs_save st \<and> cs_ledger st' = cs_ledger st \<and> cs_index_open st' = cs_index_open st \<and>
    (cs_slot_held st' \<longrightarrow> cs_slot_held st) \<and>
    (cs_confirms st' = cs_confirms st \<or> slot \<noteq> None \<and> cs_confirms st' = cs_confirms st @ [lsn]) \<and>
    (r = Return True \<longrightarrow> slot = None \<or> cs_confirms st' = cs_confirms st @ [lsn]) \<and>
    (r = Return False \<longrightarrow> cs_confirms st' = cs_confirms st) \<and> r \<noteq> Killed"
  using assms by (auto simp: VamanaSlotAdvance_def VamanaTryAcquireSlotNoWait_def io_bind_def io_return_def Let_def
      split: option.splits if_splits)

text \<open>Publishing, step by step.\<close>

lemma checkpoint_publish_steps:
  "checkpoint_publish E c lsn st =
     (case ck_memory_usage E of
        Inl err \<Rightarrow> (Raise err, st)
      | Inr usage \<Rightarrow>
          (let st = set_entry (\<lambda>c. c\<lparr>ic_residentBytes := usage\<rparr>) st in
           case ck_headroom E of
             Inl err \<Rightarrow> (Raise err, st)
           | Inr headroom \<Rightarrow>
               (let (l, h) = SvsMemoryReconcileResident (se_MyDatabaseId (ck_save E)) (ic_indexRelid c) usage (Some headroom) (cs_ledger st);
                    st = st\<lparr>cs_index_open := False, cs_ledger := h\<rparr>
                in case l of
                     Inl err \<Rightarrow> (Raise (Sql_error err), st)
                   | Inr _ \<Rightarrow> VamanaSlotAdvance E (ic_replicationSlot c) lsn st)))"
  by (simp add: checkpoint_publish_def io_bind_def answer_def update_def on_ledger_def Let_def split: sum.split prod.split)

text \<open>The ledger as a handler finds it: untouched, or reconciled before the slot failed.\<close>

definition reconciled_or_not :: "ck_env \<Rightarrow> VamanaIndexCache \<Rightarrow> VamanaWorkerShmemHeader \<Rightarrow> VamanaWorkerShmemHeader \<Rightarrow> bool" where
  "reconciled_or_not E c h h' \<longleftrightarrow> h' = h \<or>
     (\<exists>usage headroom. ck_memory_usage E = Inr usage \<and> ck_headroom E = Inr headroom \<and>
        h' = snd (SvsMemoryReconcileResident (se_MyDatabaseId (ck_save E)) (ic_indexRelid c) usage (Some headroom) h))"

lemma checkpoint_publish_frame:
  assumes "checkpoint_publish E c lsn st = (r, st')"
  shows "cs_save st' = cs_save st \<or> (\<exists>usage. cs_save st' = cs_save (set_entry (\<lambda>c. c\<lparr>ic_residentBytes := usage\<rparr>) st))"
    and "cs_slot_held st' \<longrightarrow> cs_slot_held st" and "r \<noteq> Killed"
    and "cs_confirms st' = cs_confirms st \<or> cs_confirms st' = cs_confirms st @ [lsn]"
    and "reconciled_or_not E c (cs_ledger st) (cs_ledger st')"
  using assms unfolding checkpoint_publish_steps Let_def reconciled_or_not_def
  by (force split: sum.splits prod.splits dest!: SlotAdvance_cases)+

lemma checkpoint_publish_Return:
  assumes "checkpoint_publish E c lsn st = (Return b, st')"
  shows "\<exists>usage headroom. ck_memory_usage E = Inr usage \<and> ck_headroom E = Inr headroom \<and>
    cs_save st' = cs_save (set_entry (\<lambda>c. c\<lparr>ic_residentBytes := usage\<rparr>) st) \<and>
    SvsMemoryReconcileResident (se_MyDatabaseId (ck_save E)) (ic_indexRelid c) usage (Some headroom) (cs_ledger st) = (Inr (), cs_ledger st') \<and>
    cs_confirms st' = cs_confirms st @ (if b \<and> ic_replicationSlot c \<noteq> None then [lsn] else []) \<and>
    \<not> cs_index_open st'"
  using assms unfolding checkpoint_publish_steps Let_def
  by (cases b) (auto split: sum.splits prod.splits dest!: SlotAdvance_cases)

lemma checkpoint_try_cases:
  assumes "checkpoint_try E c lsn st = (r, st')"
  obtains (unopened) err where "ck_index_open E = Some err" "r = Raise err" "st' = st"
  | (unsaved) err s where "VamanaSaveIndexToDisk (ck_save E) (ck_isTemp E) (ic_indexRelid c) c (cs_save st) = (Raise err, s)"
      "r = Raise err" "st' = st\<lparr>cs_index_open := True, cs_save := s\<rparr>"
  | (killed) s where "VamanaSaveIndexToDisk (ck_save E) (ck_isTemp E) (ic_indexRelid c) c (cs_save st) = (Killed, s)"
      "r = Killed" "st' = st\<lparr>cs_index_open := True, cs_save := s\<rparr>"
  | (saved) s where "VamanaSaveIndexToDisk (ck_save E) (ck_isTemp E) (ic_indexRelid c) c (cs_save st) = (Return (), s)"
      "checkpoint_publish E c lsn (st\<lparr>cs_index_open := True, cs_save := s\<rparr>) = (r, st')"
proof -
  obtain x s where save: "VamanaSaveIndexToDisk (ck_save E) (ck_isTemp E) (ic_indexRelid c) c (cs_save st) = (x, s)" by fastforce
  note run = assms [unfolded checkpoint_try_def io_bind_def on_save_def Let_def]
  show ?thesis
  proof (cases "ck_index_open E")
    case None
    note run = run [unfolded this, simplified, unfolded save, simplified]
    show ?thesis
    proof (cases x)
      case (Return u)
      then show ?thesis using run save by (intro saved [of s]) simp_all
    next
      case (Raise err)
      then show ?thesis using run save by (intro unsaved [of err s]) simp_all
    next
      case Killed
      then show ?thesis using run save by (intro killed [of s]) simp_all
    qed
  qed (use run in \<open>intro unopened, auto\<close>)
qed

text \<open>The handler leaves the files, the metapage and the slot alone.\<close>

lemma checkpoint_catch_steps:
  "checkpoint_catch E c prior st =
     (if \<not> sv_compacted (cs_save st) then (Return (), set_entry (\<lambda>c. c\<lparr>ic_numDeleted := prior\<rparr>) st)
      else
        let st = set_entry (\<lambda>c. c\<lparr>ic_numDeleted := 0\<rparr>) st in
        case ck_memory_usage_in_catch E of
          Inl err \<Rightarrow> (Raise err, st)
        | Inr usage \<Rightarrow>
            (let st = set_entry (\<lambda>c. c\<lparr>ic_residentBytes := usage\<rparr>) st;
                 (l, h) = SvsMemoryReconcileResident (se_MyDatabaseId (ck_save E)) (ic_indexRelid c) usage None (cs_ledger st);
                 st = st\<lparr>cs_ledger := h\<rparr>
             in (case l of Inl err \<Rightarrow> Raise (Sql_error err) | Inr _ \<Rightarrow> Return (), st)))"
  by (simp add: checkpoint_catch_def io_bind_def answer_def update_def on_ledger_def Let_def split: sum.split prod.split)

lemma checkpoint_catch_frame:
  assumes "checkpoint_catch E c prior st = (r, st')"
  shows "sv_meta (cs_save st') = sv_meta (cs_save st) \<and> sv_world (cs_save st') = sv_world (cs_save st) \<and>
    cs_confirms st' = cs_confirms st \<and> cs_slot_held st' = cs_slot_held st \<and> r \<noteq> Killed"
  using assms unfolding checkpoint_catch_steps Let_def by (auto split: if_splits sum.splits prod.splits)

lemma checkpoint_catch_entry:
  assumes "checkpoint_catch E c prior st = (r, st')" and "sv_cache (cs_save st) = Some c1"
    and "reconcile = SvsMemoryReconcileResident (se_MyDatabaseId (ck_save E)) (ic_indexRelid c)"
  shows "\<exists>c'. sv_cache (cs_save st') = Some c' \<and> sv_compacted (cs_save st') = sv_compacted (cs_save st) \<and>
    ic_checkpointInProgress c' = ic_checkpointInProgress c1 \<and> ic_opsSinceCheckpoint c' = ic_opsSinceCheckpoint c1 \<and>
    ic_lastCheckpointTime c' = ic_lastCheckpointTime c1 \<and>
    (if \<not> sv_compacted (cs_save st)
     then r = Return () \<and> ic_numDeleted c' = prior \<and> ic_residentBytes c' = ic_residentBytes c1 \<and> cs_ledger st' = cs_ledger st
     else ic_numDeleted c' = 0 \<and>
       (case ck_memory_usage_in_catch E of
          Inl err \<Rightarrow> r = Raise err
        | Inr usage \<Rightarrow> ic_residentBytes c' = usage \<and> cs_ledger st' = snd (reconcile usage None (cs_ledger st)) \<and>
            (r = Return () \<longleftrightarrow> \<not> isl (fst (reconcile usage None (cs_ledger st))))))"
proof (cases "sv_compacted (cs_save st)")
  case compacted: True
  show ?thesis
  proof (cases "ck_memory_usage_in_catch E")
    case (Inr usage)
    obtain l h where "reconcile usage None (cs_ledger st) = (l, h)" by fastforce
    then show ?thesis using assms compacted Inr by (cases l) (auto simp: checkpoint_catch_steps)
  qed (use assms compacted in \<open>auto simp: checkpoint_catch_steps\<close>)
qed (use assms in \<open>auto simp: checkpoint_catch_steps\<close>)

text \<open>The entry and the state as the checkpoint starts.\<close>

definition started :: "VamanaIndexCache \<Rightarrow> VamanaIndexCache" where
  "started c = c\<lparr>ic_checkpointInProgress := True, ic_numDeleted := 0\<rparr>"

definition started_state :: "ck_state \<Rightarrow> ck_state" where
  "started_state st = (set_entry started st)\<lparr>cs_save := (cs_save (set_entry started st))\<lparr>sv_compacted := False\<rparr>\<rparr>"

lemma started_state_simps [simp]:
  "sv_cache (cs_save (started_state st)) = map_option started (sv_cache (cs_save st))"
  "sv_meta (cs_save (started_state st)) = sv_meta (cs_save st)"
  "sv_world (cs_save (started_state st)) = sv_world (cs_save st)" "\<not> sv_compacted (cs_save (started_state st))"
  "cs_ledger (started_state st) = cs_ledger st" "cs_confirms (started_state st) = cs_confirms st"
  "cs_slot_held (started_state st) = cs_slot_held st"
  by (simp_all add: started_state_def)

lemma PerformCheckpoint_cases:
  assumes "PerformCheckpoint E c st = (r, st')"
  obtains (killed) "checkpoint_try E (started c) (we_flush (ck_wal E)) (started_state st) = (Killed, st')" "r = Killed"
  | (incomplete) st1 where "checkpoint_try E (started c) (we_flush (ck_wal E)) (started_state st) = (Return False, st1)"
      "r = Return False" "st' = set_entry (\<lambda>c. c\<lparr>ic_checkpointInProgress := False\<rparr>) st1"
  | (complete) st1 where "checkpoint_try E (started c) (we_flush (ck_wal E)) (started_state st) = (Return True, st1)"
      "r = Return True" "st' = set_entry (\<lambda>c. c\<lparr>ic_opsSinceCheckpoint := 0, ic_lastCheckpointTime := ck_now_after E\<rparr>)
        (set_entry (\<lambda>c. c\<lparr>ic_checkpointInProgress := False\<rparr>) st1)"
  | (raised) err st1 st2 where "checkpoint_try E (started c) (we_flush (ck_wal E)) (started_state st) = (Raise err, st1)"
      "checkpoint_catch E c (ic_numDeleted c) st1 = (Return (), st2)" "r = Raise err"
      "st' = set_entry (\<lambda>c. c\<lparr>ic_checkpointInProgress := False\<rparr>) (st2\<lparr>cs_index_open := False\<rparr>)"
  | (stuck) err err' st1 where "checkpoint_try E (started c) (we_flush (ck_wal E)) (started_state st) = (Raise err, st1)"
      "checkpoint_catch E c (ic_numDeleted c) st1 = (Raise err', st')" "r = Raise err'"
proof -
  have run: "(case checkpoint_try E (started c) (we_flush (ck_wal E)) (started_state st) of
      (Killed, st) \<Rightarrow> (Killed, st)
    | (Raise err, st) \<Rightarrow> io_bind (checkpoint_catch E c (ic_numDeleted c)) (\<lambda>_ st.
        (Raise err, set_entry (\<lambda>c. c\<lparr>ic_checkpointInProgress := False\<rparr>) (st\<lparr>cs_index_open := False\<rparr>))) st
    | (Return slotAdvanced, st) \<Rightarrow> let st = set_entry (\<lambda>c. c\<lparr>ic_checkpointInProgress := False\<rparr>) st in
        if \<not> slotAdvanced then (Return False, st)
        else (Return True, set_entry (\<lambda>c. c\<lparr>ic_opsSinceCheckpoint := 0, ic_lastCheckpointTime := ck_now_after E\<rparr>) st)) = (r, st')"
    using assms unfolding PerformCheckpoint_def started_state_def started_def [abs_def] Let_def .
  obtain x st1 where "checkpoint_try E (started c) (we_flush (ck_wal E)) (started_state st) = (x, st1)" by fastforce
  then show ?thesis using run that
    by (cases x) (auto simp: Let_def split: if_splits elim!: io_bindE dest: checkpoint_catch_frame)
qed

lemma SaveIndexToDisk_compacted:
  assumes "VamanaSaveIndexToDisk E False relid c st = (Return (), st')"
  shows "sv_compacted st'"
proof -
  obtain x st1 where sf: "save_files E relid c st = (x, st1)" by fastforce
  show ?thesis
  proof (cases x)
    case (Return u)
    with sf have "sv_compacted st1"
      by (auto simp: save_files_def Let_def io_bind_Return on_world_Return io_return_def split: option.splits if_splits)
    then show ?thesis using assms sf Return xlog_meta_Return [of "mark_saved c" st1]
      by (auto simp: VamanaSaveIndexToDisk_def VamanaMarkIndexSaved_def io_bind_Return)
  qed (use assms sf in \<open>auto simp: VamanaSaveIndexToDisk_def split: prod.splits io_result.splits\<close>)
qed

text \<open>The fields of the entry the saving part leaves alone.\<close>

definition entry_kept :: "VamanaIndexCache \<Rightarrow> VamanaIndexCache \<Rightarrow> bool" where
  "entry_kept c c' \<longleftrightarrow> ic_checkpointInProgress c' = ic_checkpointInProgress c \<and> ic_numDeleted c' = ic_numDeleted c \<and>
     ic_opsSinceCheckpoint c' = ic_opsSinceCheckpoint c \<and> ic_lastCheckpointTime c' = ic_lastCheckpointTime c"

lemma checkpoint_try_entry:
  assumes "checkpoint_try E c lsn st = (r, st')" and "sv_cache (cs_save st) = Some entry" and "\<not> ck_isTemp E"
  obtains c' where "sv_cache (cs_save st') = Some c'" "entry_kept entry c'"
    "\<not> sv_compacted (cs_save st') \<Longrightarrow> ic_residentBytes c' = ic_residentBytes entry \<and> cs_ledger st' = cs_ledger st"
    "reconciled_or_not E c (cs_ledger st) (cs_ledger st')"
    "\<And>b. r = Return b \<Longrightarrow> \<exists>usage headroom. ck_memory_usage E = Inr usage \<and> ic_residentBytes c' = usage \<and>
       SvsMemoryReconcileResident (se_MyDatabaseId (ck_save E)) (ic_indexRelid c) usage (Some headroom) (cs_ledger st) = (Inr (), cs_ledger st') \<and>
       cs_confirms st' = cs_confirms st @ (if b \<and> ic_replicationSlot c \<noteq> None then [lsn] else [])"
  using assms(1)
proof (cases rule: checkpoint_try_cases)
  case (unopened err)
  then show ?thesis using assms(2) by (intro that [of entry]) (simp_all add: entry_kept_def reconciled_or_not_def)
next
  case (unsaved err s)
  obtain c' where c': "sv_cache s = Some c'" "c' = entry \<or> c' = entry\<lparr>ic_needsSave := False\<rparr>"
    using SaveIndexToDisk_cache [OF unsaved(1) assms(2)] by auto
  then show ?thesis using unsaved by (intro that [of c']) (auto simp: entry_kept_def reconciled_or_not_def)
next
  case (killed s)
  obtain c' where c': "sv_cache s = Some c'" "c' = entry \<or> c' = entry\<lparr>ic_needsSave := False\<rparr>"
    using SaveIndexToDisk_cache [OF killed(1) assms(2)] by auto
  then show ?thesis using killed by (intro that [of c']) (auto simp: entry_kept_def reconciled_or_not_def)
next
  case (saved s)
  obtain c0 where c0: "sv_cache s = Some c0" "entry_kept entry c0"
    using SaveIndexToDisk_cache [OF saved(1) assms(2)] by (auto simp: entry_kept_def)
  have compacted: "sv_compacted s" using saved(1) assms(3) SaveIndexToDisk_compacted by simp
  from checkpoint_publish_frame(1) [OF saved(2)] obtain c' where
    c': "sv_cache (cs_save st') = Some c'" "entry_kept entry c'" "sv_compacted (cs_save st')"
    using c0 compacted by (auto simp: entry_kept_def)
  show ?thesis
  proof (rule that [OF c'(1,2)])
    fix b
    assume "r = Return b"
    then show "\<exists>usage headroom. ck_memory_usage E = Inr usage \<and> ic_residentBytes c' = usage \<and>
       SvsMemoryReconcileResident (se_MyDatabaseId (ck_save E)) (ic_indexRelid c) usage (Some headroom) (cs_ledger st) = (Inr (), cs_ledger st') \<and>
       cs_confirms st' = cs_confirms st @ (if b \<and> ic_replicationSlot c \<noteq> None then [lsn] else [])"
      using checkpoint_publish_Return [of E c lsn _ b st'] saved(2) c' c0(1) by fastforce
  qed (use c' checkpoint_publish_frame(5) [OF saved(2)] in simp_all)
qed

section \<open>Properties\<close>

lemma PerformCheckpoint_try:
  assumes "PerformCheckpoint E c st = (r, st')"
  obtains r1 st1 where "checkpoint_try E (started c) (we_flush (ck_wal E)) (started_state st) = (r1, st1)"
    "cs_confirms st' = cs_confirms st1" "sv_meta (cs_save st') = sv_meta (cs_save st1)"
    "sv_world (cs_save st') = sv_world (cs_save st1)" "cs_slot_held st' = cs_slot_held st1"
  using assms
proof (cases rule: PerformCheckpoint_cases)
  case (raised err st1 st2)
  then show ?thesis using checkpoint_catch_frame [OF raised(2)] by (intro that [OF raised(1)]) simp_all
next
  case (stuck err err' st1)
  then show ?thesis using checkpoint_catch_frame [OF stuck(2)] by (intro that [OF stuck(1)]) simp_all
qed (auto intro: that)


text \<open>
  C21: the accounting of a checkpoint on every path.  A checkpoint that returns has cleared its flag and
  the deletion count, and the entry and the ledger carry the fresh measurement; only one that
  returns true restarts the debounce clock, so that one with a busy slot is retried.  One that raises
  leaves the clock alone; if the library had not compacted the graph yet, the deletion count, the size
  and the ledger are as before, otherwise the count is zero and, unless measuring or reconciling
  in the handler fails as well, size and ledger carry a new measurement and the flag is cleared.
\<close>

theorem checkpoint_accounting:
  assumes "PerformCheckpoint E c st = (r, st')" and "sv_cache (cs_save st) = Some c" and "\<not> ck_isTemp E" and "r \<noteq> Killed"
    and "reconcile = SvsMemoryReconcileResident (se_MyDatabaseId (ck_save E)) (ic_indexRelid c)"
  shows "\<exists>c'. sv_cache (cs_save st') = Some c' \<and>
    (case r of
       Return b \<Rightarrow> \<not> ic_checkpointInProgress c' \<and> ic_numDeleted c' = 0 \<and>
         ck_memory_usage E = Inr (ic_residentBytes c') \<and>
         (\<exists>headroom. reconcile (ic_residentBytes c') (Some headroom) (cs_ledger st) = (Inr (), cs_ledger st')) \<and>
         cs_confirms st' = cs_confirms st @ (if b \<and> ic_replicationSlot c \<noteq> None then [we_flush (ck_wal E)] else []) \<and>
         ic_opsSinceCheckpoint c' = (if b then 0 else ic_opsSinceCheckpoint c) \<and>
         ic_lastCheckpointTime c' = (if b then ck_now_after E else ic_lastCheckpointTime c)
     | Raise err \<Rightarrow> ic_opsSinceCheckpoint c' = ic_opsSinceCheckpoint c \<and>
         ic_lastCheckpointTime c' = ic_lastCheckpointTime c \<and>
         (if \<not> sv_compacted (cs_save st')
          then \<not> ic_checkpointInProgress c' \<and> ic_numDeleted c' = ic_numDeleted c \<and>
            ic_residentBytes c' = ic_residentBytes c \<and> cs_ledger st' = cs_ledger st
          else ic_numDeleted c' = 0 \<and>
            (case ck_memory_usage_in_catch E of
               Inl err' \<Rightarrow> err = err' \<and> ic_checkpointInProgress c'
             | Inr usage \<Rightarrow> ic_residentBytes c' = usage \<and>
                 (\<exists>h. reconciled_or_not E c (cs_ledger st) h \<and> cs_ledger st' = snd (reconcile usage None h) \<and>
                    ic_checkpointInProgress c' = isl (fst (reconcile usage None h)))))
     | Killed \<Rightarrow> True)"
proof -
  have c0: "sv_cache (cs_save (started_state st)) = Some (started c)" using assms(2) by simp
  have relid: "ic_indexRelid (started c) = ic_indexRelid c" "ic_replicationSlot (started c) = ic_replicationSlot c"
    by (simp_all add: started_def)
  have returned: "\<exists>c1. sv_cache (cs_save st1) = Some c1 \<and> entry_kept (started c) c1 \<and>
      ck_memory_usage E = Inr (ic_residentBytes c1) \<and>
      (\<exists>headroom. reconcile (ic_residentBytes c1) (Some headroom) (cs_ledger st) = (Inr (), cs_ledger st1)) \<and>
      cs_confirms st1 = cs_confirms st @ (if b \<and> ic_replicationSlot c \<noteq> None then [we_flush (ck_wal E)] else [])"
    if "checkpoint_try E (started c) (we_flush (ck_wal E)) (started_state st) = (Return b, st1)" for b st1
  proof (rule checkpoint_try_entry [OF that c0 assms(3)])
    fix c1
    assume "sv_cache (cs_save st1) = Some c1" "entry_kept (started c) c1"
      "\<And>b'. Return b = Return b' \<Longrightarrow> \<exists>usage headroom. ck_memory_usage E = Inr usage \<and> ic_residentBytes c1 = usage \<and>
         SvsMemoryReconcileResident (se_MyDatabaseId (ck_save E)) (ic_indexRelid (started c)) usage (Some headroom)
           (cs_ledger (started_state st)) = (Inr (), cs_ledger st1) \<and>
         cs_confirms st1 = cs_confirms (started_state st) @
           (if b' \<and> ic_replicationSlot (started c) \<noteq> None then [we_flush (ck_wal E)] else [])"
    then show ?thesis using relid assms(5) by (intro exI [of _ c1]) auto
  qed
  from assms(1) show ?thesis
  proof (cases rule: PerformCheckpoint_cases)
    case (incomplete st1)
    from returned [OF incomplete(1)] incomplete(2,3) show ?thesis by (auto simp: entry_kept_def started_def)
  next
    case (complete st1)
    from returned [OF complete(1)] complete(2,3) show ?thesis by (auto simp: entry_kept_def started_def)
  next
    case (raised err st1 st2)
    show ?thesis
    proof (rule checkpoint_try_entry [OF raised(1) c0 assms(3)])
      fix c1
      assume c1: "sv_cache (cs_save st1) = Some c1" "entry_kept (started c) c1"
        "\<not> sv_compacted (cs_save st1) \<Longrightarrow> ic_residentBytes c1 = ic_residentBytes (started c) \<and> cs_ledger st1 = cs_ledger (started_state st)"
        "reconciled_or_not E (started c) (cs_ledger (started_state st)) (cs_ledger st1)"
      then have "reconciled_or_not E c (cs_ledger st) (cs_ledger st1)" by (simp add: reconciled_or_not_def started_def)
      then show ?thesis using c1(2,3) checkpoint_catch_entry [OF raised(2) c1(1) assms(5)] raised(3,4)
        by (cases "sv_compacted (cs_save st1)"; cases "ck_memory_usage_in_catch E") (auto simp: entry_kept_def started_def)
    qed
  next
    case (stuck err err' st1)
    show ?thesis
    proof (rule checkpoint_try_entry [OF stuck(1) c0 assms(3)])
      fix c1
      assume c1: "sv_cache (cs_save st1) = Some c1" "entry_kept (started c) c1"
        "reconciled_or_not E (started c) (cs_ledger (started_state st)) (cs_ledger st1)"
      then have "reconciled_or_not E c (cs_ledger st) (cs_ledger st1)" by (simp add: reconciled_or_not_def started_def)
      then show ?thesis using c1(2) checkpoint_catch_entry [OF stuck(2) c1(1) assms(5)] stuck(3)
        by (cases "sv_compacted (cs_save st1)"; cases "ck_memory_usage_in_catch E") (auto simp: entry_kept_def started_def)
    qed
  qed (use assms(4) in simp)
qed

text \<open>The ledger refuses to reconcile an index whose reservation is not resident.\<close>

lemma reconcile_refused:
  assumes "reservation_state h db relid \<noteq> Some SVS_MEM_RESIDENT"
  shows "isl (fst (SvsMemoryReconcileResident db relid usage headroom h))" "snd (SvsMemoryReconcileResident db relid usage headroom h) = h"
proof -
  show "isl (fst (SvsMemoryReconcileResident db relid usage headroom h))"
    using assms by (auto simp: SvsMemoryReconcileResident_def reservation_state_def LookupEntryOrError_def
        FindResidentReservationOrError_def Let_def split: option.splits)
  then show "snd (SvsMemoryReconcileResident db relid usage headroom h) = h" by (rule other_calls_refused(6))
qed

text \<open>
  C34: an error of the handler itself switches checkpointing off.  When the reservation of the index is not
  resident, as while a rebuild is under way, a checkpoint whose save went through raises in the
  reconciliation, and the handler repeats the refused call before it clears the flag.  The entry then
  still says that a checkpoint is in progress, and under no setting and at no time is another one due.
\<close>

theorem checkpoint_refused_stays_in_progress:
  assumes "sv_cache (cs_save st) = Some c" and "\<not> ck_isTemp E" and "ck_index_open E = None"
    and "VamanaSaveIndexToDisk (ck_save E) False (ic_indexRelid c) (started c) (cs_save (started_state st)) = (Return (), s)"
    and "ck_memory_usage E = Inr usage" and "ck_headroom E = Inr headroom" and "ck_memory_usage_in_catch E = Inr usage'"
    and "reservation_state (cs_ledger st) (se_MyDatabaseId (ck_save E)) (ic_indexRelid c) \<noteq> Some SVS_MEM_RESIDENT"
  shows "\<exists>err st' c'. PerformCheckpoint E c st = (Raise (Sql_error err), st') \<and> sv_cache (cs_save st') = Some c' \<and>
    ic_checkpointInProgress c' \<and> cs_confirms st' = cs_confirms st \<and> (\<forall>G E'. \<not> ShouldCheckpoint G E' c')"
proof -
  let ?rec = "SvsMemoryReconcileResident (se_MyDatabaseId (ck_save E)) (ic_indexRelid c)"
  have relid: "ic_indexRelid (started c) = ic_indexRelid c" by (simp add: started_def)
  have saved: "VamanaSaveIndexToDisk (ck_save E) (ck_isTemp E) (ic_indexRelid (started c)) (started c) (cs_save (started_state st)) = (Return (), s)"
    using assms(2,4) relid by simp
  obtain e1 where e1: "?rec usage (Some headroom) (cs_ledger st) = (Inl e1, cs_ledger st)"
    using reconcile_refused [OF assms(8), of usage "Some headroom"] by (metis isl_def prod.collapse)
  obtain e2 where e2: "?rec usage' None (cs_ledger st) = (Inl e2, cs_ledger st)"
    using reconcile_refused [OF assms(8), of usage' None] by (metis isl_def prod.collapse)
  obtain c1 where c1: "sv_cache s = Some c1" "ic_checkpointInProgress c1"
    using SaveIndexToDisk_cache [OF saved, of "started c"] assms(1) by (auto simp: started_def)
  have compacted: "sv_compacted s" by (rule SaveIndexToDisk_compacted [OF assms(4)])
  let ?st1 = "(set_entry (\<lambda>c. c\<lparr>ic_residentBytes := usage\<rparr>) ((started_state st)\<lparr>cs_index_open := True, cs_save := s\<rparr>))
    \<lparr>cs_index_open := False, cs_ledger := cs_ledger st\<rparr>"
  have "checkpoint_publish E (started c) (we_flush (ck_wal E)) ((started_state st)\<lparr>cs_index_open := True, cs_save := s\<rparr>) =
      (Raise (Sql_error e1), ?st1)"
    unfolding checkpoint_publish_steps by (simp add: assms(5,6) relid e1)
  then have tried: "checkpoint_try E (started c) (we_flush (ck_wal E)) (started_state st) = (Raise (Sql_error e1), ?st1)"
    using saved by (simp add: checkpoint_try_def io_bind_def on_save_def assms(3))
  let ?st2 = "(set_entry (\<lambda>c. c\<lparr>ic_residentBytes := usage'\<rparr>) (set_entry (\<lambda>c. c\<lparr>ic_numDeleted := 0\<rparr>) ?st1))\<lparr>cs_ledger := cs_ledger st\<rparr>"
  have "checkpoint_catch E c (ic_numDeleted c) ?st1 = (Raise (Sql_error e2), ?st2)"
    unfolding checkpoint_catch_steps by (simp add: compacted assms(7) e2)
  then have "PerformCheckpoint E c st = (Raise (Sql_error e2), ?st2)"
    using tried unfolding PerformCheckpoint_def started_state_def started_def [abs_def] Let_def by (simp add: io_bind_def)
  moreover have "\<exists>c'. sv_cache (cs_save ?st2) = Some c' \<and> ic_checkpointInProgress c'" using c1 by simp
  ultimately show ?thesis by (auto simp: ShouldCheckpoint_def)
qed

section \<open>Examples\<close>

definition ck_entry :: VamanaIndexCache where
  "ck_entry = demo_entry\<lparr>ic_replicationSlot := Some ''vamana_5_16400'', ic_numDeleted := 1\<rparr>"

definition ck_demo_env :: ck_env where
  "ck_demo_env = \<lparr>ck_RecoveryInProgress = False, ck_wal = \<lparr>we_flush = 900, we_replay = 0\<rparr>, ck_slots = (\<lambda>_. None), ck_now = 7,
     ck_start = None, ck_index_open = None, ck_isTemp = False, ck_save = demo_save_env (io_return ()),
     ck_memory_usage = Inr 640000, ck_headroom = Inr 3, ck_acquire = None, ck_confirm = None,
     ck_memory_usage_in_catch = Inr 640000, ck_now_after = 9, ck_commit = None\<rparr>"

definition ck_ledger :: VamanaWorkerShmemHeader where
  "ck_ledger = run_calls
     [ReserveSlot 5, AdmitDatabase demo_gucs 5 9000000 0, ReserveBuild demo_gucs demo_env 5 16400 5000000 600000,
      ConfirmBuild 5 16400 5000000 700000, HandoffBuild 5 16400, ReconcileLoad demo_env 5 16400 650000 3]
     (VamanaWorkerShmemStartup 2 4)"

definition ck_demo_state :: "VamanaWorkerShmemHeader \<Rightarrow> ck_state" where
  "ck_demo_state h = \<lparr>cs_save = (demo_state_with save_script)\<lparr>sv_cache := Some ck_entry\<rparr>, cs_ledger = h, cs_confirms = [],
     cs_slot_held = False, cs_index_open = False, cs_eviction_suppressed = True\<rparr>"

lemma ck_demo_saves:
  "\<exists>s. VamanaSaveIndexToDisk (ck_save ck_demo_env) False 16400 (started ck_entry) (cs_save (started_state (ck_demo_state h))) = (Return (), s)"
  using demo_save_runs_at [of "started ck_entry" "cs_save (started_state (ck_demo_state h))"]
  by (simp add: started_def ck_entry_def demo_entry_def ck_demo_env_def ck_demo_state_def) (metis prod.collapse)

lemma ck_demo_reconciles:
  "fst (SvsMemoryReconcileResident 5 16400 640000 (Some 3) ck_ledger) = Inr ()" by code_simp

lemma ck_demo_answers:
  "ck_index_open ck_demo_env = None" "ck_isTemp ck_demo_env = False" "ck_memory_usage ck_demo_env = Inr 640000"
  "ck_headroom ck_demo_env = Inr 3" "ck_acquire ck_demo_env = None" "ck_confirm ck_demo_env = None"
  "ck_memory_usage_in_catch ck_demo_env = Inr 640000"
  by (simp_all add: ck_demo_env_def)

lemma ck_demo_runs: "fst (PerformCheckpoint ck_demo_env ck_entry (ck_demo_state ck_ledger)) = Return True"
proof -
  obtain s where s: "VamanaSaveIndexToDisk (ck_save ck_demo_env) False 16400 (started ck_entry)
      (cs_save (started_state (ck_demo_state ck_ledger))) = (Return (), s)" using ck_demo_saves by blast
  obtain h where h: "SvsMemoryReconcileResident 5 16400 640000 (Some 3) ck_ledger = (Inr (), h)"
    using ck_demo_reconciles by (metis prod.collapse)
  have relid: "ic_indexRelid (started ck_entry) = 16400" "ic_replicationSlot (started ck_entry) = Some ''vamana_5_16400''"
    by (simp_all add: started_def ck_entry_def demo_entry_def)
  have db: "se_MyDatabaseId (ck_save ck_demo_env) = 5" by (simp add: ck_demo_env_def demo_save_env_def)
  have led: "cs_ledger (ck_demo_state ck_ledger) = ck_ledger" by (simp add: ck_demo_state_def)
  have "fst (checkpoint_try ck_demo_env (started ck_entry) (we_flush (ck_wal ck_demo_env)) (started_state (ck_demo_state ck_ledger))) = Return True"
    using s by (simp add: checkpoint_try_def io_bind_def on_save_def ck_demo_answers relid checkpoint_publish_steps db led h
        VamanaSlotAdvance_def VamanaTryAcquireSlotNoWait_def)
  then obtain st1 where "checkpoint_try ck_demo_env (started ck_entry) (we_flush (ck_wal ck_demo_env)) (started_state (ck_demo_state ck_ledger))
      = (Return True, st1)" by (metis prod.collapse)
  then show ?thesis unfolding PerformCheckpoint_def started_state_def started_def [abs_def] Let_def by simp
qed

lemma ck_demo_run:
  "\<exists>st'. PerformCheckpoint ck_demo_env ck_entry (ck_demo_state ck_ledger) = (Return True, st')"
  using ck_demo_runs by (metis prod.collapse)

lemma ck_demo_cached: "sv_cache (cs_save (ck_demo_state h)) = Some ck_entry" "\<not> ck_isTemp ck_demo_env"
  by (simp_all add: ck_demo_state_def ck_demo_env_def)

theorem checkpoint_accounting_witness:
  "\<exists>st' c'. PerformCheckpoint ck_demo_env ck_entry (ck_demo_state ck_ledger) = (Return True, st') \<and>
     sv_cache (cs_save st') = Some c' \<and> ic_opsSinceCheckpoint c' = 0 \<and> ic_numDeleted c' = 0 \<and> ic_residentBytes c' = 640000 \<and>
     \<not> ic_checkpointInProgress c' \<and> cs_confirms st' = [900]"
proof -
  obtain st' where run: "PerformCheckpoint ck_demo_env ck_entry (ck_demo_state ck_ledger) = (Return True, st')" using ck_demo_run by blast
  show ?thesis using checkpoint_accounting [OF run ck_demo_cached _ refl] run
    by (auto simp: ck_demo_env_def ck_demo_state_def ck_entry_def)
qed


theorem checkpoint_refused_stays_in_progress_witness:
  "\<exists>err st' c'. PerformCheckpoint ck_demo_env ck_entry (ck_demo_state (mem_exec (ReserveBuild demo_gucs demo_env 5 16400 4000000 800000) ck_ledger)) =
     (Raise (Sql_error err), st') \<and> sv_cache (cs_save st') = Some c' \<and> ic_checkpointInProgress c'"
proof -
  let ?h = "mem_exec (ReserveBuild demo_gucs demo_env 5 16400 4000000 800000) ck_ledger"
  obtain s where s: "VamanaSaveIndexToDisk (ck_save ck_demo_env) False 16400 (started ck_entry) (cs_save (started_state (ck_demo_state ?h))) = (Return (), s)"
    using ck_demo_saves by blast
  have "reservation_state ?h 5 16400 = Some SVS_MEM_REBUILDING" by code_simp
  then have r: "reservation_state (cs_ledger (ck_demo_state ?h)) (se_MyDatabaseId (ck_save ck_demo_env)) (ic_indexRelid ck_entry) \<noteq> Some SVS_MEM_RESIDENT"
    by (simp add: ck_demo_state_def ck_demo_env_def demo_save_env_def ck_entry_def demo_entry_def)
  have "ic_indexRelid ck_entry = 16400" by (simp add: ck_entry_def demo_entry_def)
  with s have s': "VamanaSaveIndexToDisk (ck_save ck_demo_env) False (ic_indexRelid ck_entry) (started ck_entry) (cs_save (started_state (ck_demo_state ?h))) = (Return (), s)"
    by simp
  show ?thesis using checkpoint_refused_stays_in_progress [OF ck_demo_cached ck_demo_answers(1) s' ck_demo_answers(3,4,7) r] by blast
qed

end
