(* ===== verification/Spec2Isabelle.thy ===== *)
theory Spec2Isabelle
  imports Launcher_Cycle Memory_Contracts Capacity_Headroom Vector_Buffer Cpu_Slots Vamana_Undo Checkpoint
begin

text \<open>
  Verification library for the SVS extension for PostgreSQL: an index access method (``vamana'') whose
  graphs live in the memory of one background worker per database.

  \<^bold>\<open>The program and its parts.\<close>  A cluster has one \<^emph>\<open>launcher\<close> (\<open>src/vamanalauncher.c\<close>).  It reads the
  configuration table \<open>vamana_databases\<close>, keeps one \<^emph>\<open>worker\<close> per enabled database alive
  (\<open>src/vamanaworker.c\<close>), and hands out search and build threads (\<open>src/svs_cpu_budget.c\<close>).  Launcher,
  workers and backends meet in a shared-memory segment of control blocks
  (\<open>src/vamanaworkershmem.c\<close>), on which the memory ledger keeps its counters (\<open>src/svs_memory.c\<close>).  A
  backend that builds an index asks the launcher for threads (\<open>src/svs_build_request_protocol.c\<close>); one
  that inserts keeps an undo log for its transaction (\<open>src/vamana_undo.c\<close>).  A worker saves its graphs
  (\<open>src/vamanaio.c\<close>) and confirms its replication slot after a save (\<open>src/vamana_checkpoint.c\<close>).

  \<^bold>\<open>Conventions.\<close>  \<open>Oid\<close>, \<open>uint32\<close> and \<open>uint64\<close> are words of their width; C's \<open>int\<close> and timestamps are
  integers, with the narrowing casts written out (\<open>cast_i32\<close>) and the bounds under which nothing
  wraps proved.  A raised error is the left value of a sum, or the failure of an action.  Everything
  that is not this program's own code (answers of the kernel, of SPI, of the background-worker
  machinery, of the clock, of the SVS library) is an argument: a record of answers, a function, or a
  script of results.  A C critical section is one step; what other processes do between two critical
  sections of one function is an argument of type state to state.

  \<^bold>\<open>Theories, in the order of their dependencies.\<close>

  \<^item> \<open>Svs_Prelude\<close>: machine types, C division, first-match scans over fixed tables, sums over
    tables, and the contract of \<open>qsort\<close> (locale \<open>pg_qsort\<close>).
  \<^item> \<open>Cpu_Budget\<close>, \<open>Cpu_Grants\<close>: \<open>svs_cpu_budget.c\<close> function by function, then the whole of
    \<open>SvsComputeCpuGrants\<close>: grants add up to the smaller of pool and demand, lie between floor and
    demand, honour floors first and cut them in a fixed order when they do not fit.
  \<^item> \<open>Shmem_Types\<close>, \<open>Worker_Shmem\<close>, \<open>Shmem_Slots\<close>, \<open>Shmem_Queues\<close>: the control blocks of
    \<open>vamanaworker.h\<close> and every operation of \<open>vamanaworkershmem.c\<close>.  Reserving and releasing blocks
    implements a finite map (locale \<open>slot_directory\<close>); a recycled position is detected by its
    generation; queued index-count deltas are applied exactly at commit; the index-lock table is
    injective.
  \<^item> \<open>Svs_Memory\<close>, \<open>Memory_Accounting\<close>, \<open>Memory_Ops\<close>, \<open>Memory_Lifecycle\<close>, \<open>Memory_States\<close>,
    \<open>Memory_Contracts\<close>: every function of \<open>svs_memory.c\<close>.  In every state reachable by any sequence
    of calls each counter equals what the live reservations hold; the build ceiling is never
    exceeded; a reservation only moves along its life cycle; refused calls change nothing.
  \<^item> \<open>Pending_Array\<close>, \<open>Vamana_Undo\<close>: the array of subtransaction-tagged elements refines a stack of
    savepoint logs (locale \<open>savepoint_log\<close>, interpreted again for the undo log); over any transaction
    with savepoints each aborted insert is deleted exactly once.
  \<^item> \<open>Capacity_Headroom\<close>, \<open>Vector_Buffer\<close>, \<open>Cpu_Slots\<close>: the searches over the library's size
    estimates, the build buffer, and the set of parked workers converged on a target.
  \<^item> \<open>Tid_Map\<close>, \<open>Index_Save\<close>, \<open>Replay_Role\<close>, \<open>Checkpoint\<close>: files as a world with a script of
    system-call answers.  The map file is the old or the complete new one wherever the process dies;
    what was saved is loaded back; the slot is confirmed only after the save is recorded.
  \<^item> \<open>Build_Requests\<close>, \<open>Launcher_Rows\<close>, \<open>Launcher_Cpu\<close>, \<open>Launcher_Workers\<close>, \<open>Launcher_Cycle\<close>: the
    build-thread request protocol under every interleaving of builds and launcher, and one cycle of
    the launcher with all its passes: at most one worker per database, no block of a configured
    database released, every enabled database attended.

  \<^bold>\<open>Bounds and fuel.\<close>  Loops over tables recurse over the table.  The doubling and bisection of the
  capacity searches are total functions with a decreasing measure.  The compare-and-swap loops of the
  search scratch counter run over an explicit list of interferences, and the theorem says they end at
  the first attempt without one.  The wait of a build request recurses over the list of wake-ups it
  is given; a script of system-call answers that ends stands for a process killed at that call.

  \<^bold>\<open>Not modelled.\<close>  The access-method handler, the GUC definitions, opclass support and page allocation
  (registration and calls into PostgreSQL); the wrapper calls that only pass arguments to the SVS
  library (\<open>svs_wrapper.c\<close>); logical decoding and slot management (\<open>vamana_replication.c\<close>, apart from
  the replay role), which are calls into PostgreSQL's replication machinery whose behaviour is not
  part of the sources; the statistics views (\<open>vamanaworkerstats.c\<close>), which format shared memory as
  rows; latches, signal handlers and memory contexts; the text of messages.
\<close>

end
